theory Spec2Isabelle
  imports Complex_Main "HOL-Library.AList"
begin

section \<open>Python strings and lists\<close>

text \<open>
  A Python \<open>str\<close> is modelled as a \<open>string\<close> (a list of characters, one per code
  point), a G-code document as the list of its sections.
\<close>

type_synonym document = "string list"

text \<open>\<open>startswith s p\<close> is Python's \<open>s.startswith(p)\<close>.\<close>

fun startswith :: "string \<Rightarrow> string \<Rightarrow> bool" where
  "startswith s [] = True"
| "startswith [] (p # ps) = False"
| "startswith (c # cs) (p # ps) = (c = p \<and> startswith cs ps)"

text \<open>\<open>contains s sub\<close> is Python's \<open>sub in s\<close> on strings.\<close>

fun contains :: "string \<Rightarrow> string \<Rightarrow> bool" where
  "contains [] sub = (sub = [])"
| "contains (c # cs) sub = (startswith (c # cs) sub \<or> contains cs sub)"

datatype py_error = IndexError | KeyError | ValueError | TypeError | Exception string

text \<open>\<open>split_on sep s\<close> is \<open>s.split(sep)\<close> for a one-character separator.\<close>

fun split_on :: "char \<Rightarrow> string \<Rightarrow> string list" where
  "split_on sep [] = [[]]"
| "split_on sep (c # cs) =
     (if c = sep then [] # split_on sep cs
      else (case split_on sep cs of [] \<Rightarrow> [[c]] | w # ws \<Rightarrow> (c # w) # ws))"

text \<open>\<open>join sep xs\<close> is \<open>sep.join(xs)\<close>.\<close>

fun join :: "string \<Rightarrow> string list \<Rightarrow> string" where
  "join sep [] = []"
| "join sep [x] = x"
| "join sep (x # y # ys) = x @ sep @ join sep (y # ys)"

text \<open>\<open>str_int i\<close> is \<open>str(i)\<close> for a Python \<open>int\<close>.\<close>

definition digit_char :: "nat \<Rightarrow> char" where
  "digit_char d = ''0123456789'' ! d"

fun digits :: "nat \<Rightarrow> string" where
  "digits n = (if n < 10 then [digit_char n] else digits (n div 10) @ [digit_char (n mod 10)])"

definition str_int :: "int \<Rightarrow> string" where
  "str_int i = (if i < 0 then CHR ''-'' # digits (nat (- i)) else digits (nat i))"

text \<open>
  \<open>py_int s\<close> is \<open>int(s)\<close> for a string of ASCII characters: surrounding white space
  is dropped, a sign may come first, and the digits may be grouped by single
  underscores. Anything else raises \<open>ValueError\<close>.
\<close>

definition is_space :: "char \<Rightarrow> bool" where
  "is_space c = (c \<in> set [CHR '' '', CHR 0x09, CHR 0x0A, CHR 0x0B, CHR 0x0C, CHR 0x0D])"

definition strip :: "string \<Rightarrow> string" where
  "strip s = rev (dropWhile is_space (rev (dropWhile is_space s)))"

definition digit_val :: "char \<Rightarrow> nat option" where
  "digit_val c =
     (if (48::nat) \<le> of_char c \<and> of_char c \<le> (57::nat) then Some (of_char c - 48) else None)"

fun digits_value :: "nat \<Rightarrow> string \<Rightarrow> nat option" where
  "digits_value acc [] = Some acc"
| "digits_value acc [c] =
     (case digit_val c of None \<Rightarrow> None | Some v \<Rightarrow> Some (10 * acc + v))"
| "digits_value acc (c # d # ds) =
     (if c = CHR ''_'' then
        (case digit_val d of None \<Rightarrow> None | Some v \<Rightarrow> digits_value (10 * acc + v) ds)
      else
        (case digit_val c of None \<Rightarrow> None | Some v \<Rightarrow> digits_value (10 * acc + v) (d # ds)))"

definition unsigned_value :: "string \<Rightarrow> nat option" where
  "unsigned_value s =
     (case s of
        [] \<Rightarrow> None
      | c # cs \<Rightarrow> (case digit_val c of None \<Rightarrow> None | Some v \<Rightarrow> digits_value v cs))"

definition py_int :: "string \<Rightarrow> py_error + int" where
  "py_int s =
     (case strip s of
        [] \<Rightarrow> Inl ValueError
      | c # cs \<Rightarrow>
          if c = CHR ''-'' then
            (case unsigned_value cs of None \<Rightarrow> Inl ValueError | Some n \<Rightarrow> Inr (- int n))
          else if c = CHR ''+'' then
            (case unsigned_value cs of None \<Rightarrow> Inl ValueError | Some n \<Rightarrow> Inr (int n))
          else
            (case unsigned_value (c # cs) of None \<Rightarrow> Inl ValueError | Some n \<Rightarrow> Inr (int n)))"

text \<open>\<open>item xs i\<close> is \<open>xs[i]\<close> for an index that is not negative.\<close>

definition item :: "'a list \<Rightarrow> nat \<Rightarrow> py_error + 'a" where
  "item xs i = (if i < length xs then Inr (xs ! i) else Inl IndexError)"

section \<open>PostProcessingPlugin.execute\<close>

text \<open>
  A script's \<open>execute(data)\<close> either returns a document, or raises an \<open>Exception\<close>
  after possibly editing the list it was given in place. \<open>Raised e d\<close> carries the
  content \<open>d\<close> of that list when \<open>e\<close> was raised.
\<close>

datatype outcome = Returned document | Raised py_error document

type_synonym script = "document \<Rightarrow> outcome"

datatype log_entry = LogException py_error | LogAlreadyProcessed

text \<open>
  The state of the loop over \<open>self._script_list\<close>: the variable \<open>gcode_list\<close>, the
  documents handed to the scripts so far (one per call, in call order) and the lines
  written to the logger.
\<close>

record run_state =
  gcode_list :: document
  calls :: "document list"
  logged :: "log_entry list"

fun run_scripts :: "script list \<Rightarrow> run_state \<Rightarrow> run_state" where
  "run_scripts [] st = st"
| "run_scripts (script # rest) st =
     (case script (gcode_list st) of
        Returned d \<Rightarrow>
          run_scripts rest
            (st\<lparr>gcode_list := d, calls := calls st @ [gcode_list st]\<rparr>)
      | Raised e d \<Rightarrow>
          run_scripts rest
            (st\<lparr>gcode_list := d, calls := calls st @ [gcode_list st],
               logged := logged st @ [LogException e]\<rparr>))"

text \<open>
  The scene: \<open>gcode_dict\<close> is \<open>None\<close> when the scene has no such attribute, otherwise
  the dictionary from build plate id to document.
\<close>

record scene =
  gcode_dict :: "(nat \<times> document) list option"

record run_report =
  scene_after :: scene
  script_calls :: "document list"
  log_lines :: "log_entry list"

definition unchanged :: "scene \<Rightarrow> log_entry list \<Rightarrow> run_report" where
  "unchanged sc l = \<lparr>scene_after = sc, script_calls = [], log_lines = l\<rparr>"

definition POSTPROCESSED :: string where
  "POSTPROCESSED = '';POSTPROCESSED''"

text \<open>
  \<open>execute\<close> with the script list and the active build plate id as parameters.
  \<open>Inl e\<close>: the call raised \<open>e\<close>. The two places where it can raise outside the
  \<open>try\<close> are the dictionary lookup and \<open>gcode_list[0]\<close> after the loop.
\<close>

definition execute :: "script list \<Rightarrow> nat \<Rightarrow> scene \<Rightarrow> py_error + run_report" where
  "execute script_list active_build_plate_id sc =
     (case gcode_dict sc of
        None \<Rightarrow> Inr (unchanged sc [])
      | Some gd \<Rightarrow>
          if gd = [] then Inr (unchanged sc [])
          else
            (case map_of gd active_build_plate_id of
               None \<Rightarrow> Inl KeyError
             | Some gl \<Rightarrow>
                 (case gl of
                    [] \<Rightarrow> Inr (unchanged sc [])
                  | first # _ \<Rightarrow>
                      if \<not> contains first POSTPROCESSED then
                        (let st = run_scripts script_list
                                    \<lparr>gcode_list = gl, calls = [], logged = []\<rparr>
                         in if script_list \<noteq> [] then
                              (case gcode_list st of
                                 [] \<Rightarrow> Inl IndexError
                               | f # r \<Rightarrow>
                                   Inr \<lparr>scene_after = sc\<lparr>gcode_dict :=
                                          Some (AList.update active_build_plate_id
                                                  ((f @ POSTPROCESSED @ ''\<newline>'') # r) gd)\<rparr>,
                                        script_calls = calls st, log_lines = logged st\<rparr>)
                            else
                              Inr \<lparr>scene_after = sc\<lparr>gcode_dict :=
                                     Some (AList.update active_build_plate_id (gcode_list st) gd)\<rparr>,
                                   script_calls = calls st, log_lines = logged st\<rparr>)
                      else Inr (unchanged sc [LogAlreadyProcessed]))))"

section \<open>DisplayInfoOnLCD.message_to_user\<close>

text \<open>
  The first part of \<open>message_to_user\<close>: the choice between the start time the user
  entered and the clock. \<open>clock_reading\<close> holds what \<open>time.strftime\<close> returns for
  \<open>%H\<close>, \<open>%M\<close> and \<open>%S\<close>, already converted by \<open>int\<close>.
\<close>

record clock_reading =
  clock_hour :: int
  clock_minute :: int
  clock_second :: int

record start_choice =
  start_time_text :: string
  hr :: int
  minute :: int
  sec :: int
  fifteen_minute_delay :: int

definition choose_start :: "string \<Rightarrow> clock_reading \<Rightarrow> py_error + start_choice" where
  "choose_start print_start_time now =
     (let print_start_time =
            (if print_start_time = [] \<or> print_start_time = ''0'' \<or>
                length print_start_time \<noteq> 5 \<or> \<not> contains print_start_time '':''
             then [] else print_start_time)
      in if print_start_time \<noteq> [] then
           (case item (split_on CHR '':'' print_start_time) 0 of
              Inl e \<Rightarrow> Inl e
            | Inr h_text \<Rightarrow>
                (case py_int h_text of
                   Inl e \<Rightarrow> Inl e
                 | Inr h \<Rightarrow>
                     (case item (split_on CHR '':'' print_start_time) 1 of
                        Inl e \<Rightarrow> Inl e
                      | Inr m_text \<Rightarrow>
                          (case py_int m_text of
                             Inl e \<Rightarrow> Inl e
                           | Inr m \<Rightarrow>
                               Inr \<lparr>start_time_text = print_start_time, hr = h, minute = m,
                                    sec = 0, fifteen_minute_delay = 0\<rparr>))))
         else
           Inr \<lparr>start_time_text = [], hr = clock_hour now, minute = clock_minute now,
                sec = clock_second now, fifteen_minute_delay = 900\<rparr>)"

text \<open>
  \<open>print_seconds\<close> before the fudge factor is applied: the print time
  \<open>pr_hr:pr_min:pr_sec\<close> plus the lag.
\<close>

definition print_seconds :: "int \<Rightarrow> int \<Rightarrow> int \<Rightarrow> start_choice \<Rightarrow> int" where
  "print_seconds pr_hr pr_min pr_sec c =
     pr_hr * 3600 + pr_min * 60 + pr_sec + fifteen_minute_delay c"

definition start_str :: "start_choice \<Rightarrow> string" where
  "start_str c =
     (if start_time_text c = [] then
        ''and a 15 minute lag between saving the file and starting the print.''
      else ''and your entered 'print start time' of '' @ start_time_text c @ ''hrs.'')"

definition print_start_str :: "start_choice \<Rightarrow> string" where
  "print_start_str c =
     (if start_time_text c \<noteq> [] then
        ''Print Start Time.................'' @ start_time_text c @ ''hrs''
      else ''Print Start Time.................15 minutes from now.'')"

text \<open>
  The 12-hour clock of the finish message. \<open>H\<close> and \<open>M\<close> are the hour (0 to 23) and the
  minute of \<open>new_time\<close>; \<open>two_digits\<close> is what \<open>strftime\<close> prints for \<open>%H\<close> and \<open>%M\<close>.
\<close>

definition two_digits :: "nat \<Rightarrow> string" where
  "two_digits n = (if n < 10 then CHR ''0'' # digits n else digits n)"

definition show_hr :: "nat \<Rightarrow> string" where
  "show_hr H =
     (if 12 < int H then str_int (int H - 12) @ '':''
      else if int H = 0 then ''12:''
      else two_digits H @ '':'')"

definition show_ampm :: "nat \<Rightarrow> string" where
  "show_ampm H =
     (if 12 < int H then '' PM''
      else if int H = 0 then '' AM''
      else '' AM'')"

definition finish_clock :: "nat \<Rightarrow> nat \<Rightarrow> string" where
  "finish_clock H M = '' at '' @ show_hr H @ two_digits M @ show_ampm H"

section \<open>DisplayInfoOnLCD.execute, display progress\<close>

text \<open>
  Python's \<open>float\<close> is a type parameter \<open>'f\<close>, and the operations the script uses on
  it are the fields of a record: nothing is assumed about rounding, so what is proved
  holds for the IEEE doubles of the interpreter as for any other reading.
  \<open>float_of_str\<close> is \<open>float(s)\<close> (\<open>None\<close>: \<open>ValueError\<close>), \<open>str_of_float\<close> is \<open>str(x)\<close>,
  \<open>int_of_float\<close> is \<open>int(x)\<close>, \<open>round_float\<close> is \<open>round(x)\<close>, \<open>float_of_int\<close> the
  conversion of an \<open>int\<close> operand; \<open>ffloordiv\<close> and \<open>fmod\<close> are \<open>//\<close> and \<open>%\<close>;
  \<open>timedelta_us h x s\<close> is the number of microseconds of
  \<open>datetime.timedelta(hours=h, minutes=x, seconds=s)\<close> for a float \<open>x\<close>.
\<close>

record 'f float_ops =
  float_of_int :: "int \<Rightarrow> 'f"
  float_of_str :: "string \<Rightarrow> 'f option"
  str_of_float :: "'f \<Rightarrow> string"
  int_of_float :: "'f \<Rightarrow> int"
  round_float :: "'f \<Rightarrow> int"
  fmul :: "'f \<Rightarrow> 'f \<Rightarrow> 'f"
  fdiv :: "'f \<Rightarrow> 'f \<Rightarrow> 'f"
  fsub :: "'f \<Rightarrow> 'f \<Rightarrow> 'f"
  ffloordiv :: "'f \<Rightarrow> 'f \<Rightarrow> 'f"
  fmod :: "'f \<Rightarrow> 'f \<Rightarrow> 'f"
  timedelta_us :: "int \<Rightarrow> 'f \<Rightarrow> int \<Rightarrow> int"

text \<open>
  The settings read by the display-progress branch. \<open>speed_factor_setting\<close> is the
  value of the key \<open>speed_factor\<close> (a percentage); \<open>speed_factor\<close> is that value
  divided by 100, as the script computes it.
\<close>

record 'f progress_settings =
  display_total_layers :: bool
  display_remaining_time :: bool
  add_m118_line :: bool
  countdown_to_pause :: bool
  speed_factor_setting :: 'f

definition speed_factor :: "'f float_ops \<Rightarrow> 'f progress_settings \<Rightarrow> 'f" where
  "speed_factor ops s = fdiv ops (speed_factor_setting s) (float_of_int ops 100)"

definition base_display_text :: "'f progress_settings \<Rightarrow> string" where
  "base_display_text s =
     (if \<not> display_total_layers s \<or> \<not> display_remaining_time s then ''layer '' else [])"

text \<open>
  The end-of-gcode marker is taken out of the last section wherever it stands and put
  at its end. \<open>replace\<close> is \<open>str.replace\<close> for a pattern that is not empty.
\<close>

fun replace :: "string \<Rightarrow> string \<Rightarrow> string \<Rightarrow> string" where
  "replace [] old new = []"
| "replace (c # cs) old new =
     (if old \<noteq> [] \<and> startswith (c # cs) old
      then new @ replace (drop (length old) (c # cs)) old new
      else c # replace cs old new)"

definition relocate_end_of_gcode :: "document \<Rightarrow> py_error + document" where
  "relocate_end_of_gcode data =
     (if data = [] then Inl IndexError
      else
        Inr (data[length data - 1 :=
               replace (data ! (length data - 1)) '';End of Gcode\<newline>'' [] @
               '';End of Gcode\<newline>'']))"

text \<open>
  The search for the first layer section, the layer count and the total time.
  The triple is \<open>(first_layer_index, number_of_layers, time_total)\<close>.
\<close>

fun scan_start_lines :: "string list \<Rightarrow> int \<times> int \<Rightarrow> py_error + int \<times> int" where
  "scan_start_lines [] (number_of_layers, time_total) = Inr (number_of_layers, time_total)"
| "scan_start_lines (line # rest) (number_of_layers, time_total) =
     (if startswith line '';LAYER_COUNT:'' then
        (case item (split_on CHR '':'' line) 1 of
           Inl e \<Rightarrow> Inl e
         | Inr t \<Rightarrow>
             (case py_int t of
                Inl e \<Rightarrow> Inl e
              | Inr n \<Rightarrow> scan_start_lines rest (n, time_total)))
      else if startswith line '';TIME:'' then
        (case item (split_on CHR '':'' line) 1 of
           Inl e \<Rightarrow> Inl e
         | Inr t \<Rightarrow>
             (case py_int t of
                Inl e \<Rightarrow> Inl e
              | Inr n \<Rightarrow> scan_start_lines rest (number_of_layers, n)))
      else scan_start_lines rest (number_of_layers, time_total))"

fun find_first_layer ::
  "document \<Rightarrow> nat \<Rightarrow> nat \<times> int \<times> int \<Rightarrow> py_error + nat \<times> int \<times> int" where
  "find_first_layer [] index (first_layer_index, number_of_layers, time_total) =
     Inr (first_layer_index, number_of_layers, time_total)"
| "find_first_layer (data_section # rest) index (first_layer_index, number_of_layers, time_total) =
     (if contains data_section '';LAYER:'' then Inr (index, number_of_layers, time_total)
      else
        (case scan_start_lines (split_on CHR ''\<newline>'' data_section)
                (number_of_layers, time_total) of
           Inl e \<Rightarrow> Inl e
         | Inr (n, t) \<Rightarrow> find_first_layer rest (Suc index) (first_layer_index, n, t)))"

text \<open>The constants of the loop over the layers.\<close>

record layer_env =
  first_layer_index :: nat
  number_of_layers :: int
  time_total :: int

text \<open>The remaining-time suffix.\<close>

definition time_remaining_display :: "'f float_ops \<Rightarrow> 'f \<Rightarrow> int \<Rightarrow> int \<Rightarrow> string" where
  "time_remaining_display ops factor total_s elapsed_s =
     (let time_remaining_display = '' | ET '';
          m = (total_s - elapsed_s) div 60;
          m = int_of_float ops (fmul ops (float_of_int ops m) factor);
          h = m div 60;
          m = m mod 60
      in if 0 < h then
           (let time_remaining_display = time_remaining_display @ str_int h @ ''h'';
                time_remaining_display =
                  (if m < 10 then time_remaining_display @ ''0'' else time_remaining_display)
            in time_remaining_display @ str_int m @ ''m'')
         else time_remaining_display @ str_int m @ ''m'')"

definition display_text ::
  "'f float_ops \<Rightarrow> 'f progress_settings \<Rightarrow> layer_env \<Rightarrow> int \<Rightarrow> int \<Rightarrow> string" where
  "display_text ops s env current_layer time_elapsed =
     (let display_text = base_display_text s @ str_int current_layer;
          display_text =
            (if display_total_layers s
             then display_text @ ''/'' @ str_int (number_of_layers env) else display_text)
      in if display_remaining_time s
         then display_text @
              time_remaining_display ops (speed_factor ops s) (time_total env) time_elapsed
         else display_text)"

text \<open>
  The elapsed time for the next layer: the last line of the section that starts with
  \<open>;TIME_ELAPSED:\<close>, if there is one.
\<close>

definition find_time_elapsed :: "'f float_ops \<Rightarrow> string list \<Rightarrow> int \<Rightarrow> py_error + int" where
  "find_time_elapsed ops lines time_elapsed =
     (case find (\<lambda>line. startswith line '';TIME_ELAPSED:'') (rev lines) of
        None \<Rightarrow> Inr time_elapsed
      | Some line \<Rightarrow>
          (case item (split_on CHR '':'' line) 1 of
             Inl e \<Rightarrow> Inl e
           | Inr t \<Rightarrow>
               (case float_of_str ops t of
                  None \<Rightarrow> Inl ValueError
                | Some x \<Rightarrow> Inr (int_of_float ops x))))"

text \<open>The display commands are appended to the first line that starts with \<open>;LAYER:\<close>.\<close>

fun insert_display :: "string \<Rightarrow> string list \<Rightarrow> string list" where
  "insert_display added [] = []"
| "insert_display added (line # rest) =
     (if startswith line '';LAYER:'' then (line @ added) # rest
      else line # insert_display added rest)"

definition display_commands :: "'f progress_settings \<Rightarrow> string \<Rightarrow> string" where
  "display_commands s text =
     (if add_m118_line s
      then ''\<newline>M117 '' @ text @ ''\<newline>M118 '' @ text
      else ''\<newline>M117 '' @ text)"

record layer_state =
  data :: document
  current_layer :: int
  time_elapsed :: int

text \<open>One turn of the loop \<open>for layer_counter in range(len(data)-2)\<close>.\<close>

definition layer_step ::
  "'f float_ops \<Rightarrow> 'f progress_settings \<Rightarrow> layer_env \<Rightarrow> layer_state \<Rightarrow> nat
     \<Rightarrow> py_error + layer_state" where
  "layer_step ops s env st layer_counter =
     (let current_layer = current_layer st + 1;
          layer_index = first_layer_index env + layer_counter;
          display_text = display_text ops s env current_layer (time_elapsed st)
      in case item (data st) layer_index of
           Inl e \<Rightarrow> Inl e
         | Inr section \<Rightarrow>
             (let lines = split_on CHR ''\<newline>'' section
              in if \<not> contains section '';LAYER:'' then Inr st
                 else
                   (case (if display_remaining_time s \<and> current_layer \<noteq> number_of_layers env
                          then find_time_elapsed ops lines (time_elapsed st)
                          else Inr (time_elapsed st)) of
                      Inl e \<Rightarrow> Inl e
                    | Inr elapsed \<Rightarrow>
                        Inr \<lparr>data = (data st)[layer_index :=
                                      join ''\<newline>''
                                        (insert_display (display_commands s display_text) lines)],
                             current_layer = current_layer,
                             time_elapsed = elapsed\<rparr>)))"

fun layer_loop ::
  "'f float_ops \<Rightarrow> 'f progress_settings \<Rightarrow> layer_env \<Rightarrow> nat list \<Rightarrow> layer_state
     \<Rightarrow> py_error + layer_state" where
  "layer_loop ops s env [] st = Inr st"
| "layer_loop ops s env (layer_counter # rest) st =
     (case layer_step ops s env st layer_counter of
        Inl e \<Rightarrow> Inl e
      | Inr st' \<Rightarrow> layer_loop ops s env rest st')"

definition annotate_layers ::
  "'f float_ops \<Rightarrow> 'f progress_settings \<Rightarrow> layer_env \<Rightarrow> document \<Rightarrow> py_error + layer_state" where
  "annotate_layers ops s env d =
     layer_loop ops s env [0..<length d - 2] \<lparr>data = d, current_layer = 0, time_elapsed = 0\<rparr>"

text \<open>
  The remaining-time text in the words of the specification: hours, then the minutes
  padded with zeros to two digits, when there is at least one hour; the bare minutes
  otherwise.
\<close>

definition zero_padded :: "nat \<Rightarrow> string \<Rightarrow> string" where
  "zero_padded width s = replicate (width - length s) CHR ''0'' @ s"

definition remaining_text :: "int \<Rightarrow> int \<Rightarrow> string" where
  "remaining_text h m =
     (if 0 < h then str_int h @ ''h'' @ zero_padded 2 (str_int m) @ ''m''
      else str_int m @ ''m'')"

section \<open>A reading of the float operations\<close>

text \<open>
  Exact rational arithmetic, to run the model on concrete documents. It agrees with the
  interpreter wherever the interpreter's results are exact; \<open>str_of_float\<close> prints whole
  values only, as \<open>1200.0\<close>, and \<open>float_of_str\<close> reads plain decimal numerals.
\<close>

definition decimal_value :: "string \<Rightarrow> rat option" where
  "decimal_value s =
     (case split_on CHR ''.'' s of
        [a] \<Rightarrow> (case py_int a of Inl e \<Rightarrow> None | Inr i \<Rightarrow> Some (of_int i))
      | [a, b] \<Rightarrow>
          (case py_int a of
             Inl e \<Rightarrow> None
           | Inr i \<Rightarrow>
               (case unsigned_value b of
                  None \<Rightarrow> None
                | Some n \<Rightarrow>
                    Some (if startswith (strip a) ''-''
                          then of_int i - of_nat n / 10 ^ length b
                          else of_int i + of_nat n / 10 ^ length b)))
      | _ \<Rightarrow> None)"

definition round_half_even :: "rat \<Rightarrow> int" where
  "round_half_even x =
     (let f = \<lfloor>x\<rfloor>; d = x - of_int f
      in if d < 1 / 2 then f else if 1 / 2 < d then f + 1 else if even f then f else f + 1)"

definition exact_ops :: "rat float_ops" where
  "exact_ops =
     \<lparr>float_of_int = of_int,
      float_of_str = decimal_value,
      str_of_float = (\<lambda>x. str_int \<lfloor>x\<rfloor> @ ''.0''),
      int_of_float = (\<lambda>x. if 0 \<le> x then \<lfloor>x\<rfloor> else \<lceil>x\<rceil>),
      round_float = round_half_even,
      fmul = (\<lambda>x y. x * y),
      fdiv = (\<lambda>x y. x / y),
      fsub = (\<lambda>x y. x - y),
      ffloordiv = (\<lambda>x y. of_int \<lfloor>x / y\<rfloor>),
      fmod = (\<lambda>x y. x - y * of_int \<lfloor>x / y\<rfloor>),
      timedelta_us =
        (\<lambda>h x s. h * 3600000000 + round_half_even (x * 60000000) + s * 1000000)\<rparr>"

section \<open>DisplayInfoOnLCD.execute, countdown to pause\<close>

text \<open>
  The first pass builds \<open>time_list\<close>. \<open>tag_entries\<close> is the loop
  \<open>for qnum in range(num - 1, pause_index, -1)\<close>, given the list of its indices.
\<close>

record 'f pause_state =
  time_list :: "string list"
  this_time :: 'f
  pause_index :: nat

fun tag_entries :: "'f float_ops \<Rightarrow> 'f \<Rightarrow> nat list \<Rightarrow> string list \<Rightarrow> py_error + string list" where
  "tag_entries ops t [] tlist = Inr tlist"
| "tag_entries ops t (qnum # rest) tlist =
     (case item tlist qnum of
        Inl e \<Rightarrow> Inl e
      | Inr entry \<Rightarrow>
          (case float_of_str ops entry of
             None \<Rightarrow> Inl ValueError
           | Some x \<Rightarrow>
               tag_entries ops t rest
                 (tlist[qnum := str_of_float ops (fsub ops t x) @ ''P''])))"

definition pause_range :: "nat \<Rightarrow> nat \<Rightarrow> nat list" where
  "pause_range num pause_idx = rev [Suc pause_idx..<num]"

fun record_lines ::
  "'f float_ops \<Rightarrow> 'f \<Rightarrow> string \<Rightarrow> nat \<Rightarrow> string list \<Rightarrow> 'f pause_state
     \<Rightarrow> py_error + 'f pause_state" where
  "record_lines ops factor layer num [] st = Inr st"
| "record_lines ops factor layer num (line # rest) st =
     (if startswith line '';TIME_ELAPSED:'' then
        (case item (split_on CHR '':'' line) 1 of
           Inl e \<Rightarrow> Inl e
         | Inr t \<Rightarrow>
             (case float_of_str ops t of
                None \<Rightarrow> Inl ValueError
              | Some x \<Rightarrow>
                  (let this = fmul ops x factor;
                       tlist = time_list st @ [str_of_float ops this]
                   in if contains layer ''PauseAtHeight.py'' then
                        (case tag_entries ops this (pause_range num (pause_index st)) tlist of
                           Inl e \<Rightarrow> Inl e
                         | Inr tlist' \<Rightarrow>
                             record_lines ops factor layer num rest
                               \<lparr>time_list = tlist', this_time = this, pause_index = num - 1\<rparr>)
                      else
                        record_lines ops factor layer num rest
                          \<lparr>time_list = tlist, this_time = this,
                           pause_index = pause_index st\<rparr>)))
      else record_lines ops factor layer num rest st)"

fun record_times ::
  "'f float_ops \<Rightarrow> 'f \<Rightarrow> document \<Rightarrow> nat list \<Rightarrow> 'f pause_state
     \<Rightarrow> py_error + 'f pause_state" where
  "record_times ops factor d [] st = Inr st"
| "record_times ops factor d (num # rest) st =
     (case item d num of
        Inl e \<Rightarrow> Inl e
      | Inr layer \<Rightarrow>
          (case record_lines ops factor layer num (split_on CHR ''\<newline>'' layer) st of
             Inl e \<Rightarrow> Inl e
           | Inr st' \<Rightarrow> record_times ops factor d rest st'))"

text \<open>
  The second pass. \<open>time_to_pause\<close> is the text computed from a tagged entry;
  \<open>time_to_go\<close> is \<open>None\<close> while the variable of that name is not yet bound.
\<close>

definition time_to_pause :: "'f float_ops \<Rightarrow> string \<Rightarrow> py_error + string" where
  "time_to_pause ops entry =
     (let alt_time = butlast entry
      in case float_of_str ops alt_time of
           None \<Rightarrow> Inl ValueError
         | Some x \<Rightarrow>
             (let hours = fdiv ops x (float_of_int ops 3600);
                  hhh = int_of_float ops hours;
                  hhr = (if 0 < hhh then str_int hhh @ ''h'' else []);
                  mmm = fmul ops (fsub ops hours (float_of_int ops (int_of_float ops hours)))
                          (float_of_int ops 60);
                  sss = int_of_float ops
                          (fmul ops (fsub ops mmm (float_of_int ops (int_of_float ops mmm)))
                             (float_of_int ops 60));
                  time_to_go = hhr @ str_int (round_float ops mmm) @ ''m''
              in Inr (if hhr = [] then time_to_go @ str_int sss @ ''s'' else time_to_go)))"

record rewrite_state =
  layer :: string
  time_to_go :: "string option"

fun rewrite_lines ::
  "'f float_ops \<Rightarrow> string list \<Rightarrow> nat \<Rightarrow> string list \<Rightarrow> rewrite_state
     \<Rightarrow> py_error + rewrite_state" where
  "rewrite_lines ops tlist num [] st = Inr st"
| "rewrite_lines ops tlist num (line # rest) st =
     (case (if startswith line ''M117'' \<and> contains line ''|'' then
              (case item tlist num of
                 Inl e \<Rightarrow> Inl e
               | Inr entry \<Rightarrow>
                   if contains entry ''P'' then
                     (case time_to_pause ops entry of
                        Inl e \<Rightarrow> Inl e
                      | Inr t \<Rightarrow>
                          Inr \<lparr>layer = replace (layer st) line
                                         (hd (split_on CHR ''|'' line) @ ''| TP '' @ t),
                               time_to_go = Some t\<rparr>)
                   else Inr st)
            else Inr st) of
        Inl e \<Rightarrow> Inl e
      | Inr st1 \<Rightarrow>
          (case (if startswith line ''M118'' \<and> contains line ''|'' then
                   (case item tlist num of
                      Inl e \<Rightarrow> Inl e
                    | Inr entry \<Rightarrow>
                        if contains entry ''P'' then
                          (case time_to_go st1 of
                             None \<Rightarrow> Inl (Exception ''UnboundLocalError'')
                           | Some t \<Rightarrow>
                               Inr (st1\<lparr>layer := replace (layer st1) line
                                      (hd (split_on CHR ''|'' line) @ ''| TP '' @ t)\<rparr>))
                        else Inr st1)
                 else Inr st1) of
             Inl e \<Rightarrow> Inl e
           | Inr st2 \<Rightarrow> rewrite_lines ops tlist num rest st2))"

fun rewrite_layers ::
  "'f float_ops \<Rightarrow> string list \<Rightarrow> nat list \<Rightarrow> document \<times> string option
     \<Rightarrow> py_error + document \<times> string option" where
  "rewrite_layers ops tlist [] (d, ttg) = Inr (d, ttg)"
| "rewrite_layers ops tlist (num # rest) (d, ttg) =
     (case item d num of
        Inl e \<Rightarrow> Inl e
      | Inr section \<Rightarrow>
          (case rewrite_lines ops tlist num (split_on CHR ''\<newline>'' section)
                  \<lparr>layer = section, time_to_go = ttg\<rparr> of
             Inl e \<Rightarrow> Inl e
           | Inr st \<Rightarrow> rewrite_layers ops tlist rest (d[num := layer st], time_to_go st)))"

definition countdown_to_pauses ::
  "'f float_ops \<Rightarrow> 'f \<Rightarrow> document \<Rightarrow> py_error + document" where
  "countdown_to_pauses ops factor d =
     (case record_times ops factor d [2..<length d - 1]
             \<lparr>time_list = [''0'', ''0''], this_time = float_of_int ops 0, pause_index = 1\<rparr> of
        Inl e \<Rightarrow> Inl e
      | Inr st \<Rightarrow>
          (case rewrite_layers ops (time_list st) [2..<length d - 1] (d, None) of
             Inl e \<Rightarrow> Inl e
           | Inr (d', ttg) \<Rightarrow> Inr d'))"

text \<open>
  Notions used to state what the two passes do. \<open>elapsed_lines\<close> are the lines of a
  section that the first pass reads; \<open>layer_time\<close> is the value it computes from a
  section that has one such line; \<open>time_to_next_pause\<close> is the tagged entry of a section,
  given the pause-marked section that tags it; \<open>next_pause d m q k\<close> says that \<open>k\<close> is
  the first pause-marked section after \<open>q\<close>, below \<open>m\<close>. \<open>times_recorded\<close> is the state
  of the first pass when it has read the sections \<open>2 \<dots> n - 1\<close>.
\<close>

definition elapsed_lines :: "string \<Rightarrow> string list" where
  "elapsed_lines sect =
     filter (\<lambda>l. startswith l '';TIME_ELAPSED:'') (split_on CHR ''\<newline>'' sect)"

definition layer_time :: "'f float_ops \<Rightarrow> 'f \<Rightarrow> string \<Rightarrow> 'f option" where
  "layer_time ops factor sect =
     (case elapsed_lines sect of
        [line] \<Rightarrow>
          (case item (split_on CHR '':'' line) 1 of
             Inl e \<Rightarrow> None
           | Inr t \<Rightarrow>
               (case float_of_str ops t of
                  None \<Rightarrow> None
                | Some x \<Rightarrow> Some (fmul ops x factor)))
      | _ \<Rightarrow> None)"

definition time_to_next_pause :: "'f float_ops \<Rightarrow> 'f \<Rightarrow> string \<Rightarrow> string \<Rightarrow> string option" where
  "time_to_next_pause ops factor sect pause_sect =
     (case layer_time ops factor pause_sect of
        None \<Rightarrow> None
      | Some pause_time \<Rightarrow>
          (case layer_time ops factor sect of
             None \<Rightarrow> None
           | Some t \<Rightarrow>
               (case float_of_str ops (str_of_float ops t) of
                  None \<Rightarrow> None
                | Some x \<Rightarrow> Some (str_of_float ops (fsub ops pause_time x) @ ''P''))))"

definition next_pause :: "document \<Rightarrow> nat \<Rightarrow> nat \<Rightarrow> nat \<Rightarrow> bool" where
  "next_pause d m q k \<longleftrightarrow>
     q < k \<and> k < m \<and> contains (d ! k) ''PauseAtHeight.py'' \<and>
     (\<forall>i \<in> {q<..<k}. \<not> contains (d ! i) ''PauseAtHeight.py'')"

definition times_recorded ::
  "'f float_ops \<Rightarrow> 'f \<Rightarrow> document \<Rightarrow> nat \<Rightarrow> 'f pause_state \<Rightarrow> bool" where
  "times_recorded ops factor d n st \<longleftrightarrow>
     length (time_list st) = n \<and> 1 \<le> pause_index st \<and> Suc (pause_index st) \<le> n \<and>
     (\<forall>q. pause_index st < q \<and> q < n \<longrightarrow>
        (\<exists>t. layer_time ops factor (d ! q) = Some t \<and> time_list st ! q = str_of_float ops t)) \<and>
     (\<forall>q. 2 \<le> q \<and> q \<le> pause_index st \<longrightarrow>
        (\<exists>k. next_pause d n q k \<and>
             time_to_next_pause ops factor (d ! q) (d ! k) = Some (time_list st ! q))) \<and>
     (\<forall>i. Suc (pause_index st) < i \<and> i < n \<longrightarrow> \<not> contains (d ! i) ''PauseAtHeight.py'') \<and>
     (pause_index st = 1 \<or>
      (Suc (pause_index st) < n \<and> contains (d ! Suc (pause_index st)) ''PauseAtHeight.py''))"

section \<open>DisplayInfoOnLCD.execute, the estimate lines\<close>

text \<open>
  \<open>index_of x xs\<close> is \<open>xs.index(x)\<close> and \<open>insert_at i x xs\<close> is \<open>xs.insert(i, x)\<close>
  for an index that is not negative.
\<close>

fun index_of :: "'a \<Rightarrow> 'a list \<Rightarrow> py_error + nat" where
  "index_of x [] = Inl ValueError"
| "index_of x (y # ys) =
     (if y = x then Inr 0
      else (case index_of x ys of Inl e \<Rightarrow> Inl e | Inr i \<Rightarrow> Inr (Suc i)))"

definition insert_at :: "nat \<Rightarrow> 'a \<Rightarrow> 'a list \<Rightarrow> 'a list" where
  "insert_at i x xs = take i xs @ x # drop i xs"

text \<open>
  \<open>hours_minutes\<close> is the pair \<open>(hr, mmm)\<close> the script computes from a number of
  seconds: \<open>hhh = seconds/3600\<close>, \<open>round(hhh // 1)\<close> and \<open>round((hhh % 1) * 60)\<close>.
\<close>

definition hours_minutes :: "'f float_ops \<Rightarrow> 'f \<Rightarrow> int \<times> int" where
  "hours_minutes ops seconds =
     (let hhh = fdiv ops seconds (float_of_int ops 3600)
      in (round_float ops (ffloordiv ops hhh (float_of_int ops 1)),
          round_float ops (fmul ops (fmod ops hhh (float_of_int ops 1)) (float_of_int ops 60))))"

text \<open>
  The body of \<open>for line in lines\<close> over the first section, for a line that starts with
  \<open>;TIME:\<close>. The state is the list \<open>lines\<close> and the document.
\<close>

definition time_line_body ::
  "'f float_ops \<Rightarrow> 'f progress_settings \<Rightarrow> string \<Rightarrow> string list \<times> document
     \<Rightarrow> py_error + string list \<times> document" where
  "time_line_body ops s line st =
     (case st of (lines, d) \<Rightarrow>
        (case index_of line lines of
           Inl e \<Rightarrow> Inl e
         | Inr tindex \<Rightarrow>
             (case item (split_on CHR '':'' line) 1 of
                Inl e \<Rightarrow> Inl e
              | Inr t \<Rightarrow>
                  (case py_int t of
                     Inl e \<Rightarrow> Inl e
                   | Inr cura_time \<Rightarrow>
                       (let print_time = fmul ops (float_of_int ops cura_time) (speed_factor ops s);
                            (hr, mmm) = hours_minutes ops print_time;
                            (orig_hr, orig_mmm) = hours_minutes ops (float_of_int ops cura_time);
                            lines = (if add_m118_line s
                                     then insert_at (tindex + 1)
                                            (''M118 Adjusted Print Time '' @ str_int hr @ ''hr '' @
                                             str_int mmm @ ''min'') lines
                                     else lines);
                            lines = insert_at (tindex + 1)
                                      (''M117 ET '' @ str_int hr @ ''hr '' @ str_int mmm @ ''min'')
                                      lines;
                            lines = insert_at (tindex + 1)
                                      ('';Cura Time:  '' @ str_int orig_hr @ ''hr '' @
                                       str_int orig_mmm @ ''min'') lines;
                            d = d[0 := join ''\<newline>'' lines];
                            d = d[length d - 1 := d ! (length d - 1) @
                                   ''M117 Orig Cura Est '' @ str_int orig_hr @ ''hr '' @
                                   str_int orig_mmm @ ''min\<newline>''];
                            d = (if add_m118_line s
                                 then d[length d - 1 := d ! (length d - 1) @
                                        ''M118 Est w/FudgeFactor  '' @
                                        str_of_float ops
                                          (fmul ops (speed_factor ops s) (float_of_int ops 100)) @
                                        ''% was '' @ str_int hr @ ''hr '' @ str_int mmm @
                                        ''min\<newline>'']
                                 else d)
                        in Inr (lines, d))))))"

text \<open>
  The loop \<open>for line in lines\<close> itself. The body inserts into the list the loop runs
  over, so the loop is written with the position \<open>k\<close> of the iterator, and with fuel:
  \<open>None\<close> says that the fuel did not suffice.
\<close>

fun time_lines ::
  "nat \<Rightarrow> 'f float_ops \<Rightarrow> 'f progress_settings \<Rightarrow> nat \<Rightarrow> string list \<times> document
     \<Rightarrow> (py_error + string list \<times> document) option" where
  "time_lines 0 ops s k st = None"
| "time_lines (Suc fuel) ops s k st =
     (if k < length (fst st) then
        (if startswith (fst st ! k) '';TIME:'' then
           (case time_line_body ops s (fst st ! k) st of
              Inl e \<Rightarrow> Some (Inl e)
            | Inr st' \<Rightarrow> time_lines fuel ops s (Suc k) st')
         else time_lines fuel ops s (Suc k) st)
      else Some (Inr st))"

definition estimate_lines ::
  "nat \<Rightarrow> 'f float_ops \<Rightarrow> 'f progress_settings \<Rightarrow> document \<Rightarrow> (py_error + document) option" where
  "estimate_lines fuel ops s d =
     (case item d 0 of
        Inl e \<Rightarrow> Some (Inl e)
      | Inr first_section \<Rightarrow>
          (case time_lines fuel ops s 0 (split_on CHR ''\<newline>'' first_section, d) of
             None \<Rightarrow> None
           | Some (Inl e) \<Rightarrow> Some (Inl e)
           | Some (Inr (lines, d')) \<Rightarrow> Some (Inr d')))"

section \<open>The datetime library\<close>

text \<open>
  What \<open>message_to_user\<close> uses of the module \<open>datetime\<close>. A \<open>datetime\<close> is the record of
  its fields, a \<open>timedelta\<close> the number of its microseconds. \<open>days_from_civil\<close> is the
  number of days from 1 January 1970 to a date of the proleptic Gregorian calendar, and
  \<open>civil_from_days\<close> the date of a day number.
\<close>

definition is_leap_year :: "int \<Rightarrow> bool" where
  "is_leap_year y \<longleftrightarrow> y mod 4 = 0 \<and> (y mod 100 \<noteq> 0 \<or> y mod 400 = 0)"

definition days_in_month :: "int \<Rightarrow> int \<Rightarrow> int" where
  "days_in_month y m =
     (if m = 2 then (if is_leap_year y then 29 else 28)
      else if m = 4 \<or> m = 6 \<or> m = 9 \<or> m = 11 then 30 else 31)"

definition days_from_civil :: "int \<Rightarrow> int \<Rightarrow> int \<Rightarrow> int" where
  "days_from_civil y m d =
     (let y = (if m \<le> 2 then y - 1 else y);
          era = y div 400;
          yoe = y - era * 400;
          doy = (153 * (if 2 < m then m - 3 else m + 9) + 2) div 5 + d - 1;
          doe = yoe * 365 + yoe div 4 - yoe div 100 + doy
      in era * 146097 + doe - 719468)"

definition civil_from_days :: "int \<Rightarrow> int \<times> int \<times> int" where
  "civil_from_days z =
     (let z = z + 719468;
          era = z div 146097;
          doe = z - era * 146097;
          yoe = (doe - doe div 1460 + doe div 36524 - doe div 146096) div 365;
          doy = doe - (365 * yoe + yoe div 4 - yoe div 100);
          mp = (5 * doy + 2) div 153;
          d = doy - (153 * mp + 2) div 5 + 1;
          m = (if mp < 10 then mp + 3 else mp - 9)
      in (yoe + era * 400 + (if m \<le> 2 then 1 else 0), m, d))"

record datetime =
  dt_year :: int
  dt_month :: int
  dt_day :: int
  dt_hour :: int
  dt_minute :: int
  dt_second :: int
  dt_microsecond :: int

text \<open>
  \<open>datetime.datetime(year, month, day, hour, minute, second)\<close> raises \<open>ValueError\<close> for
  a field out of its range.
\<close>

definition datetime_new ::
  "int \<Rightarrow> int \<Rightarrow> int \<Rightarrow> int \<Rightarrow> int \<Rightarrow> int \<Rightarrow> py_error + datetime" where
  "datetime_new y mo d h mi s =
     (if 1 \<le> y \<and> y \<le> 9999 \<and> 1 \<le> mo \<and> mo \<le> 12 \<and> 1 \<le> d \<and> d \<le> days_in_month y mo \<and>
         0 \<le> h \<and> h \<le> 23 \<and> 0 \<le> mi \<and> mi \<le> 59 \<and> 0 \<le> s \<and> s \<le> 59
      then Inr \<lparr>dt_year = y, dt_month = mo, dt_day = d, dt_hour = h, dt_minute = mi,
                dt_second = s, dt_microsecond = 0\<rparr>
      else Inl ValueError)"

text \<open>
  \<open>datetime.timedelta(hours, minutes, seconds)\<close> with a float for the minutes: the
  number of microseconds is the library's, the days must stay within 999999999.
\<close>

type_synonym timedelta = int

definition timedelta_new :: "'f float_ops \<Rightarrow> int \<Rightarrow> 'f \<Rightarrow> int \<Rightarrow> py_error + timedelta" where
  "timedelta_new ops hours minutes seconds =
     (let us = timedelta_us ops hours minutes seconds
      in if 999999999 < \<bar>us div 86400000000\<bar> then Inl (Exception ''OverflowError'')
         else Inr us)"

text \<open>\<open>str\<close> of a \<open>timedelta\<close>: \<open>[D day[s], ]H:MM:SS[.UUUUUU]\<close>.\<close>

definition two_digits_int :: "int \<Rightarrow> string" where
  "two_digits_int n = two_digits (nat n)"

definition timedelta_str :: "timedelta \<Rightarrow> string" where
  "timedelta_str us =
     (let days = us div 86400000000;
          seconds = (us mod 86400000000) div 1000000;
          micro = us mod 1000000;
          s = str_int (seconds div 3600) @ '':'' @ two_digits_int ((seconds div 60) mod 60) @
              '':'' @ two_digits_int (seconds mod 60);
          s = (if days \<noteq> 0
               then str_int days @ '' day'' @ (if \<bar>days\<bar> \<noteq> 1 then ''s'' else []) @ '', '' @ s
               else s)
      in if micro \<noteq> 0
         then s @ ''.'' @ replicate (6 - length (str_int micro)) CHR ''0'' @ str_int micro
         else s)"

text \<open>
  \<open>datetime + timedelta\<close>, through the number of microseconds from the start of
  1 January 1970 to the instant; \<open>OverflowError\<close> when the year leaves the range from 1
  to 9999.
\<close>

definition instant_us :: "datetime \<Rightarrow> int" where
  "instant_us t =
     (days_from_civil (dt_year t) (dt_month t) (dt_day t) * 86400 +
      dt_hour t * 3600 + dt_minute t * 60 + dt_second t) * 1000000 + dt_microsecond t"

definition datetime_of_us :: "int \<Rightarrow> py_error + datetime" where
  "datetime_of_us us =
     (case civil_from_days (us div 86400000000) of
        (y, m, d) \<Rightarrow>
          if y < 1 \<or> 9999 < y then Inl (Exception ''OverflowError'')
          else Inr \<lparr>dt_year = y, dt_month = m, dt_day = d,
                    dt_hour = (us mod 86400000000) div 3600000000,
                    dt_minute = ((us mod 86400000000) div 60000000) mod 60,
                    dt_second = ((us mod 86400000000) div 1000000) mod 60,
                    dt_microsecond = us mod 1000000\<rparr>)"

definition datetime_add :: "datetime \<Rightarrow> timedelta \<Rightarrow> py_error + datetime" where
  "datetime_add t us = datetime_of_us (instant_us t + us)"

text \<open>What \<open>strftime\<close> gives for \<open>%w\<close> (Sunday is 0) and \<open>%Y\<close>, the others being two digits.\<close>

definition weekday_number :: "datetime \<Rightarrow> int" where
  "weekday_number t = (days_from_civil (dt_year t) (dt_month t) (dt_day t) + 4) mod 7"

definition year_text :: "datetime \<Rightarrow> string" where
  "year_text t =
     replicate (4 - length (str_int (dt_year t))) CHR ''0'' @ str_int (dt_year t)"

text \<open>\<open>xs[i]\<close> for an index that may be negative.\<close>

definition item_int :: "'a list \<Rightarrow> int \<Rightarrow> py_error + 'a" where
  "item_int xs i =
     (if 0 \<le> i \<and> i < int (length xs) then Inr (xs ! nat i)
      else if - int (length xs) \<le> i \<and> i < 0 then Inr (xs ! nat (int (length xs) + i))
      else Inl IndexError)"

section \<open>DisplayInfoOnLCD.message_to_user, the finish time\<close>

text \<open>
  The rest of \<open>message_to_user\<close>. \<open>date_reading\<close> holds what \<open>time.strftime\<close> returns
  for \<open>%Y\<close>, \<open>%m\<close> and \<open>%d\<close>, converted by \<open>int\<close>; \<open>print_job\<close> adds the clock and the
  print time that Cura displays for the job, in the format \<open>HH:MM:SS\<close>.
\<close>

record date_reading =
  clock_year :: int
  clock_month :: int
  clock_day :: int

record print_job =
  current_print_time :: string
  today :: date_reading
  clock :: clock_reading

text \<open>\<open>date_and_time\<close>: the start instant, from the date of today and the chosen time.\<close>

definition date_and_time :: "date_reading \<Rightarrow> start_choice \<Rightarrow> py_error + datetime" where
  "date_and_time day c =
     datetime_new (clock_year day) (clock_month day) (clock_day day) (hr c) (minute c) (sec c)"

text \<open>\<open>int(print_time.split(":")[i])\<close> and the three fields of the print time.\<close>

definition int_field :: "string \<Rightarrow> nat \<Rightarrow> py_error + int" where
  "int_field s i =
     (case item (split_on CHR '':'' s) i of Inl e \<Rightarrow> Inl e | Inr t \<Rightarrow> py_int t)"

definition split_print_time :: "string \<Rightarrow> py_error + int \<times> int \<times> int" where
  "split_print_time print_time =
     (case int_field print_time 0 of
        Inl e \<Rightarrow> Inl e
      | Inr pr_hr \<Rightarrow>
          (case int_field print_time 1 of
             Inl e \<Rightarrow> Inl e
           | Inr pr_min \<Rightarrow>
               (case int_field print_time 2 of
                  Inl e \<Rightarrow> Inl e
                | Inr pr_sec \<Rightarrow> Inr (pr_hr, pr_min, pr_sec))))"

text \<open>
  \<open>time_change\<close>: the seconds of the print (with the lag), multiplied by the fudge
  factor and broken down into hours, minutes (a float, \<open>int(print_seconds) / 60\<close>) and
  seconds.
\<close>

definition time_change :: "'f float_ops \<Rightarrow> 'f \<Rightarrow> int \<Rightarrow> py_error + timedelta" where
  "time_change ops factor seconds =
     (let adjusted_print_time = fmul ops (float_of_int ops seconds) factor;
          adj_hr = int_of_float ops (fdiv ops adjusted_print_time (float_of_int ops 3600));
          seconds_left = fsub ops adjusted_print_time (float_of_int ops (adj_hr * 3600));
          adj_min = fdiv ops (float_of_int ops (int_of_float ops seconds_left))
                      (float_of_int ops 60);
          adj_sec = int_of_float ops
                      (fsub ops seconds_left (fmul ops adj_min (float_of_int ops 60)))
      in timedelta_new ops adj_hr adj_min adj_sec)"

definition week_days :: "string list" where
  "week_days = [''Sunday'', ''Monday'', ''Tuesday'', ''Wednesday'', ''Thursday'', ''Friday'',
                ''Saturday'']"

definition month_names :: "string list" where
  "month_names = [''January'', ''February'', ''March'', ''April'', ''May'', ''June'', ''July'',
                  ''August'', ''September'', ''October'', ''November'', ''December'']"

definition finish_str :: "datetime \<Rightarrow> py_error + string" where
  "finish_str new_time =
     (case item_int week_days (weekday_number new_time) of
        Inl e \<Rightarrow> Inl e
      | Inr week_day \<Rightarrow>
          (case item_int month_names (dt_month new_time - 1) of
             Inl e \<Rightarrow> Inl e
           | Inr mo_str \<Rightarrow>
               Inr (week_day @ '' '' @ mo_str @ '' '' @ two_digits_int (dt_day new_time) @
                    '', '' @ year_text new_time @
                    finish_clock (nat (dt_hour new_time)) (nat (dt_minute new_time)))))"

definition message_to_user ::
  "'f float_ops \<Rightarrow> 'f \<Rightarrow> string \<Rightarrow> print_job
     \<Rightarrow> py_error + string \<times> string \<times> string \<times> string" where
  "message_to_user ops factor print_start_time job =
     (case choose_start print_start_time (clock job) of
        Inl e \<Rightarrow> Inl e
      | Inr c \<Rightarrow>
          (case date_and_time (today job) c of
             Inl e \<Rightarrow> Inl e
           | Inr start \<Rightarrow>
               (case split_print_time (current_print_time job) of
                  Inl e \<Rightarrow> Inl e
                | Inr (pr_hr, pr_min, pr_sec) \<Rightarrow>
                    (case time_change ops factor (print_seconds pr_hr pr_min pr_sec c) of
                       Inl e \<Rightarrow> Inl e
                     | Inr change \<Rightarrow>
                         (case datetime_add start change of
                            Inl e \<Rightarrow> Inl e
                          | Inr new_time \<Rightarrow>
                              (case finish_str new_time of
                                 Inl e \<Rightarrow> Inl e
                               | Inr finish \<Rightarrow>
                                   Inr (finish,
                                        ''Cura Time Estimate..........'' @ current_print_time job,
                                        ''Adjusted Time Estimate...'' @ timedelta_str change,
                                        print_start_str c)))))))"

section \<open>DisplayInfoOnLCD.execute, the display-progress branch as a whole\<close>

text \<open>
  The finish-time message is shown when \<open>enable_end_message\<close> is set: the branch then
  calls \<open>message_to_user\<close>, whose exceptions are its own. Showing the message does not
  change the document.
\<close>

record message_settings =
  enable_end_message :: bool
  print_start_time_setting :: string

definition display_progress ::
  "nat \<Rightarrow> 'f float_ops \<Rightarrow> 'f progress_settings \<Rightarrow> message_settings \<Rightarrow> print_job
     \<Rightarrow> document \<Rightarrow> (py_error + document) option" where
  "display_progress fuel ops s ms job d =
     (case estimate_lines fuel ops s d of
        None \<Rightarrow> None
      | Some (Inl e) \<Rightarrow> Some (Inl e)
      | Some (Inr d1) \<Rightarrow>
          Some
            (case relocate_end_of_gcode d1 of
               Inl e \<Rightarrow> Inl e
             | Inr d2 \<Rightarrow>
                 (case find_first_layer d2 0 (0, 0, 0) of
                    Inl e \<Rightarrow> Inl e
                  | Inr (first, layers, total_time) \<Rightarrow>
                      (case annotate_layers ops s
                              \<lparr>first_layer_index = first, number_of_layers = layers,
                               time_total = total_time\<rparr> d2 of
                         Inl e \<Rightarrow> Inl e
                       | Inr st \<Rightarrow>
                           (case (if countdown_to_pause s
                                  then countdown_to_pauses ops (speed_factor ops s) (data st)
                                  else Inr (data st)) of
                              Inl e \<Rightarrow> Inl e
                            | Inr d3 \<Rightarrow>
                                if enable_end_message ms then
                                  (case message_to_user ops (speed_factor ops s)
                                          (print_start_time_setting ms) job of
                                     Inl e \<Rightarrow> Inl e
                                   | Inr message_str \<Rightarrow> Inr d3)
                                else Inr d3)))))"

section \<open>DisplayInfoOnLCD.execute, filename and layer\<close>

text \<open>
  The settings read by the filename-and-layer branch; \<open>job_name\<close> is the name of the
  print job, used when \<open>file_name\<close> is empty. \<open>scroll\<close> is what the script reads under
  the key of that name.
\<close>

record filename_settings =
  file_name :: string
  job_name :: string
  addPrefixPrinting :: bool
  scroll :: bool
  startNum :: int
  maxlayer :: bool
  add_m118 :: bool

definition shown_name :: "filename_settings \<Rightarrow> string" where
  "shown_name s = (if file_name s \<noteq> [] then file_name s else job_name s)"

definition lcd_text :: "filename_settings \<Rightarrow> string" where
  "lcd_text s =
     (let lcd_text = ''M117 '';
          lcd_text = (if addPrefixPrinting s then lcd_text @ ''Printing '' else lcd_text)
      in if \<not> scroll s then lcd_text @ ''Layer ''
         else lcd_text @ shown_name s @ '' - Layer '')"

text \<open>\<open>replace_first s old new\<close> is \<open>s.replace(old, new, 1)\<close> for a pattern that is not empty.\<close>

fun replace_first :: "string \<Rightarrow> string \<Rightarrow> string \<Rightarrow> string" where
  "replace_first [] old new = []"
| "replace_first (c # cs) old new =
     (if old \<noteq> [] \<and> startswith (c # cs) old
      then new @ drop (length old) (c # cs)
      else c # replace_first cs old new)"

text \<open>
  The state of the loop over the lines of one section: the list \<open>lines\<close>, the text
  \<open>display_text\<close>, \<open>max_layer\<close> (\<open>None\<close> while it is still the number 0 it starts as)
  and the ordinal \<open>i\<close>.
\<close>

record name_state =
  section_lines :: "string list"
  shown :: string
  max_layer :: "string option"
  ordinal :: int

definition layer_count_line :: "filename_settings \<Rightarrow> string \<Rightarrow> name_state \<Rightarrow> py_error + name_state" where
  "layer_count_line s line st =
     (if startswith line '';LAYER_COUNT:'' then
        (case item (split_on CHR '':'' line) 1 of
           Inl e \<Rightarrow> Inl e
         | Inr m \<Rightarrow>
             if startNum s = 0 then
               (case py_int m of
                  Inl e \<Rightarrow> Inl e
                | Inr n \<Rightarrow> Inr (st\<lparr>max_layer := Some (str_int (n - 1))\<rparr>))
             else Inr (st\<lparr>max_layer := Some m\<rparr>))
      else Inr st)"

definition layer_line :: "filename_settings \<Rightarrow> string \<Rightarrow> name_state \<Rightarrow> py_error + name_state" where
  "layer_line s line st =
     (if startswith line '';LAYER:'' then
        (case (if maxlayer s then
                 (case max_layer st of
                    None \<Rightarrow> Inl TypeError
                  | Some m \<Rightarrow>
                      Inr (if \<not> scroll s
                           then shown st @ '' of '' @ m @ '' '' @ shown_name s
                           else shown st @ '' of '' @ m))
               else
                 Inr (if \<not> scroll s
                      then shown st @ '' '' @ shown_name s @ ''!''
                      else shown st @ ''!'')) of
           Inl e \<Rightarrow> Inl e
         | Inr shown_text \<Rightarrow>
             (case index_of line (section_lines st) of
                Inl e \<Rightarrow> Inl e
              | Inr line_index \<Rightarrow>
                  (let lines = insert_at (line_index + 1) shown_text (section_lines st);
                       lines = (if add_m118 s
                                then insert_at (line_index + 2)
                                       (replace_first shown_text ''M117'' ''M118'') lines
                                else lines)
                   in Inr (st\<lparr>section_lines := lines, shown := shown_text,
                               ordinal := ordinal st + 1\<rparr>))))
      else Inr st)"

text \<open>
  \<open>for line in lines\<close> with the position \<open>k\<close> of the iterator: the body inserts into
  \<open>lines\<close>. \<open>None\<close> says that the fuel did not suffice.
\<close>

fun name_lines ::
  "nat \<Rightarrow> filename_settings \<Rightarrow> nat \<Rightarrow> name_state \<Rightarrow> (py_error + name_state) option" where
  "name_lines 0 s k st = None"
| "name_lines (Suc fuel) s k st =
     (if k < length (section_lines st) then
        (case layer_count_line s (section_lines st ! k) st of
           Inl e \<Rightarrow> Some (Inl e)
         | Inr st1 \<Rightarrow>
             (case layer_line s (section_lines st ! k) st1 of
                Inl e \<Rightarrow> Some (Inl e)
              | Inr st2 \<Rightarrow> name_lines fuel s (Suc k) st2))
      else Some (Inr st))"

text \<open>
  The loop \<open>for layer in data\<close>, over the positions of the document. Its state is the
  document, \<open>max_layer\<close> and the ordinal.
\<close>

record names_state =
  doc :: document
  max_layer_now :: "string option"
  next_ordinal :: int

definition name_layer ::
  "nat \<Rightarrow> filename_settings \<Rightarrow> nat \<Rightarrow> names_state \<Rightarrow> (py_error + names_state) option" where
  "name_layer fuel s p st =
     (case item (doc st) p of
        Inl e \<Rightarrow> Some (Inl e)
      | Inr sect \<Rightarrow>
          (case index_of sect (doc st) of
             Inl e \<Rightarrow> Some (Inl e)
           | Inr layer_index \<Rightarrow>
               (case name_lines fuel s 0
                       \<lparr>section_lines = split_on CHR ''\<newline>'' sect,
                        shown = lcd_text s @ str_int (next_ordinal st),
                        max_layer = max_layer_now st, ordinal = next_ordinal st\<rparr> of
                  None \<Rightarrow> None
                | Some (Inl e) \<Rightarrow> Some (Inl e)
                | Some (Inr r) \<Rightarrow>
                    Some (Inr \<lparr>doc = (doc st)[layer_index := join ''\<newline>'' (section_lines r)],
                               max_layer_now = max_layer r,
                               next_ordinal = ordinal r\<rparr>))))"

fun name_layers ::
  "nat \<Rightarrow> filename_settings \<Rightarrow> nat list \<Rightarrow> names_state \<Rightarrow> (py_error + names_state) option" where
  "name_layers fuel s [] st = Some (Inr st)"
| "name_layers fuel s (p # rest) st =
     (case name_layer fuel s p st of
        None \<Rightarrow> None
      | Some (Inl e) \<Rightarrow> Some (Inl e)
      | Some (Inr st') \<Rightarrow> name_layers fuel s rest st')"

definition filename_layer ::
  "nat \<Rightarrow> 'f float_ops \<Rightarrow> filename_settings \<Rightarrow> message_settings \<Rightarrow> 'f \<Rightarrow> print_job
     \<Rightarrow> document \<Rightarrow> (py_error + document) option" where
  "filename_layer fuel ops s ms speed_factor_value job d =
     (case name_layers fuel s [0..<length d]
             \<lparr>doc = d, max_layer_now = None, next_ordinal = startNum s\<rparr> of
        None \<Rightarrow> None
      | Some (Inl e) \<Rightarrow> Some (Inl e)
      | Some (Inr st) \<Rightarrow>
          Some
            (if enable_end_message ms then
               (case message_to_user ops
                       (fdiv ops speed_factor_value (float_of_int ops 100))
                       (print_start_time_setting ms) job of
                  Inl e \<Rightarrow> Inl e
                | Inr message_str \<Rightarrow> Inr (doc st))
             else Inr (doc st)))"

text \<open>
  The lines of a section that start with the layer marker, and the number of sections
  before position \<open>p\<close> that have such a line.
\<close>

definition marker_lines :: "string \<Rightarrow> string list" where
  "marker_lines sect = filter (\<lambda>l. startswith l '';LAYER:'') (split_on CHR ''\<newline>'' sect)"

definition layers_before :: "document \<Rightarrow> nat \<Rightarrow> nat" where
  "layers_before d p = length (filter (\<lambda>sect. marker_lines sect \<noteq> []) (take p d))"

section \<open>Facts about strings\<close>

lemma startswith_iff: "startswith s p \<longleftrightarrow> (\<exists>r. s = p @ r)"
  by (induction s p rule: startswith.induct) auto

lemma contains_iff: "contains s sub \<longleftrightarrow> (\<exists>a b. s = a @ sub @ b)"
proof (induction s)
  case Nil
  then show ?case by auto
next
  case (Cons c cs)
  show ?case
  proof
    assume "contains (c # cs) sub"
    then consider "startswith (c # cs) sub" | "contains cs sub" by auto
    then show "\<exists>a b. c # cs = a @ sub @ b"
    proof cases
      case 1
      then obtain r where "c # cs = sub @ r" by (auto simp: startswith_iff)
      then have "c # cs = [] @ sub @ r" by simp
      then show ?thesis by blast
    next
      case 2
      then obtain a b where "cs = a @ sub @ b" using Cons.IH by blast
      then have "c # cs = (c # a) @ sub @ b" by simp
      then show ?thesis by blast
    qed
  next
    assume "\<exists>a b. c # cs = a @ sub @ b"
    then obtain a b where ab: "c # cs = a @ sub @ b" by blast
    show "contains (c # cs) sub"
    proof (cases a)
      case Nil
      then have "startswith (c # cs) sub" using ab by (auto simp: startswith_iff)
      then show ?thesis by simp
    next
      case (Cons x a')
      then have "cs = a' @ sub @ b" using ab by simp
      then have "contains cs sub" using Cons.IH by blast
      then show ?thesis by simp
    qed
  qed
qed

lemma contains_append_right: "contains (a @ sub @ b) sub"
  by (auto simp: contains_iff)

section \<open>The pipeline runner\<close>

lemma run_scripts_append:
  "run_scripts (pre @ post) st = run_scripts post (run_scripts pre st)"
  by (induction pre arbitrary: st) (auto split: outcome.splits)

lemma run_scripts_calls_length:
  "length (calls (run_scripts ss st)) = length (calls st) + length ss"
  by (induction ss arbitrary: st) (auto split: outcome.splits)

lemma execute_marked:
  assumes "gcode_dict sc = Some gd" "map_of gd plate = Some (first # rest)"
    "contains first POSTPROCESSED"
  shows "execute ss plate sc = Inr (unchanged sc [LogAlreadyProcessed])"
proof -
  have "gd \<noteq> []" using assms(2) by auto
  then show ?thesis using assms by (simp add: execute_def)
qed

lemma execute_unmarked:
  assumes "gcode_dict sc = Some gd" "map_of gd plate = Some (first # rest)"
    "\<not> contains first POSTPROCESSED" "ss \<noteq> []"
  shows "execute ss plate sc =
    (case gcode_list (run_scripts ss \<lparr>gcode_list = first # rest, calls = [], logged = []\<rparr>) of
       [] \<Rightarrow> Inl IndexError
     | f # r \<Rightarrow>
         Inr \<lparr>scene_after = sc\<lparr>gcode_dict :=
                Some (AList.update plate ((f @ POSTPROCESSED @ ''\<newline>'') # r) gd)\<rparr>,
              script_calls =
                calls (run_scripts ss \<lparr>gcode_list = first # rest, calls = [], logged = []\<rparr>),
              log_lines =
                logged (run_scripts ss \<lparr>gcode_list = first # rest, calls = [], logged = []\<rparr>)\<rparr>)"
proof -
  have "gd \<noteq> []" using assms(2) by auto
  then show ?thesis using assms by (simp add: execute_def Let_def)
qed

lemma execute_no_scripts:
  assumes "execute [] plate sc = Inr r"
  shows "scene_after r = sc"
proof (cases "gcode_dict sc")
  case None
  then show ?thesis using assms by (auto simp: execute_def unchanged_def)
next
  case (Some gd)
  have triv: "\<And>gl. map_of gd plate = Some gl \<Longrightarrow>
      sc\<lparr>gcode_dict := Some (AList.update plate gl gd)\<rparr> = sc"
    using Some by (simp add: update_triv)
  show ?thesis using assms Some triv
    by (auto simp: execute_def unchanged_def Let_def
        split: if_splits option.splits list.splits)
qed

lemma execute_scene_cases:
  assumes "execute ss plate sc = Inr r"
  shows "scene_after r = sc \<or>
    (\<exists>gd f r0. scene_after r = sc\<lparr>gcode_dict :=
        Some (AList.update plate ((f @ POSTPROCESSED @ ''\<newline>'') # r0) gd)\<rparr>)"
proof (cases "ss = []")
  case True
  then show ?thesis using assms execute_no_scripts by blast
next
  case ne: False
  show ?thesis
  proof (cases "gcode_dict sc")
    case None
    then show ?thesis using assms by (auto simp: execute_def unchanged_def)
  next
    case (Some gd)
    show ?thesis
    proof (cases "map_of gd plate")
      case None
      then show ?thesis using assms Some
        by (auto simp: execute_def unchanged_def split: if_splits)
    next
      case gl: (Some gl)
      show ?thesis
      proof (cases gl)
        case Nil
        then show ?thesis using assms Some gl
          by (auto simp: execute_def unchanged_def split: if_splits)
      next
        case (Cons first rest)
        show ?thesis
        proof (cases "contains first POSTPROCESSED")
          case True
          then show ?thesis
            using assms execute_marked[OF Some gl[unfolded Cons] True, of ss]
            by (auto simp: unchanged_def)
        next
          case False
          have "scene_after r = sc\<lparr>gcode_dict := Some (AList.update plate
                ((f @ POSTPROCESSED @ ''\<newline>'') # r0) gd)\<rparr>"
            if "gcode_list (run_scripts ss
                 \<lparr>gcode_list = first # rest, calls = [], logged = []\<rparr>) = f # r0" for f r0
            using assms that execute_unmarked[OF Some gl[unfolded Cons] False ne]
            by auto
          moreover have "gcode_list (run_scripts ss
                 \<lparr>gcode_list = first # rest, calls = [], logged = []\<rparr>) \<noteq> []"
            using assms execute_unmarked[OF Some gl[unfolded Cons] False ne]
            by auto
          ultimately show ?thesis
            by (cases "gcode_list (run_scripts ss
                 \<lparr>gcode_list = first # rest, calls = [], logged = []\<rparr>)") blast+
        qed
      qed
    qed
  qed
qed

lemma execute_idem:
  assumes "execute ss plate sc = Inr r"
  shows "\<exists>r'. execute ss plate (scene_after r) = Inr r' \<and> scene_after r' = scene_after r"
  using execute_scene_cases[OF assms]
proof
  assume "scene_after r = sc"
  then show ?thesis using assms by simp
next
  assume "\<exists>gd f r0. scene_after r = sc\<lparr>gcode_dict :=
        Some (AList.update plate ((f @ POSTPROCESSED @ ''\<newline>'') # r0) gd)\<rparr>"
  then obtain gd f r0 where sa: "scene_after r = sc\<lparr>gcode_dict :=
        Some (AList.update plate ((f @ POSTPROCESSED @ ''\<newline>'') # r0) gd)\<rparr>" by blast
  have "execute ss plate (scene_after r) = Inr (unchanged (scene_after r) [LogAlreadyProcessed])"
  proof (rule execute_marked)
    show "gcode_dict (scene_after r) =
      Some (AList.update plate ((f @ POSTPROCESSED @ ''\<newline>'') # r0) gd)"
      by (simp add: sa)
    show "map_of (AList.update plate ((f @ POSTPROCESSED @ ''\<newline>'') # r0) gd) plate
      = Some ((f @ POSTPROCESSED @ ''\<newline>'') # r0)"
      by (simp add: update_conv')
    show "contains (f @ POSTPROCESSED @ ''\<newline>'') POSTPROCESSED"
      by (rule contains_append_right)
  qed
  then show ?thesis by (simp add: unchanged_def)
qed


text \<open>
  Claim C1. When the first section of the document of the active build plate contains
  \<open>;POSTPROCESSED\<close>, \<open>execute\<close> calls no script and leaves the scene as it was (it
  logs "Already post processed"). Consequently a second run of \<open>execute\<close> on the scene
  left by a first run leaves that scene as the first run left it, for every scene and
  every script list.
\<close>

theorem execute_marker_guard_idempotent:
  "(gcode_dict sc = Some gd \<and> map_of gd plate = Some (first # rest) \<and>
      contains first '';POSTPROCESSED''
    \<longrightarrow> execute ss plate sc =
          Inr \<lparr>scene_after = sc, script_calls = [], log_lines = [LogAlreadyProcessed]\<rparr>)
   \<and> (\<forall>r. execute ss plate sc = Inr r
          \<longrightarrow> (\<exists>r'. execute ss plate (scene_after r) = Inr r'
                    \<and> scene_after r' = scene_after r))"
proof (intro conjI impI allI)
  assume "gcode_dict sc = Some gd \<and> map_of gd plate = Some (first # rest) \<and>
      contains first '';POSTPROCESSED''"
  then show "execute ss plate sc =
      Inr \<lparr>scene_after = sc, script_calls = [], log_lines = [LogAlreadyProcessed]\<rparr>"
    using execute_marked[of sc gd plate first rest ss]
    by (simp add: unchanged_def POSTPROCESSED_def)
next
  fix r
  assume "execute ss plate sc = Inr r"
  then show "\<exists>r'. execute ss plate (scene_after r) = Inr r' \<and> scene_after r' = scene_after r"
    by (rule execute_idem)
qed

theorem execute_marker_guard_idempotent_witness:
  "execute [\<lambda>d. Returned (d @ [''M84''])] 0
       \<lparr>gcode_dict = Some [(0, ['';FLAVOR:Marlin\<newline>;POSTPROCESSED\<newline>'', ''G28''])]\<rparr>
     = Inr \<lparr>scene_after =
              \<lparr>gcode_dict = Some [(0, ['';FLAVOR:Marlin\<newline>;POSTPROCESSED\<newline>'', ''G28''])]\<rparr>,
            script_calls = [], log_lines = [LogAlreadyProcessed]\<rparr>
   \<and> execute [\<lambda>d. Returned (d @ [''M84''])] 0 \<lparr>gcode_dict = Some [(0, [''G28''])]\<rparr>
     = Inr \<lparr>scene_after = \<lparr>gcode_dict = Some [(0, [''G28;POSTPROCESSED\<newline>'', ''M84''])]\<rparr>,
            script_calls = [[''G28'']], log_lines = []\<rparr>
   \<and> (\<exists>r'. execute [\<lambda>d. Returned (d @ [''M84''])] 0
               \<lparr>gcode_dict = Some [(0, [''G28;POSTPROCESSED\<newline>'', ''M84''])]\<rparr> = Inr r'
          \<and> scene_after r' = \<lparr>gcode_dict = Some [(0, [''G28;POSTPROCESSED\<newline>'', ''M84''])]\<rparr>)"
proof -
  let ?ss = "[\<lambda>d. Returned (d @ [''M84''])]"
  let ?marked = "\<lparr>gcode_dict = Some [(0::nat, ['';FLAVOR:Marlin\<newline>;POSTPROCESSED\<newline>'', ''G28''])]\<rparr>"
  let ?fresh = "\<lparr>gcode_dict = Some [(0::nat, [''G28''])]\<rparr>"
  let ?r = "\<lparr>scene_after = \<lparr>gcode_dict = Some [(0::nat, [''G28;POSTPROCESSED\<newline>'', ''M84''])]\<rparr>,
            script_calls = [[''G28'']], log_lines = []\<rparr>"
  have first_run: "execute ?ss 0 ?fresh = Inr ?r"
    by (simp add: execute_def POSTPROCESSED_def)
  have guard: "contains '';FLAVOR:Marlin\<newline>;POSTPROCESSED\<newline>'' '';POSTPROCESSED''"
    by simp
  have a: "execute ?ss 0 ?marked =
      Inr \<lparr>scene_after = ?marked, script_calls = [], log_lines = [LogAlreadyProcessed]\<rparr>"
    using execute_marker_guard_idempotent
      [of ?marked "[(0, ['';FLAVOR:Marlin\<newline>;POSTPROCESSED\<newline>'', ''G28''])]" 0
          "'';FLAVOR:Marlin\<newline>;POSTPROCESSED\<newline>''" "[''G28'']" ?ss]
      guard by simp
  have b: "\<exists>r'. execute ?ss 0 (scene_after ?r) = Inr r' \<and> scene_after r' = scene_after ?r"
    using execute_marker_guard_idempotent
      [of ?fresh "[(0, [''G28''])]" 0 "''G28''" "[]" ?ss] first_run by blast
  show ?thesis using a b first_run by simp
qed

text \<open>
  Claim C2. When a script of the list raises an exception (an instance of Python's
  \<open>Exception\<close>, which is what \<open>Raised\<close> stands for), the loop logs it and goes on:
  the scripts after it run on the document as the failing script left it, every script
  of the list is called once, and \<open>execute\<close> itself raises only at its own two
  statements outside the \<open>try\<close> (the lookup of the build plate, and \<open>gcode_list[0]\<close>
  on an empty document after the loop), never by passing on what a script raised.
\<close>

theorem script_exception_caught_and_loop_continues:
  assumes "script (gcode_list (run_scripts before st)) = Raised e d"
  shows "run_scripts (before @ script # after) st =
           run_scripts after
             ((run_scripts before st)
                \<lparr>gcode_list := d,
                 calls := calls (run_scripts before st) @ [gcode_list (run_scripts before st)],
                 logged := logged (run_scripts before st) @ [LogException e]\<rparr>)
       \<and> length (calls (run_scripts (before @ script # after) st)) =
           length (calls st) + length (before @ script # after)
       \<and> (\<forall>x. execute (before @ script # after) plate sc = Inl x \<longrightarrow>
             (x = KeyError \<and> (\<exists>gd. gcode_dict sc = Some gd \<and> map_of gd plate = None)) \<or>
             (x = IndexError \<and>
                (\<exists>gd gl. gcode_dict sc = Some gd \<and> map_of gd plate = Some gl \<and>
                   gcode_list (run_scripts (before @ script # after)
                     \<lparr>gcode_list = gl, calls = [], logged = []\<rparr>) = [])))"
proof (intro conjI allI impI)
  show "run_scripts (before @ script # after) st =
           run_scripts after
             ((run_scripts before st)
                \<lparr>gcode_list := d,
                 calls := calls (run_scripts before st) @ [gcode_list (run_scripts before st)],
                 logged := logged (run_scripts before st) @ [LogException e]\<rparr>)"
    using assms by (simp add: run_scripts_append)
next
  show "length (calls (run_scripts (before @ script # after) st)) =
           length (calls st) + length (before @ script # after)"
    by (rule run_scripts_calls_length)
next
  fix x
  assume "execute (before @ script # after) plate sc = Inl x"
  then show "(x = KeyError \<and> (\<exists>gd. gcode_dict sc = Some gd \<and> map_of gd plate = None)) \<or>
             (x = IndexError \<and>
                (\<exists>gd gl. gcode_dict sc = Some gd \<and> map_of gd plate = Some gl \<and>
                   gcode_list (run_scripts (before @ script # after)
                     \<lparr>gcode_list = gl, calls = [], logged = []\<rparr>) = []))"
    by (auto simp: execute_def unchanged_def Let_def
        split: option.splits if_splits list.splits)
qed

theorem script_exception_caught_and_loop_continues_witness:
  "run_scripts [\<lambda>d. Returned (d @ [''A'']), \<lambda>d. Raised (Exception ''boom'') (d @ [''B'']),
                \<lambda>d. Returned (d @ [''C''])]
       \<lparr>gcode_list = [''G28''], calls = [], logged = []\<rparr>
     = \<lparr>gcode_list = [''G28'', ''A'', ''B'', ''C''],
        calls = [[''G28''], [''G28'', ''A''], [''G28'', ''A'', ''B'']],
        logged = [LogException (Exception ''boom'')]\<rparr>
   \<and> execute [\<lambda>d. Returned (d @ [''A'']), \<lambda>d. Raised (Exception ''boom'') (d @ [''B'']),
                \<lambda>d. Returned (d @ [''C''])] 0 \<lparr>gcode_dict = Some [(0, [''G28''])]\<rparr>
     = Inr \<lparr>scene_after =
              \<lparr>gcode_dict = Some [(0, [''G28;POSTPROCESSED\<newline>'', ''A'', ''B'', ''C''])]\<rparr>,
            script_calls = [[''G28''], [''G28'', ''A''], [''G28'', ''A'', ''B'']],
            log_lines = [LogException (Exception ''boom'')]\<rparr>"
proof -
  let ?st = "\<lparr>gcode_list = [''G28''], calls = [], logged = []\<rparr>"
  have raised: "(\<lambda>d. Raised (Exception ''boom'') (d @ [''B'']))
       (gcode_list (run_scripts [\<lambda>d. Returned (d @ [''A''])] ?st))
     = Raised (Exception ''boom'') [''G28'', ''A'', ''B'']"
    by simp
  have "run_scripts ([\<lambda>d. Returned (d @ [''A''])] @
            (\<lambda>d. Raised (Exception ''boom'') (d @ [''B''])) # [\<lambda>d. Returned (d @ [''C''])]) ?st
     = \<lparr>gcode_list = [''G28'', ''A'', ''B'', ''C''],
        calls = [[''G28''], [''G28'', ''A''], [''G28'', ''A'', ''B'']],
        logged = [LogException (Exception ''boom'')]\<rparr>"
    using raised
      script_exception_caught_and_loop_continues
        [where script = "\<lambda>d. Raised (Exception ''boom'') (d @ [''B''])"
           and before = "[\<lambda>d. Returned (d @ [''A''])]" and st = ?st
           and e = "Exception ''boom''" and d = "[''G28'', ''A'', ''B'']"
           and after = "[\<lambda>d. Returned (d @ [''C''])]" and plate = 0
           and sc = "\<lparr>gcode_dict = None\<rparr>"]
    by simp
  then show ?thesis
    by (simp add: execute_def POSTPROCESSED_def)
qed

text \<open>
  Claim C9. With a non-empty script list and a document whose first section does not
  yet contain \<open>;POSTPROCESSED\<close>, \<open>execute\<close> appends \<open>;POSTPROCESSED\<close> and a newline to
  the first section of the document the scripts left, whether they returned or raised
  (the statement holds for every script list, also one whose scripts all raise); the
  scene it leaves is then one on which a further run calls no script and changes
  nothing. The document the scripts left must still have a first section, as every
  document of the data model has.
\<close>

theorem marker_appended_whatever_the_scripts_did:
  assumes "ss \<noteq> []"
    and "gcode_dict sc = Some gd"
    and "map_of gd plate = Some (first # rest)"
    and "\<not> contains first '';POSTPROCESSED''"
    and "gcode_list (run_scripts ss \<lparr>gcode_list = first # rest, calls = [], logged = []\<rparr>)
           = f # r"
  shows "\<exists>rep. execute ss plate sc = Inr rep
       \<and> scene_after rep =
           sc\<lparr>gcode_dict := Some (AList.update plate ((f @ '';POSTPROCESSED\<newline>'') # r) gd)\<rparr>
       \<and> execute ss plate (scene_after rep) =
           Inr \<lparr>scene_after = scene_after rep, script_calls = [],
                log_lines = [LogAlreadyProcessed]\<rparr>"
proof -
  let ?gd' = "AList.update plate ((f @ '';POSTPROCESSED\<newline>'') # r) gd"
  let ?st = "run_scripts ss \<lparr>gcode_list = first # rest, calls = [], logged = []\<rparr>"
  let ?rep = "\<lparr>scene_after = sc\<lparr>gcode_dict := Some ?gd'\<rparr>,
               script_calls = calls ?st, log_lines = logged ?st\<rparr>"
  have unmarked: "\<not> contains first POSTPROCESSED"
    using assms(4) by (simp add: POSTPROCESSED_def)
  have run: "execute ss plate sc = Inr ?rep"
    using execute_unmarked[OF assms(2) assms(3) unmarked assms(1)] assms(5)
    by (simp add: POSTPROCESSED_def)
  have "contains (f @ POSTPROCESSED @ ''\<newline>'') POSTPROCESSED"
    by (rule contains_append_right)
  then have marked: "contains (f @ '';POSTPROCESSED\<newline>'') POSTPROCESSED"
    by (simp add: POSTPROCESSED_def)
  have again: "execute ss plate (sc\<lparr>gcode_dict := Some ?gd'\<rparr>) =
      Inr (unchanged (sc\<lparr>gcode_dict := Some ?gd'\<rparr>) [LogAlreadyProcessed])"
    by (rule execute_marked[where gd = ?gd' and rest = r, OF _ _ marked])
       (simp_all add: update_conv')
  show ?thesis
    using run again by (simp add: unchanged_def)
qed

theorem marker_appended_whatever_the_scripts_did_witness:
  "(\<exists>rep. execute [\<lambda>d. Raised (Exception ''boom'') d, \<lambda>d. Raised ValueError d] 0
               \<lparr>gcode_dict = Some [(0, [''G28'', ''M84''])]\<rparr> = Inr rep
       \<and> scene_after rep = \<lparr>gcode_dict = Some [(0, [''G28;POSTPROCESSED\<newline>'', ''M84''])]\<rparr>
       \<and> execute [\<lambda>d. Raised (Exception ''boom'') d, \<lambda>d. Raised ValueError d] 0
             (scene_after rep) =
           Inr \<lparr>scene_after = scene_after rep, script_calls = [],
                log_lines = [LogAlreadyProcessed]\<rparr>)"
proof -
  let ?ss = "[\<lambda>d. Raised (Exception ''boom'') d, \<lambda>d. Raised ValueError d]"
  let ?sc = "\<lparr>gcode_dict = Some [(0::nat, [''G28'', ''M84''])]\<rparr>"
  have h1: "?ss \<noteq> []" by simp
  have h2: "gcode_dict ?sc = Some [(0, [''G28'', ''M84''])]" by simp
  have h3: "map_of [(0::nat, [''G28'', ''M84''])] 0 = Some (''G28'' # [''M84''])" by simp
  have h4: "\<not> contains ''G28'' '';POSTPROCESSED''" by simp
  have h5: "gcode_list (run_scripts ?ss \<lparr>gcode_list = ''G28'' # [''M84''], calls = [], logged = []\<rparr>)
      = ''G28'' # [''M84'']" by simp
  show ?thesis
    using marker_appended_whatever_the_scripts_did[OF h1 h2 h3 h4 h5] by simp
qed

section \<open>The finish-time message\<close>
























section \<open>The remaining-time suffix\<close>

lemma length_digits_small: "n < 10 \<Longrightarrow> length (digits n) = 1"
  by simp

lemma length_digits_two: "10 \<le> n \<Longrightarrow> n < 100 \<Longrightarrow> length (digits n) = 2"
proof -
  assume a: "10 \<le> n" "n < 100"
  then have "n div 10 < 10" by simp
  then have "length (digits (n div 10)) = 1" by (rule length_digits_small)
  moreover have "digits n = digits (n div 10) @ [digit_char (n mod 10)]"
    using a by (subst digits.simps) simp
  ultimately show ?thesis by simp
qed

lemma length_str_minutes:
  assumes "0 \<le> m" "m < 60"
  shows "length (str_int m) = (if m < 10 then 1 else 2)"
proof -
  have s: "str_int m = digits (nat m)" using assms by (simp add: str_int_def)
  show ?thesis
  proof (cases "m < 10")
    case True
    then have "length (digits (nat m)) = 1" using assms by (intro length_digits_small) simp
    then show ?thesis using True s by simp
  next
    case False
    then have "length (digits (nat m)) = 2" using assms by (intro length_digits_two) simp_all
    then show ?thesis using False s by simp
  qed
qed

lemma pad_minutes:
  assumes "0 \<le> m" "m < 60"
  shows "(if m < 10 then ''0'' @ str_int m else str_int m) = zero_padded 2 (str_int m)"
  using length_str_minutes[OF assms] by (simp add: zero_padded_def)

lemma length_padded_minutes:
  assumes "0 \<le> m" "m < 60"
  shows "length (zero_padded 2 (str_int m)) = 2"
  using length_str_minutes[OF assms] by (simp add: zero_padded_def)

lemma time_remaining_display_eq:
  "time_remaining_display ops factor tt te =
     '' | ET '' @
     remaining_text
       (int_of_float ops (fmul ops (float_of_int ops ((tt - te) div 60)) factor) div 60)
       (int_of_float ops (fmul ops (float_of_int ops ((tt - te) div 60)) factor) mod 60)"
proof -
  define m1 where "m1 = int_of_float ops (fmul ops (float_of_int ops ((tt - te) div 60)) factor)"
  have r: "0 \<le> m1 mod 60" "m1 mod 60 < 60" by simp_all
  show ?thesis
    unfolding time_remaining_display_def remaining_text_def Let_def m1_def[symmetric]
    using pad_minutes[OF r] by (auto split: if_splits)
qed

text \<open>
  Claim C3. With remaining-time display enabled, the text built for a layer ends with
  \<open> | ET \<close> followed by the remaining time computed as the claim says: the minutes
  \<open>(time_total - time_elapsed) // 60\<close>, multiplied by the fudge factor and cut to an
  integer, split by \<open>divmod\<close> into hours and minutes; printed as hours, \<open>h\<close>, the
  minutes zero-padded to two characters and \<open>m\<close> when the hours are positive, and as
  the bare minutes and \<open>m\<close> otherwise. A turn of the loop on a section that contains
  the layer marker writes that text after \<open>M117 \<close> behind the first line starting with
  the marker.
\<close>

theorem remaining_time_suffix:
  "(display_remaining_time s \<longrightarrow>
      display_text ops s env layer_number elapsed =
        base_display_text s @ str_int layer_number @
        (if display_total_layers s then ''/'' @ str_int (number_of_layers env) else []) @
        '' | ET '' @
        remaining_text
          (int_of_float ops (fmul ops (float_of_int ops ((time_total env - elapsed) div 60))
             (speed_factor ops s)) div 60)
          (int_of_float ops (fmul ops (float_of_int ops ((time_total env - elapsed) div 60))
             (speed_factor ops s)) mod 60))
   \<and> length (zero_padded 2 (str_int (minutes mod 60))) = 2
   \<and> (item (data st) (first_layer_index env + layer_counter) = Inr section \<and>
       contains section '';LAYER:'' \<and>
       layer_step ops s env st layer_counter = Inr st' \<longrightarrow>
         data st' = (data st)[first_layer_index env + layer_counter :=
           join ''\<newline>''
             (insert_display
                (display_commands s
                   (display_text ops s env (current_layer st + 1) (time_elapsed st)))
                (split_on CHR ''\<newline>'' section))])"
proof (intro conjI impI)
  assume "display_remaining_time s"
  then show "display_text ops s env layer_number elapsed =
        base_display_text s @ str_int layer_number @
        (if display_total_layers s then ''/'' @ str_int (number_of_layers env) else []) @
        '' | ET '' @
        remaining_text
          (int_of_float ops (fmul ops (float_of_int ops ((time_total env - elapsed) div 60))
             (speed_factor ops s)) div 60)
          (int_of_float ops (fmul ops (float_of_int ops ((time_total env - elapsed) div 60))
             (speed_factor ops s)) mod 60)"
    by (simp add: display_text_def time_remaining_display_eq)
next
  show "length (zero_padded 2 (str_int (minutes mod 60))) = 2"
    by (rule length_padded_minutes) simp_all
next
  assume a: "item (data st) (first_layer_index env + layer_counter) = Inr section \<and>
       contains section '';LAYER:'' \<and>
       layer_step ops s env st layer_counter = Inr st'"
  then show "data st' = (data st)[first_layer_index env + layer_counter :=
           join ''\<newline>''
             (insert_display
                (display_commands s
                   (display_text ops s env (current_layer st + 1) (time_elapsed st)))
                (split_on CHR ''\<newline>'' section))]"
    by (auto simp: layer_step_def Let_def split: sum.splits if_splits)
qed

lemma exact_ops_simps:
  "float_of_int exact_ops i = of_int i"
  "float_of_str exact_ops t = decimal_value t"
  "str_of_float exact_ops x = str_int \<lfloor>x\<rfloor> @ ''.0''"
  "int_of_float exact_ops x = (if 0 \<le> x then \<lfloor>x\<rfloor> else \<lceil>x\<rceil>)"
  "round_float exact_ops x = round_half_even x"
  "fmul exact_ops x y = x * y"
  "fdiv exact_ops x y = x / y"
  "fsub exact_ops x y = x - y"
  by (simp_all add: exact_ops_def)

theorem remaining_time_suffix_witness:
  "display_text exact_ops
      \<lparr>display_total_layers = True, display_remaining_time = True, add_m118_line = False,
       countdown_to_pause = False, speed_factor_setting = 100\<rparr>
      \<lparr>first_layer_index = 2, number_of_layers = 3, time_total = 3600\<rparr> 1 0
     = ''1/3 | ET 1h00m''
   \<and> display_text exact_ops
      \<lparr>display_total_layers = True, display_remaining_time = True, add_m118_line = False,
       countdown_to_pause = False, speed_factor_setting = 100\<rparr>
      \<lparr>first_layer_index = 2, number_of_layers = 3, time_total = 3600\<rparr> 2 1200
     = ''2/3 | ET 40m''
   \<and> layer_step exact_ops
      \<lparr>display_total_layers = True, display_remaining_time = True, add_m118_line = False,
       countdown_to_pause = False, speed_factor_setting = 100\<rparr>
      \<lparr>first_layer_index = 2, number_of_layers = 3, time_total = 3600\<rparr>
      \<lparr>data = ['';TIME:3600'', '';LAYER_COUNT:3'',
               '';LAYER:0\<newline>G1 X1\<newline>;TIME_ELAPSED:1200'', ''M84''],
       current_layer = 0, time_elapsed = 0\<rparr> 0
     = Inr \<lparr>data = ['';TIME:3600'', '';LAYER_COUNT:3'',
               '';LAYER:0\<newline>M117 1/3 | ET 1h00m\<newline>G1 X1\<newline>;TIME_ELAPSED:1200'', ''M84''],
            current_layer = 1, time_elapsed = 1200\<rparr>"
proof -
  let ?s = "\<lparr>display_total_layers = True, display_remaining_time = True, add_m118_line = False,
       countdown_to_pause = False, speed_factor_setting = (100::rat)\<rparr>"
  let ?env = "\<lparr>first_layer_index = 2, number_of_layers = 3, time_total = 3600\<rparr>"
  let ?st = "\<lparr>data = ['';TIME:3600'', '';LAYER_COUNT:3'',
               '';LAYER:0\<newline>G1 X1\<newline>;TIME_ELAPSED:1200'', ''M84''],
       current_layer = 0, time_elapsed = 0\<rparr>"
  let ?sec = "'';LAYER:0\<newline>G1 X1\<newline>;TIME_ELAPSED:1200''"
  have sf: "speed_factor exact_ops ?s = 1"
    by (simp add: speed_factor_def exact_ops_simps)
  have a: "display_text exact_ops ?s ?env 1 0 = ''1/3 | ET 1h00m''"
    using remaining_time_suffix[of ?s exact_ops ?env 1 0 0 ?st 0 ?sec ?st]
    by (simp add: sf base_display_text_def remaining_text_def zero_padded_def exact_ops_simps
        str_int_def digit_char_def)
  have b: "display_text exact_ops ?s ?env 2 1200 = ''2/3 | ET 40m''"
    using remaining_time_suffix[of ?s exact_ops ?env 2 1200 0 ?st 0 ?sec ?st]
    by (simp add: sf base_display_text_def remaining_text_def zero_padded_def exact_ops_simps
        str_int_def digit_char_def)
  have dv: "decimal_value ''1200'' = Some 1200"
    by (simp add: decimal_value_def py_int_def strip_def is_space_def unsigned_value_def
        digit_val_def)
  have fte: "find_time_elapsed exact_ops (split_on CHR ''\<newline>'' ?sec) 0 = Inr 1200"
    by (simp add: find_time_elapsed_def item_def exact_ops_simps dv)
  have c: "layer_step exact_ops ?s ?env ?st 0
     = Inr \<lparr>data = ['';TIME:3600'', '';LAYER_COUNT:3'',
               '';LAYER:0\<newline>M117 1/3 | ET 1h00m\<newline>G1 X1\<newline>;TIME_ELAPSED:1200'', ''M84''],
            current_layer = 1, time_elapsed = 1200\<rparr>"
    using fte by (simp add: layer_step_def item_def Let_def a display_commands_def)
  show ?thesis using a b c by simp
qed

section \<open>Countdown to pause\<close>

lemma tag_entries_result:
  assumes "tag_entries ops t qs tlist = Inr tlist'" "distinct qs"
  shows "length tlist' = length tlist
       \<and> (\<forall>j. j \<notin> set qs \<longrightarrow> tlist' ! j = tlist ! j)
       \<and> (\<forall>q \<in> set qs. q < length tlist \<and>
             (\<exists>x. float_of_str ops (tlist ! q) = Some x \<and>
                  tlist' ! q = str_of_float ops (fsub ops t x) @ ''P''))"
  using assms
proof (induction qs arbitrary: tlist)
  case Nil
  then show ?case by simp
next
  case (Cons q rest)
  from Cons.prems(1) obtain x where
    q: "q < length tlist" and x: "float_of_str ops (tlist ! q) = Some x"
    and r: "tag_entries ops t rest (tlist[q := str_of_float ops (fsub ops t x) @ ''P'']) = Inr tlist'"
    by (auto simp: item_def split: if_splits option.splits)
  from Cons.prems(2) have d: "distinct rest" and nq: "q \<notin> set rest" by simp_all
  note ih = Cons.IH[OF r d]
  have len: "length tlist' = length tlist" using ih by simp
  have out: "\<forall>j. j \<notin> set (q # rest) \<longrightarrow> tlist' ! j = tlist ! j"
    using ih by auto
  have atq: "tlist' ! q = str_of_float ops (fsub ops t x) @ ''P''"
    using ih nq q by auto
  have inr: "\<forall>p \<in> set rest. p < length tlist \<and>
             (\<exists>y. float_of_str ops (tlist ! p) = Some y \<and>
                  tlist' ! p = str_of_float ops (fsub ops t y) @ ''P'')"
  proof
    fix p assume p: "p \<in> set rest"
    then have "p \<noteq> q" using nq by auto
    then show "p < length tlist \<and>
             (\<exists>y. float_of_str ops (tlist ! p) = Some y \<and>
                  tlist' ! p = str_of_float ops (fsub ops t y) @ ''P'')"
      using ih p by auto
  qed
  show ?case using len out atq inr q x by auto
qed

lemma record_lines_no_marker:
  "\<forall>l \<in> set ls. \<not> startswith l '';TIME_ELAPSED:'' \<Longrightarrow>
     record_lines ops factor sect num ls st = Inr st"
  by (induction ls) auto

lemma record_lines_skip:
  "\<forall>l \<in> set pre. \<not> startswith l '';TIME_ELAPSED:'' \<Longrightarrow>
     record_lines ops factor sect num (pre @ ls) st = record_lines ops factor sect num ls st"
  by (induction pre) auto

lemma pause_range_set: "set (pause_range num p) = {q. p < q \<and> q < num}"
  by (auto simp: pause_range_def)

lemma pause_range_distinct: "distinct (pause_range num p)"
  by (simp add: pause_range_def)

lemma record_lines_pause:
  assumes sp: "ls = pre @ line # post"
    and no: "\<forall>l \<in> set (pre @ post). \<not> startswith l '';TIME_ELAPSED:''"
    and te: "startswith line '';TIME_ELAPSED:''"
    and pm: "contains sect ''PauseAtHeight.py''"
    and al: "length (time_list st) = num"
    and run: "record_lines ops factor sect num ls st = Inr st'"
  shows "length (time_list st') = num + 1
       \<and> pause_index st' = num - 1
       \<and> (\<forall>q. pause_index st < q \<and> q < num \<longrightarrow>
             (\<exists>x. float_of_str ops (time_list st ! q) = Some x \<and>
                  time_list st' ! q = str_of_float ops (fsub ops (this_time st') x) @ ''P''))
       \<and> time_list st' ! num = str_of_float ops (this_time st')
       \<and> (\<forall>q. q \<le> pause_index st \<and> q < num \<longrightarrow> time_list st' ! q = time_list st ! q)"
proof -
  have "record_lines ops factor sect num (line # post) st = Inr st'"
    using run sp no record_lines_skip[of pre ops factor sect num "line # post" st] by simp
  then obtain t x tlist' where
    x: "float_of_str ops t = Some x"
    and tg: "tag_entries ops (fmul ops x factor) (pause_range num (pause_index st))
               (time_list st @ [str_of_float ops (fmul ops x factor)]) = Inr tlist'"
    and rest: "record_lines ops factor sect num post
                 \<lparr>time_list = tlist', this_time = fmul ops x factor, pause_index = num - 1\<rparr>
               = Inr st'"
    using te pm by (auto simp: Let_def split: sum.splits option.splits)
  have st': "st' = \<lparr>time_list = tlist', this_time = fmul ops x factor, pause_index = num - 1\<rparr>"
    using rest no record_lines_no_marker[of post ops factor sect num] by simp
  note tr = tag_entries_result[OF tg pause_range_distinct]
  let ?tl = "time_list st @ [str_of_float ops (fmul ops x factor)]"
  have len: "length tlist' = num + 1" using tr al by simp
  have own: "tlist' ! num = str_of_float ops (fmul ops x factor)"
    using tr al by (simp add: pause_range_set nth_append)
  have low: "\<forall>q. q \<le> pause_index st \<and> q < num \<longrightarrow> tlist' ! q = time_list st ! q"
    using tr al by (auto simp: pause_range_set nth_append)
  have tagged: "\<forall>q. pause_index st < q \<and> q < num \<longrightarrow>
             (\<exists>y. float_of_str ops (time_list st ! q) = Some y \<and>
                  tlist' ! q = str_of_float ops (fsub ops (fmul ops x factor) y) @ ''P'')"
  proof (intro allI impI)
    fix q assume q: "pause_index st < q \<and> q < num"
    then have "q \<in> set (pause_range num (pause_index st))" by (simp add: pause_range_set)
    then obtain y where "float_of_str ops (?tl ! q) = Some y"
      "tlist' ! q = str_of_float ops (fsub ops (fmul ops x factor) y) @ ''P''"
      using tr by blast
    moreover have "?tl ! q = time_list st ! q" using q al by (simp add: nth_append)
    ultimately show "\<exists>y. float_of_str ops (time_list st ! q) = Some y \<and>
                  tlist' ! q = str_of_float ops (fsub ops (fmul ops x factor) y) @ ''P''"
      by auto
  qed
  show ?thesis using st' len own low tagged by simp
qed


lemma record_lines_no_pause:
  assumes "\<not> contains sect ''PauseAtHeight.py''"
    and "record_lines ops factor sect num ls st = Inr st'"
  shows "pause_index st' = pause_index st
       \<and> (\<exists>added. time_list st' = time_list st @ added
              \<and> (\<forall>e \<in> set added. \<exists>y. e = str_of_float ops y))"
  using assms(2)
proof (induction ls arbitrary: st)
  case Nil
  then show ?case by simp
next
  case (Cons line rest)
  show ?case
  proof (cases "startswith line '';TIME_ELAPSED:''")
    case False
    then show ?thesis using Cons by simp
  next
    case True
    then obtain x where
      r: "record_lines ops factor sect num rest
            \<lparr>time_list = time_list st @ [str_of_float ops (fmul ops x factor)],
             this_time = fmul ops x factor, pause_index = pause_index st\<rparr> = Inr st'"
      using Cons.prems assms(1) by (auto simp: Let_def split: sum.splits option.splits)
    from Cons.IH[OF r] obtain added where
      p: "pause_index st' = pause_index st"
      and a: "time_list st' = (time_list st @ [str_of_float ops (fmul ops x factor)]) @ added"
      and e: "\<forall>e \<in> set added. \<exists>y. e = str_of_float ops y"
      by auto
    have "time_list st' = time_list st @ (str_of_float ops (fmul ops x factor) # added)"
      using a by simp
    moreover have "\<forall>e \<in> set (str_of_float ops (fmul ops x factor) # added).
        \<exists>y. e = str_of_float ops y"
      using e by auto
    ultimately show ?thesis using p by blast
  qed
qed

lemma record_times_no_pause:
  assumes "\<forall>num \<in> set nums. num < length d \<longrightarrow> \<not> contains (d ! num) ''PauseAtHeight.py''"
    and "record_times ops factor d nums st = Inr st'"
  shows "pause_index st' = pause_index st
       \<and> (\<exists>added. time_list st' = time_list st @ added
              \<and> (\<forall>e \<in> set added. \<exists>y. e = str_of_float ops y))"
  using assms
proof (induction nums arbitrary: st)
  case Nil
  then show ?case by simp
next
  case (Cons num rest)
  from Cons.prems(2) obtain st1 where
    n: "num < length d"
    and l: "record_lines ops factor (d ! num) num (split_on CHR ''\<newline>'' (d ! num)) st = Inr st1"
    and r: "record_times ops factor d rest st1 = Inr st'"
    by (auto simp: item_def split: if_splits sum.splits)
  have np: "\<not> contains (d ! num) ''PauseAtHeight.py''" using Cons.prems(1) n by simp
  from record_lines_no_pause[OF np l] obtain a1 where
    p1: "pause_index st1 = pause_index st" and a1: "time_list st1 = time_list st @ a1"
    and e1: "\<forall>e \<in> set a1. \<exists>y. e = str_of_float ops y" by auto
  have "\<forall>num \<in> set rest. num < length d \<longrightarrow> \<not> contains (d ! num) ''PauseAtHeight.py''"
    using Cons.prems(1) by simp
  from Cons.IH[OF this r] obtain a2 where
    p2: "pause_index st' = pause_index st1" and a2: "time_list st' = time_list st1 @ a2"
    and e2: "\<forall>e \<in> set a2. \<exists>y. e = str_of_float ops y" by auto
  have "time_list st' = time_list st @ (a1 @ a2)" using a1 a2 by simp
  moreover have "\<forall>e \<in> set (a1 @ a2). \<exists>y. e = str_of_float ops y" using e1 e2 by auto
  ultimately show ?case using p1 p2 by metis
qed

lemma rewrite_lines_untagged:
  assumes "num < length tlist" "\<not> contains (tlist ! num) ''P''"
  shows "rewrite_lines ops tlist num ls st = Inr st"
  using assms by (induction ls) (auto simp: item_def)

lemma rewrite_layers_frame:
  assumes "rewrite_layers ops tlist nums (d, g) = Inr (d', g')"
  shows "length d' = length d
       \<and> (\<forall>j. j \<notin> set nums \<or> (j < length tlist \<and> \<not> contains (tlist ! j) ''P'')
               \<longrightarrow> d' ! j = d ! j)"
  using assms
proof (induction nums arbitrary: d g)
  case Nil
  then show ?case by simp
next
  case (Cons num rest)
  from Cons.prems obtain st1 where
    n: "num < length d"
    and l: "rewrite_lines ops tlist num (split_on CHR ''\<newline>'' (d ! num))
              \<lparr>layer = d ! num, time_to_go = g\<rparr> = Inr st1"
    and r: "rewrite_layers ops tlist rest (d[num := layer st1], time_to_go st1) = Inr (d', g')"
    by (auto simp: item_def split: if_splits sum.splits)
  note ih = Cons.IH[OF r]
  have len: "length d' = length d" using ih by simp
  have "d' ! j = d ! j"
    if j: "j \<notin> set (num # rest) \<or> (j < length tlist \<and> \<not> contains (tlist ! j) ''P'')" for j
  proof -
    have a: "d' ! j = (d[num := layer st1]) ! j" using ih j by auto
    show ?thesis
    proof (cases "j = num")
      case False
      then show ?thesis using a by simp
    next
      case True
      then have "num < length tlist \<and> \<not> contains (tlist ! num) ''P''" using j by auto
      then have "st1 = \<lparr>layer = d ! num, time_to_go = g\<rparr>"
        using l rewrite_lines_untagged[of num tlist ops] by simp
      then show ?thesis using a True n by simp
    qed
  qed
  then show ?case using len by blast
qed


lemma m117_not_m118: "startswith l ''M117'' \<Longrightarrow> \<not> startswith l ''M118''"
  by (auto simp: startswith_iff)

lemma single_split:
  assumes "length (filter P xs) = 1"
  shows "\<exists>pre x post. xs = pre @ x # post \<and> P x \<and> (\<forall>y \<in> set (pre @ post). \<not> P y)
           \<and> filter P xs = [x]"
proof -
  from assms obtain x where f: "filter P xs = [x]"
    by (cases "filter P xs") auto
  then obtain us vs where "xs = us @ x # vs" "\<forall>u \<in> set us. \<not> P u" "P x" "[] = filter P vs"
    unfolding filter_eq_Cons_iff by blast
  moreover from this have "\<forall>v \<in> set vs. \<not> P v" by (metis filter_empty_conv)
  ultimately show ?thesis using f by auto
qed

lemma record_lines_one:
  assumes one: "length (elapsed_lines sect) = 1"
    and al: "length (time_list st) = num"
    and run: "record_lines ops factor sect num (split_on CHR ''\<newline>'' sect) st = Inr st'"
  shows "\<exists>t. layer_time ops factor sect = Some t \<and> this_time st' = t
       \<and> length (time_list st') = num + 1
       \<and> time_list st' ! num = str_of_float ops t
       \<and> (\<forall>q. q \<le> pause_index st \<and> q < num \<longrightarrow> time_list st' ! q = time_list st ! q)
       \<and> (if contains sect ''PauseAtHeight.py''
          then pause_index st' = num - 1
             \<and> (\<forall>q. pause_index st < q \<and> q < num \<longrightarrow>
                   (\<exists>x. float_of_str ops (time_list st ! q) = Some x \<and>
                        time_list st' ! q = str_of_float ops (fsub ops t x) @ ''P''))
          else pause_index st' = pause_index st
             \<and> (\<forall>q. q < num \<longrightarrow> time_list st' ! q = time_list st ! q))"
proof -
  from single_split[OF one[unfolded elapsed_lines_def]] obtain pre line post where
    sp: "split_on CHR ''\<newline>'' sect = pre @ line # post"
    and te: "startswith line '';TIME_ELAPSED:''"
    and no: "\<forall>l \<in> set (pre @ post). \<not> startswith l '';TIME_ELAPSED:''"
    and el: "elapsed_lines sect = [line]"
    unfolding elapsed_lines_def by blast
  have no_pre: "\<forall>l \<in> set pre. \<not> startswith l '';TIME_ELAPSED:''" using no by simp
  have no_post: "\<forall>l \<in> set post. \<not> startswith l '';TIME_ELAPSED:''" using no by simp
  have r1: "record_lines ops factor sect num (line # post) st = Inr st'"
    using run sp record_lines_skip[OF no_pre, of ops factor sect num "line # post" st] by simp
  then obtain t x where
    t: "item (split_on CHR '':'' line) 1 = Inr t" and x: "float_of_str ops t = Some x"
    using te by (auto split: sum.splits option.splits)
  have lt: "layer_time ops factor sect = Some (fmul ops x factor)"
    using t x by (simp add: layer_time_def el)
  show ?thesis
  proof (cases "contains sect ''PauseAtHeight.py''")
    case True
    from r1 obtain tlist' where
      rest: "record_lines ops factor sect num post
                 \<lparr>time_list = tlist', this_time = fmul ops x factor, pause_index = num - 1\<rparr>
               = Inr st'"
      using te True t x by (auto simp: Let_def split: sum.splits)
    have st': "st' = \<lparr>time_list = tlist', this_time = fmul ops x factor, pause_index = num - 1\<rparr>"
      using rest record_lines_no_marker[OF no_post, of ops factor sect num] by simp
    note a = record_lines_pause[OF sp no te True al run]
    have tt: "this_time st' = fmul ops x factor" using st' by simp
    show ?thesis using a lt tt True by simp
  next
    case False
    from r1 have
      rest: "record_lines ops factor sect num post
                 \<lparr>time_list = time_list st @ [str_of_float ops (fmul ops x factor)],
                  this_time = fmul ops x factor, pause_index = pause_index st\<rparr>
               = Inr st'"
      using te False t x by (simp add: Let_def)
    have st': "st' = \<lparr>time_list = time_list st @ [str_of_float ops (fmul ops x factor)],
                  this_time = fmul ops x factor, pause_index = pause_index st\<rparr>"
      using rest record_lines_no_marker[OF no_post, of ops factor sect num] by simp
    show ?thesis using st' lt False al by (simp add: nth_append)
  qed
qed

lemma record_times_append:
  "record_times ops factor d (a @ b) st =
     (case record_times ops factor d a st of
        Inl e \<Rightarrow> Inl e
      | Inr st1 \<Rightarrow> record_times ops factor d b st1)"
  by (induction a arbitrary: st) (auto split: sum.splits)

lemma next_pause_mono: "next_pause d n q k \<Longrightarrow> next_pause d (Suc n) q k"
  by (simp add: next_pause_def)

lemma times_recorded_step:
  assumes inv: "times_recorded ops factor d n st"
    and n2: "2 \<le> n"
    and one: "length (elapsed_lines (d ! n)) = 1"
    and run: "record_lines ops factor (d ! n) n (split_on CHR ''\<newline>'' (d ! n)) st = Inr st'"
  shows "times_recorded ops factor d (Suc n) st'"
proof -
  let ?pm = "\<lambda>i. contains (d ! i) ''PauseAtHeight.py''"
  from inv have i1: "length (time_list st) = n"
    and i2: "1 \<le> pause_index st" and i3: "Suc (pause_index st) \<le> n"
    and i4: "\<forall>q. pause_index st < q \<and> q < n \<longrightarrow>
        (\<exists>t. layer_time ops factor (d ! q) = Some t \<and> time_list st ! q = str_of_float ops t)"
    and i5: "\<forall>q. 2 \<le> q \<and> q \<le> pause_index st \<longrightarrow>
        (\<exists>k. next_pause d n q k \<and>
             time_to_next_pause ops factor (d ! q) (d ! k) = Some (time_list st ! q))"
    and i6: "\<forall>i. Suc (pause_index st) < i \<and> i < n \<longrightarrow> \<not> ?pm i"
    and i7: "pause_index st = 1 \<or> (Suc (pause_index st) < n \<and> ?pm (Suc (pause_index st)))"
    unfolding times_recorded_def by blast+
  from record_lines_one[OF one i1 run] obtain t where
    lt: "layer_time ops factor (d ! n) = Some t"
    and len: "length (time_list st') = n + 1"
    and own: "time_list st' ! n = str_of_float ops t"
    and low: "\<forall>q. q \<le> pause_index st \<and> q < n \<longrightarrow> time_list st' ! q = time_list st ! q"
    and br: "if ?pm n
          then pause_index st' = n - 1
             \<and> (\<forall>q. pause_index st < q \<and> q < n \<longrightarrow>
                   (\<exists>x. float_of_str ops (time_list st ! q) = Some x \<and>
                        time_list st' ! q = str_of_float ops (fsub ops t x) @ ''P''))
          else pause_index st' = pause_index st
             \<and> (\<forall>q. q < n \<longrightarrow> time_list st' ! q = time_list st ! q)"
    by blast
  show ?thesis
  proof (cases "?pm n")
    case True
    from br True have pi: "pause_index st' = n - 1"
      and tg: "\<forall>q. pause_index st < q \<and> q < n \<longrightarrow>
                   (\<exists>x. float_of_str ops (time_list st ! q) = Some x \<and>
                        time_list st' ! q = str_of_float ops (fsub ops t x) @ ''P'')"
      by simp_all
    have c1: "length (time_list st') = Suc n" using len by simp
    have c2: "1 \<le> pause_index st'" using pi n2 by simp
    have c3: "Suc (pause_index st') \<le> Suc n" using pi by simp
    have c4: "\<forall>q. pause_index st' < q \<and> q < Suc n \<longrightarrow>
        (\<exists>t. layer_time ops factor (d ! q) = Some t \<and> time_list st' ! q = str_of_float ops t)"
    proof (intro allI impI)
      fix q assume "pause_index st' < q \<and> q < Suc n"
      then have "q = n" using pi by arith
      then show "\<exists>t. layer_time ops factor (d ! q) = Some t \<and>
                     time_list st' ! q = str_of_float ops t"
        using lt own by simp
    qed
    have c5: "\<forall>q. 2 \<le> q \<and> q \<le> pause_index st' \<longrightarrow>
        (\<exists>k. next_pause d (Suc n) q k \<and>
             time_to_next_pause ops factor (d ! q) (d ! k) = Some (time_list st' ! q))"
    proof (intro allI impI)
      fix q assume q: "2 \<le> q \<and> q \<le> pause_index st'"
      then have qn: "q < n" using pi n2 by arith
      show "\<exists>k. next_pause d (Suc n) q k \<and>
             time_to_next_pause ops factor (d ! q) (d ! k) = Some (time_list st' ! q)"
      proof (cases "q \<le> pause_index st")
        case True
        with q i5 obtain k where k: "next_pause d n q k"
          "time_to_next_pause ops factor (d ! q) (d ! k) = Some (time_list st ! q)" by blast
        have "time_list st' ! q = time_list st ! q" using low True qn by simp
        then show ?thesis using k next_pause_mono[of d n q k] by auto
      next
        case False
        then have pq: "pause_index st < q" by simp
        from i4 pq qn obtain tq where
          tq: "layer_time ops factor (d ! q) = Some tq" "time_list st ! q = str_of_float ops tq"
          by blast
        from tg pq qn obtain x where
          x: "float_of_str ops (time_list st ! q) = Some x"
          "time_list st' ! q = str_of_float ops (fsub ops t x) @ ''P''" by blast
        have np: "next_pause d (Suc n) q n"
          unfolding next_pause_def
        proof (intro conjI ballI)
          show "q < n" by (rule qn)
          show "n < Suc n" by simp
          show "?pm n" by (rule \<open>?pm n\<close>)
          fix i assume "i \<in> {q<..<n}"
          then have "Suc (pause_index st) < i \<and> i < n" using pq by auto
          then show "\<not> ?pm i" using i6 by blast
        qed
        have "time_to_next_pause ops factor (d ! q) (d ! n) = Some (time_list st' ! q)"
          using lt tq x by (simp add: time_to_next_pause_def)
        then show ?thesis using np by blast
      qed
    qed
    have c6: "\<forall>i. Suc (pause_index st') < i \<and> i < Suc n \<longrightarrow> \<not> ?pm i"
      using pi n2 by auto
    have c7: "pause_index st' = 1 \<or>
        (Suc (pause_index st') < Suc n \<and> ?pm (Suc (pause_index st')))"
    proof -
      have "Suc (pause_index st') = n" using pi n2 by simp
      then show ?thesis using True by simp
    qed
    show ?thesis unfolding times_recorded_def using c1 c2 c3 c4 c5 c6 c7 by blast
  next
    case False
    from br False have pi: "pause_index st' = pause_index st"
      and same: "\<forall>q. q < n \<longrightarrow> time_list st' ! q = time_list st ! q"
      by simp_all
    have c1: "length (time_list st') = Suc n" using len by simp
    have c2: "1 \<le> pause_index st'" using pi i2 by simp
    have c3: "Suc (pause_index st') \<le> Suc n" using pi i3 by simp
    have c4: "\<forall>q. pause_index st' < q \<and> q < Suc n \<longrightarrow>
        (\<exists>t. layer_time ops factor (d ! q) = Some t \<and> time_list st' ! q = str_of_float ops t)"
    proof (intro allI impI)
      fix q assume q: "pause_index st' < q \<and> q < Suc n"
      show "\<exists>t. layer_time ops factor (d ! q) = Some t \<and>
                     time_list st' ! q = str_of_float ops t"
      proof (cases "q = n")
        case True
        then show ?thesis using lt own by simp
      next
        case False
        then have "pause_index st < q \<and> q < n" using q pi by auto
        then show ?thesis using i4 same by simp
      qed
    qed
    have c5: "\<forall>q. 2 \<le> q \<and> q \<le> pause_index st' \<longrightarrow>
        (\<exists>k. next_pause d (Suc n) q k \<and>
             time_to_next_pause ops factor (d ! q) (d ! k) = Some (time_list st' ! q))"
    proof (intro allI impI)
      fix q assume q: "2 \<le> q \<and> q \<le> pause_index st'"
      then have q': "2 \<le> q \<and> q \<le> pause_index st" and qn: "q < n" using pi i3 by auto
      with i5 obtain k where k: "next_pause d n q k"
          "time_to_next_pause ops factor (d ! q) (d ! k) = Some (time_list st ! q)" by blast
      have "time_list st' ! q = time_list st ! q" using same qn by simp
      then show "\<exists>k. next_pause d (Suc n) q k \<and>
             time_to_next_pause ops factor (d ! q) (d ! k) = Some (time_list st' ! q)"
        using k next_pause_mono[of d n q k] by auto
    qed
    have c6: "\<forall>i. Suc (pause_index st') < i \<and> i < Suc n \<longrightarrow> \<not> ?pm i"
    proof (intro allI impI)
      fix i assume i: "Suc (pause_index st') < i \<and> i < Suc n"
      show "\<not> ?pm i"
      proof (cases "i = n")
        case True
        then show ?thesis using False by simp
      next
        case False
        then have "Suc (pause_index st) < i \<and> i < n" using i pi by auto
        then show ?thesis using i6 by blast
      qed
    qed
    have c7: "pause_index st' = 1 \<or>
        (Suc (pause_index st') < Suc n \<and> ?pm (Suc (pause_index st')))"
      using i7 pi by auto
    show ?thesis unfolding times_recorded_def using c1 c2 c3 c4 c5 c6 c7 by blast
  qed
qed

lemma times_recorded_start:
  "times_recorded ops factor d 2
     \<lparr>time_list = [''0'', ''0''], this_time = float_of_int ops 0, pause_index = 1\<rparr>"
  by (auto simp: times_recorded_def)

lemma first_pass_recorded:
  assumes one: "\<forall>n. 2 \<le> n \<and> n < m \<longrightarrow> length (elapsed_lines (d ! n)) = 1"
    and n2: "2 \<le> n" and nm: "n \<le> m"
    and run: "record_times ops factor d [2..<n]
                \<lparr>time_list = [''0'', ''0''], this_time = float_of_int ops 0, pause_index = 1\<rparr>
              = Inr st"
  shows "times_recorded ops factor d n st"
  using n2 nm run
proof (induction n arbitrary: st rule: nat_induct_at_least)
  case base
  then show ?case using times_recorded_start[of ops factor d] by simp
next
  case (Suc n)
  have up: "[2..<Suc n] = [2..<n] @ [n]" using Suc.hyps by simp
  from Suc.prems(2) obtain st1 where
    a: "record_times ops factor d [2..<n]
          \<lparr>time_list = [''0'', ''0''], this_time = float_of_int ops 0, pause_index = 1\<rparr> = Inr st1"
    and b: "record_times ops factor d [n] st1 = Inr st"
    unfolding up record_times_append by (auto split: sum.splits)
  have inv: "times_recorded ops factor d n st1" using Suc.IH[OF _ a] Suc.prems(1) by simp
  from b have c: "record_lines ops factor (d ! n) n (split_on CHR ''\<newline>'' (d ! n)) st1 = Inr st"
    by (auto simp: item_def split: if_splits sum.splits)
  have o: "length (elapsed_lines (d ! n)) = 1" using one Suc.hyps Suc.prems(1) by simp
  show ?case by (rule times_recorded_step[OF inv Suc.hyps o c])
qed

lemma next_pause_unique:
  assumes "next_pause d m q k" "next_pause d m q k'"
  shows "k = k'"
proof (rule ccontr)
  assume "k \<noteq> k'"
  then consider "k < k'" | "k' < k" by arith
  then show False
  proof cases
    case 1
    then have "k \<in> {q<..<k'}" using assms(1) by (simp add: next_pause_def)
    then show False using assms by (auto simp: next_pause_def)
  next
    case 2
    then have "k' \<in> {q<..<k}" using assms(2) by (simp add: next_pause_def)
    then show False using assms by (auto simp: next_pause_def)
  qed
qed

lemma contains_tag: "contains (s @ ''P'') ''P''"
  unfolding contains_iff by (rule exI[of _ s], rule exI[of _ "[]"]) simp

lemma rewrite_lines_plain:
  assumes "\<forall>x \<in> set ls. \<not> (contains x ''|'' \<and> (startswith x ''M117'' \<or> startswith x ''M118''))"
  shows "rewrite_lines ops tlist num ls st = Inr st"
  using assms by (induction ls) auto

lemma rewrite_lines_skip:
  assumes "\<forall>x \<in> set pre. \<not> (contains x ''|'' \<and> (startswith x ''M117'' \<or> startswith x ''M118''))"
  shows "rewrite_lines ops tlist num (pre @ ls) st = rewrite_lines ops tlist num ls st"
  using assms by (induction pre) auto

lemma rewrite_lines_one_m117:
  assumes sp: "ls = pre @ l # post"
    and m: "startswith l ''M117''" and bar: "contains l ''|''"
    and others: "\<forall>x \<in> set (pre @ post).
                   \<not> (contains x ''|'' \<and> (startswith x ''M117'' \<or> startswith x ''M118''))"
    and n: "num < length tlist" and tag: "contains (tlist ! num) ''P''"
    and run: "rewrite_lines ops tlist num ls st = Inr st'"
  shows "\<exists>t. time_to_pause ops (tlist ! num) = Inr t
           \<and> layer st' = replace (layer st) l (hd (split_on CHR ''|'' l) @ ''| TP '' @ t)
           \<and> time_to_go st' = Some t"
proof -
  have o1: "\<forall>x \<in> set pre.
       \<not> (contains x ''|'' \<and> (startswith x ''M117'' \<or> startswith x ''M118''))"
    using others by simp
  have o2: "\<forall>x \<in> set post.
       \<not> (contains x ''|'' \<and> (startswith x ''M117'' \<or> startswith x ''M118''))"
    using others by simp
  have r1: "rewrite_lines ops tlist num (l # post) st = Inr st'"
    using run sp rewrite_lines_skip[OF o1, of ops tlist num "l # post" st] by simp
  have it: "item tlist num = Inr (tlist ! num)" using n by (simp add: item_def)
  have n118: "\<not> startswith l ''M118''" using m by (rule m117_not_m118)
  from r1 obtain t where t: "time_to_pause ops (tlist ! num) = Inr t"
    using m bar it tag n118 by (auto split: sum.splits)
  have "rewrite_lines ops tlist num (l # post) st =
        rewrite_lines ops tlist num post
          \<lparr>layer = replace (layer st) l (hd (split_on CHR ''|'' l) @ ''| TP '' @ t),
           time_to_go = Some t\<rparr>"
    using m bar it tag n118 t by simp
  then have "st' = \<lparr>layer = replace (layer st) l (hd (split_on CHR ''|'' l) @ ''| TP '' @ t),
           time_to_go = Some t\<rparr>"
    using r1 rewrite_lines_plain[OF o2, of ops tlist num] by simp
  then show ?thesis using t by simp
qed

lemma rewrite_layers_at:
  assumes "rewrite_layers ops tlist nums (d, g) = Inr (d', g')"
    and "distinct nums" and "j \<in> set nums"
  shows "\<exists>g0 st. rewrite_lines ops tlist j (split_on CHR ''\<newline>'' (d ! j))
                   \<lparr>layer = d ! j, time_to_go = g0\<rparr> = Inr st \<and> d' ! j = layer st"
  using assms
proof (induction nums arbitrary: d g)
  case Nil
  then show ?case by simp
next
  case (Cons num rest)
  from Cons.prems(1) obtain st1 where
    n: "num < length d"
    and l: "rewrite_lines ops tlist num (split_on CHR ''\<newline>'' (d ! num))
              \<lparr>layer = d ! num, time_to_go = g\<rparr> = Inr st1"
    and r: "rewrite_layers ops tlist rest (d[num := layer st1], time_to_go st1) = Inr (d', g')"
    by (auto simp: item_def split: if_splits sum.splits)
  from Cons.prems(2) have nr: "num \<notin> set rest" and dr: "distinct rest" by simp_all
  show ?case
  proof (cases "j = num")
    case True
    have "d' ! num = (d[num := layer st1]) ! num"
      using rewrite_layers_frame[OF r] nr by blast
    then have "d' ! j = layer st1" using True n by simp
    then show ?thesis using l True by blast
  next
    case False
    then have jr: "j \<in> set rest" using Cons.prems(3) by simp
    from Cons.IH[OF r dr jr] obtain g0 st where
      "rewrite_lines ops tlist j (split_on CHR ''\<newline>'' ((d[num := layer st1]) ! j))
                   \<lparr>layer = (d[num := layer st1]) ! j, time_to_go = g0\<rparr> = Inr st"
      "d' ! j = layer st" by blast
    then show ?thesis using False by auto
  qed
qed

text \<open>
  Claim C4, as amended. In countdown-to-pause mode, on a document whose sections
  \<open>2 \<dots> len - 2\<close> each hold one \<open>;TIME_ELAPSED:\<close> line (so that the time list is
  aligned with the sections), and with a \<open>str\<close> of floats that never prints the letter
  \<open>P\<close>, a run of both passes that returns has changed exactly the sections that come
  before a pause-marked section:

  \<^item> a section with no pause-marked section after it (the last pause-marked layer
    itself, every layer after it, the final section) is left as it was, so it keeps its
    \<open> | ET \<close> display; so are the first two sections;

  \<^item> a section \<open>j \<ge> 2\<close> whose next pause-marked section is \<open>k > j\<close> has the tagged
    entry \<open>str(time of k - time of j) + "P"\<close>, and when it has one \<open>M117\<close> line with a bar
    (and no other \<open>M117\<close> or \<open>M118\<close> line with a bar) that line is replaced by its part
    before the bar, \<open>| TP \<close> and the time to the pause.

  The pause-marked layer \<open>k\<close> itself is therefore not rewritten by its own pause: it
  counts down to the next pause when there is one, and keeps \<open> | ET \<close> otherwise.
\<close>

theorem pause_countdown_stops_before_the_pause_layer:
  assumes plain: "\<forall>x. \<not> contains (str_of_float ops x) ''P''"
    and one: "\<forall>n. 2 \<le> n \<and> n < length d - 1 \<longrightarrow> length (elapsed_lines (d ! n)) = 1"
    and run: "countdown_to_pauses ops factor d = Inr d'"
  shows "length d' = length d
     \<and> (\<forall>j. (\<forall>k. j < k \<and> k < length d - 1 \<longrightarrow> \<not> contains (d ! k) ''PauseAtHeight.py'')
            \<longrightarrow> d' ! j = d ! j)
     \<and> (\<forall>j. j < 2 \<longrightarrow> d' ! j = d ! j)
     \<and> (\<forall>j k. 2 \<le> j \<and> next_pause d (length d - 1) j k \<longrightarrow>
          (\<exists>entry. time_to_next_pause ops factor (d ! j) (d ! k) = Some entry
             \<and> (\<forall>pre l post.
                   split_on CHR ''\<newline>'' (d ! j) = pre @ l # post \<and>
                   startswith l ''M117'' \<and> contains l ''|'' \<and>
                   (\<forall>x \<in> set (pre @ post).
                      \<not> (contains x ''|'' \<and> (startswith x ''M117'' \<or> startswith x ''M118'')))
                   \<longrightarrow> (\<exists>t. time_to_pause ops entry = Inr t
                          \<and> d' ! j = replace (d ! j) l
                                       (hd (split_on CHR ''|'' l) @ ''| TP '' @ t)))))"
proof -
  let ?m = "length d - 1"
  let ?pm = "\<lambda>i. contains (d ! i) ''PauseAtHeight.py''"
  from run obtain st g' where
    rt: "record_times ops factor d [2..<?m]
           \<lparr>time_list = [''0'', ''0''], this_time = float_of_int ops 0, pause_index = 1\<rparr> = Inr st"
    and rl: "rewrite_layers ops (time_list st) [2..<?m] (d, None) = Inr (d', g')"
    unfolding countdown_to_pauses_def by (auto split: sum.splits)
  note fr = rewrite_layers_frame[OF rl]
  have len: "length d' = length d" using fr by simp
  have low: "\<forall>j. j < 2 \<longrightarrow> d' ! j = d ! j" using fr by simp
  show ?thesis
  proof (cases "2 \<le> ?m")
    case False
    then have e: "[2..<?m] = []" by simp
    have "d' = d" using rl unfolding e by simp
    moreover have "\<not> (2 \<le> j \<and> next_pause d ?m j k)" for j k
      using False by (auto simp: next_pause_def)
    ultimately show ?thesis by blast
  next
    case True
    have inv: "times_recorded ops factor d ?m st"
      by (rule first_pass_recorded[OF one True _ rt]) simp
    from inv have i1: "length (time_list st) = ?m"
      and i4: "\<forall>q. pause_index st < q \<and> q < ?m \<longrightarrow>
        (\<exists>t. layer_time ops factor (d ! q) = Some t \<and> time_list st ! q = str_of_float ops t)"
      and i5: "\<forall>q. 2 \<le> q \<and> q \<le> pause_index st \<longrightarrow>
        (\<exists>k. next_pause d ?m q k \<and>
             time_to_next_pause ops factor (d ! q) (d ! k) = Some (time_list st ! q))"
      and i6: "\<forall>i. Suc (pause_index st) < i \<and> i < ?m \<longrightarrow> \<not> ?pm i"
      and i7: "pause_index st = 1 \<or> (Suc (pause_index st) < ?m \<and> ?pm (Suc (pause_index st)))"
      unfolding times_recorded_def by blast+
    have keep: "d' ! j = d ! j" if h: "\<forall>k. j < k \<and> k < ?m \<longrightarrow> \<not> ?pm k" for j
    proof (cases "2 \<le> j \<and> j < ?m")
      case False
      then have "j \<notin> set [2..<?m]" by auto
      then show ?thesis using fr by blast
    next
      case True
      have pj: "pause_index st < j"
      proof (rule ccontr)
        assume "\<not> pause_index st < j"
        then have a: "j \<le> pause_index st" by simp
        then have "pause_index st \<noteq> 1" using True by simp
        then have "Suc (pause_index st) < ?m \<and> ?pm (Suc (pause_index st))" using i7 by blast
        moreover have "j < Suc (pause_index st)" using a by simp
        ultimately show False using h by blast
      qed
      then obtain t where "time_list st ! j = str_of_float ops t" using i4 True by blast
      then have "\<not> contains (time_list st ! j) ''P''" using plain by simp
      moreover have "j < length (time_list st)" using i1 True by simp
      ultimately show ?thesis using fr by blast
    qed
    have tp: "\<exists>entry. time_to_next_pause ops factor (d ! j) (d ! k) = Some entry
             \<and> (\<forall>pre l post.
                   split_on CHR ''\<newline>'' (d ! j) = pre @ l # post \<and>
                   startswith l ''M117'' \<and> contains l ''|'' \<and>
                   (\<forall>x \<in> set (pre @ post).
                      \<not> (contains x ''|'' \<and> (startswith x ''M117'' \<or> startswith x ''M118'')))
                   \<longrightarrow> (\<exists>t. time_to_pause ops entry = Inr t
                          \<and> d' ! j = replace (d ! j) l
                                       (hd (split_on CHR ''|'' l) @ ''| TP '' @ t)))"
      if h: "2 \<le> j \<and> next_pause d ?m j k" for j k
    proof -
      from h have j2: "2 \<le> j" and np: "next_pause d ?m j k" by simp_all
      from np have jk: "j < k" and km: "k < ?m" and pk: "?pm k"
        by (simp_all add: next_pause_def)
      have jp: "j \<le> pause_index st"
      proof (rule ccontr)
        assume "\<not> j \<le> pause_index st"
        then have "Suc (pause_index st) < k" using jk by simp
        then show False using i6 km pk by blast
      qed
      from i5 j2 jp obtain k' where k': "next_pause d ?m j k'"
        and en: "time_to_next_pause ops factor (d ! j) (d ! k') = Some (time_list st ! j)"
        by blast
      have kk: "k' = k" by (rule next_pause_unique[OF k' np])
      have "\<exists>x. time_list st ! j = x @ ''P''"
        using en by (auto simp: time_to_next_pause_def split: option.splits dest: sym)
      then have tag: "contains (time_list st ! j) ''P''" using contains_tag by auto
      have jm: "j < ?m" using jk km by simp
      have jl: "j < length (time_list st)" using i1 jm by simp
      have js: "j \<in> set [2..<?m]" using j2 jm by simp
      from rewrite_layers_at[OF rl _ js] obtain g0 st2 where
        r2: "rewrite_lines ops (time_list st) j (split_on CHR ''\<newline>'' (d ! j))
                   \<lparr>layer = d ! j, time_to_go = g0\<rparr> = Inr st2"
        and dj: "d' ! j = layer st2" by auto
      have "\<exists>t. time_to_pause ops (time_list st ! j) = Inr t
                          \<and> d' ! j = replace (d ! j) l
                                       (hd (split_on CHR ''|'' l) @ ''| TP '' @ t)"
        if s: "split_on CHR ''\<newline>'' (d ! j) = pre @ l # post \<and>
                   startswith l ''M117'' \<and> contains l ''|'' \<and>
                   (\<forall>x \<in> set (pre @ post).
                      \<not> (contains x ''|'' \<and> (startswith x ''M117'' \<or> startswith x ''M118'')))"
        for pre l post
      proof -
        from s have s1: "split_on CHR ''\<newline>'' (d ! j) = pre @ l # post"
          and s2: "startswith l ''M117''" and s3: "contains l ''|''"
          and s4: "\<forall>x \<in> set (pre @ post).
                      \<not> (contains x ''|'' \<and> (startswith x ''M117'' \<or> startswith x ''M118''))"
          by blast+
        from rewrite_lines_one_m117[OF s1 s2 s3 s4 jl tag r2] obtain t where
          "time_to_pause ops (time_list st ! j) = Inr t"
          "layer st2 = replace (d ! j) l (hd (split_on CHR ''|'' l) @ ''| TP '' @ t)"
          by auto
        then show ?thesis using dj by auto
      qed
      then show ?thesis using en kk by blast
    qed
    show ?thesis using len keep low tp by blast
  qed
qed

lemma decimal_values:
  "decimal_value ''3600'' = Some 3600" "decimal_value ''7200'' = Some 7200"
  "decimal_value ''10800'' = Some 10800"
  "decimal_value ''3600.0'' = Some 3600" "decimal_value ''7200.0'' = Some 7200"
  by (simp_all add: decimal_value_def py_int_def strip_def is_space_def unsigned_value_def
        digit_val_def)

lemma float_texts:
  "str_of_float exact_ops 3600 = ''3600.0''" "str_of_float exact_ops 7200 = ''7200.0''"
  "str_of_float exact_ops 10800 = ''10800.0''"
  by (simp_all add: exact_ops_simps str_int_def digit_char_def)

lemma first_pass:
  "record_times exact_ops 1
     ['';TIME:10800'', '';LAYER_COUNT:3'',
      '';LAYER:0\<newline>M117 1/3 | ET 3h00m\<newline>;TIME_ELAPSED:3600'',
      '';LAYER:1\<newline>M117 2/3 | ET 2h00m\<newline>;TIME_ELAPSED:7200'',
      '';script: PauseAtHeight.py\<newline>;LAYER:2\<newline>M117 3/3 | ET 1h00m\<newline>;TIME_ELAPSED:10800'',
      ''M84'']
     [2, 3, 4]
     \<lparr>time_list = [''0'', ''0''], this_time = float_of_int exact_ops 0, pause_index = 1\<rparr>
   = Inr \<lparr>time_list = [''0'', ''0'', ''7200.0P'', ''3600.0P'', ''10800.0''],
          this_time = 10800, pause_index = 3\<rparr>"
  by (simp add: item_def decimal_values float_texts exact_ops_simps(2,6,8) pause_range_def upt_rec)

lemma times_to_pause:
  "time_to_pause exact_ops ''7200.0P'' = Inr ''2h0m''"
  "time_to_pause exact_ops ''3600.0P'' = Inr ''1h0m''"
  by (simp_all add: time_to_pause_def decimal_values exact_ops_simps round_half_even_def
        str_int_def digit_char_def)

lemma second_pass:
  "rewrite_layers exact_ops [''0'', ''0'', ''7200.0P'', ''3600.0P'', ''10800.0''] [2, 3, 4]
     (['';TIME:10800'', '';LAYER_COUNT:3'',
       '';LAYER:0\<newline>M117 1/3 | ET 3h00m\<newline>;TIME_ELAPSED:3600'',
       '';LAYER:1\<newline>M117 2/3 | ET 2h00m\<newline>;TIME_ELAPSED:7200'',
       '';script: PauseAtHeight.py\<newline>;LAYER:2\<newline>M117 3/3 | ET 1h00m\<newline>;TIME_ELAPSED:10800'',
       ''M84''], None)
   = Inr (['';TIME:10800'', '';LAYER_COUNT:3'',
       '';LAYER:0\<newline>M117 1/3 | TP 2h0m\<newline>;TIME_ELAPSED:3600'',
       '';LAYER:1\<newline>M117 2/3 | TP 1h0m\<newline>;TIME_ELAPSED:7200'',
       '';script: PauseAtHeight.py\<newline>;LAYER:2\<newline>M117 3/3 | ET 1h00m\<newline>;TIME_ELAPSED:10800'',
       ''M84''], Some ''1h0m'')"
  by (simp add: item_def times_to_pause)

lemma contains_char: "contains s [c] \<longleftrightarrow> c \<in> set s"
  by (induction s) auto

lemma digit_char_set: "d < 10 \<Longrightarrow> digit_char d \<in> set ''0123456789''"
proof -
  assume "d < 10"
  then have "d \<in> {0, 1, 2, 3, 4, 5, 6, 7, 8, 9}" by auto
  then show ?thesis by (auto simp: digit_char_def)
qed

lemma digits_set: "set (digits n) \<subseteq> set ''0123456789''"
proof (induction n rule: digits.induct)
  case (1 n)
  show ?case
  proof (cases "n < 10")
    case True
    then show ?thesis using digit_char_set[of n] by (subst digits.simps) (simp del: digits.simps)
  next
    case False
    have "n mod 10 < 10" by simp
    then have "digit_char (n mod 10) \<in> set ''0123456789''" by (rule digit_char_set)
    then show ?thesis using 1 False by (subst digits.simps) (simp del: digits.simps)
  qed
qed

lemma str_int_no_letter: "CHR ''P'' \<notin> set (str_int i)"
proof -
  have "CHR ''P'' \<notin> set ''0123456789''" by simp
  then have "CHR ''P'' \<notin> set (digits n)" for n using digits_set[of n] by blast
  then show ?thesis by (simp add: str_int_def del: digits.simps)
qed

lemma exact_ops_plain: "\<not> contains (str_of_float exact_ops x) ''P''"
  using str_int_no_letter[of "\<lfloor>x\<rfloor>"] by (simp add: exact_ops_simps contains_char)

lemma countdown_on_example:
  "countdown_to_pauses exact_ops 1
     ['';TIME:10800'', '';LAYER_COUNT:3'',
      '';LAYER:0\<newline>M117 1/3 | ET 3h00m\<newline>;TIME_ELAPSED:3600'',
      '';LAYER:1\<newline>M117 2/3 | ET 2h00m\<newline>;TIME_ELAPSED:7200'',
      '';script: PauseAtHeight.py\<newline>;LAYER:2\<newline>M117 3/3 | ET 1h00m\<newline>;TIME_ELAPSED:10800'',
      ''M84'']
   = Inr ['';TIME:10800'', '';LAYER_COUNT:3'',
      '';LAYER:0\<newline>M117 1/3 | TP 2h0m\<newline>;TIME_ELAPSED:3600'',
      '';LAYER:1\<newline>M117 2/3 | TP 1h0m\<newline>;TIME_ELAPSED:7200'',
      '';script: PauseAtHeight.py\<newline>;LAYER:2\<newline>M117 3/3 | ET 1h00m\<newline>;TIME_ELAPSED:10800'',
      ''M84'']"
proof -
  have r: "[2..<length ['';TIME:10800'', '';LAYER_COUNT:3'',
      '';LAYER:0\<newline>M117 1/3 | ET 3h00m\<newline>;TIME_ELAPSED:3600'',
      '';LAYER:1\<newline>M117 2/3 | ET 2h00m\<newline>;TIME_ELAPSED:7200'',
      '';script: PauseAtHeight.py\<newline>;LAYER:2\<newline>M117 3/3 | ET 1h00m\<newline>;TIME_ELAPSED:10800'',
      ''M84''] - 1] = [2, 3, 4]"
    by (simp add: upt_rec)
  show ?thesis
    unfolding countdown_to_pauses_def r first_pass
    by (simp del: rewrite_layers.simps add: second_pass)
qed

lemma example_elapsed_lines:
  "elapsed_lines '';LAYER:0\<newline>M117 1/3 | ET 3h00m\<newline>;TIME_ELAPSED:3600'' = ['';TIME_ELAPSED:3600'']"
  "elapsed_lines '';LAYER:1\<newline>M117 2/3 | ET 2h00m\<newline>;TIME_ELAPSED:7200'' = ['';TIME_ELAPSED:7200'']"
  "elapsed_lines '';script: PauseAtHeight.py\<newline>;LAYER:2\<newline>M117 3/3 | ET 1h00m\<newline>;TIME_ELAPSED:10800''
     = ['';TIME_ELAPSED:10800'']"
  by (simp_all add: elapsed_lines_def)

lemma example_next_pause:
  "next_pause
     ['';TIME:10800'', '';LAYER_COUNT:3'',
      '';LAYER:0\<newline>M117 1/3 | ET 3h00m\<newline>;TIME_ELAPSED:3600'',
      '';LAYER:1\<newline>M117 2/3 | ET 2h00m\<newline>;TIME_ELAPSED:7200'',
      '';script: PauseAtHeight.py\<newline>;LAYER:2\<newline>M117 3/3 | ET 1h00m\<newline>;TIME_ELAPSED:10800'',
      ''M84''] 5 2 4"
proof -
  have "i = 3" if "i \<in> {2<..<4}" for i :: nat using that by auto
  then show ?thesis unfolding next_pause_def by auto
qed

lemma example_time_to_next_pause:
  "time_to_next_pause exact_ops 1
     '';LAYER:0\<newline>M117 1/3 | ET 3h00m\<newline>;TIME_ELAPSED:3600''
     '';script: PauseAtHeight.py\<newline>;LAYER:2\<newline>M117 3/3 | ET 1h00m\<newline>;TIME_ELAPSED:10800''
   = Some ''7200.0P''"
  by (simp add: time_to_next_pause_def layer_time_def example_elapsed_lines item_def
        decimal_values float_texts exact_ops_simps(2,6,8))

text \<open>
  The claim C4 as stated fails on this document: layer 2 is the pause-marked layer, and it
  keeps its \<open> | ET \<close> display; only the two layers before it count down to the pause.
\<close>

theorem pause_marked_layer_keeps_ET_counterexample:
  "countdown_to_pauses exact_ops 1
     ['';TIME:10800'', '';LAYER_COUNT:3'',
      '';LAYER:0\<newline>M117 1/3 | ET 3h00m\<newline>;TIME_ELAPSED:3600'',
      '';LAYER:1\<newline>M117 2/3 | ET 2h00m\<newline>;TIME_ELAPSED:7200'',
      '';script: PauseAtHeight.py\<newline>;LAYER:2\<newline>M117 3/3 | ET 1h00m\<newline>;TIME_ELAPSED:10800'',
      ''M84'']
   = Inr ['';TIME:10800'', '';LAYER_COUNT:3'',
      '';LAYER:0\<newline>M117 1/3 | TP 2h0m\<newline>;TIME_ELAPSED:3600'',
      '';LAYER:1\<newline>M117 2/3 | TP 1h0m\<newline>;TIME_ELAPSED:7200'',
      '';script: PauseAtHeight.py\<newline>;LAYER:2\<newline>M117 3/3 | ET 1h00m\<newline>;TIME_ELAPSED:10800'',
      ''M84'']"
  by (rule countdown_on_example)

text \<open>
  The theorem for C4 on the same document: the hypotheses hold there, and the first
  layer, two layers before the pause, is rewritten to the time to the pause.
\<close>

theorem pause_countdown_stops_before_the_pause_layer_witness:
  "countdown_to_pauses exact_ops 1
     ['';TIME:10800'', '';LAYER_COUNT:3'',
      '';LAYER:0\<newline>M117 1/3 | ET 3h00m\<newline>;TIME_ELAPSED:3600'',
      '';LAYER:1\<newline>M117 2/3 | ET 2h00m\<newline>;TIME_ELAPSED:7200'',
      '';script: PauseAtHeight.py\<newline>;LAYER:2\<newline>M117 3/3 | ET 1h00m\<newline>;TIME_ELAPSED:10800'',
      ''M84'']
   = Inr ['';TIME:10800'', '';LAYER_COUNT:3'',
      '';LAYER:0\<newline>M117 1/3 | TP 2h0m\<newline>;TIME_ELAPSED:3600'',
      '';LAYER:1\<newline>M117 2/3 | TP 1h0m\<newline>;TIME_ELAPSED:7200'',
      '';script: PauseAtHeight.py\<newline>;LAYER:2\<newline>M117 3/3 | ET 1h00m\<newline>;TIME_ELAPSED:10800'',
      ''M84'']
   \<and> (\<exists>t. time_to_pause exact_ops ''7200.0P'' = Inr t \<and>
          '';LAYER:0\<newline>M117 1/3 | TP 2h0m\<newline>;TIME_ELAPSED:3600'' =
            replace '';LAYER:0\<newline>M117 1/3 | ET 3h00m\<newline>;TIME_ELAPSED:3600''
              ''M117 1/3 | ET 3h00m'' (''M117 1/3 '' @ ''| TP '' @ t))"
proof -
  let ?d = "['';TIME:10800'', '';LAYER_COUNT:3'',
      '';LAYER:0\<newline>M117 1/3 | ET 3h00m\<newline>;TIME_ELAPSED:3600'',
      '';LAYER:1\<newline>M117 2/3 | ET 2h00m\<newline>;TIME_ELAPSED:7200'',
      '';script: PauseAtHeight.py\<newline>;LAYER:2\<newline>M117 3/3 | ET 1h00m\<newline>;TIME_ELAPSED:10800'',
      ''M84'']"
  let ?d' = "['';TIME:10800'', '';LAYER_COUNT:3'',
      '';LAYER:0\<newline>M117 1/3 | TP 2h0m\<newline>;TIME_ELAPSED:3600'',
      '';LAYER:1\<newline>M117 2/3 | TP 1h0m\<newline>;TIME_ELAPSED:7200'',
      '';script: PauseAtHeight.py\<newline>;LAYER:2\<newline>M117 3/3 | ET 1h00m\<newline>;TIME_ELAPSED:10800'',
      ''M84'']"
  have plain: "\<forall>x. \<not> contains (str_of_float exact_ops x) ''P''"
    using exact_ops_plain by blast
  have one: "\<forall>n. 2 \<le> n \<and> n < length ?d - 1 \<longrightarrow> length (elapsed_lines (?d ! n)) = 1"
  proof (intro allI impI)
    fix n :: nat assume "2 \<le> n \<and> n < length ?d - 1"
    then have "n = 2 \<or> n = 3 \<or> n = 4" by auto
    then show "length (elapsed_lines (?d ! n)) = 1"
      using example_elapsed_lines by auto
  qed
  have run: "countdown_to_pauses exact_ops 1 ?d = Inr ?d'" by (rule countdown_on_example)
  note whole = pause_countdown_stops_before_the_pause_layer[OF plain one run]
  have l5: "length ?d - 1 = 5" by simp
  have np: "2 \<le> (2::nat) \<and> next_pause ?d (length ?d - 1) 2 4"
    unfolding l5 by (intro conjI order_refl example_next_pause)
  from whole np obtain entry where
    e: "time_to_next_pause exact_ops 1 (?d ! 2) (?d ! 4) = Some entry"
    and r: "\<forall>pre l post.
          split_on CHR ''\<newline>'' (?d ! 2) = pre @ l # post \<and>
          startswith l ''M117'' \<and> contains l ''|'' \<and>
          (\<forall>x \<in> set (pre @ post).
             \<not> (contains x ''|'' \<and> (startswith x ''M117'' \<or> startswith x ''M118'')))
          \<longrightarrow> (\<exists>t. time_to_pause exact_ops entry = Inr t
                 \<and> ?d' ! 2 = replace (?d ! 2) l (hd (split_on CHR ''|'' l) @ ''| TP '' @ t))"
    by blast
  have en: "entry = ''7200.0P''" using e example_time_to_next_pause by simp
  have shape: "split_on CHR ''\<newline>'' (?d ! 2) =
                 ['';LAYER:0''] @ ''M117 1/3 | ET 3h00m'' # ['';TIME_ELAPSED:3600''] \<and>
          startswith ''M117 1/3 | ET 3h00m'' ''M117'' \<and> contains ''M117 1/3 | ET 3h00m'' ''|'' \<and>
          (\<forall>x \<in> set (['';LAYER:0''] @ ['';TIME_ELAPSED:3600'']).
             \<not> (contains x ''|'' \<and> (startswith x ''M117'' \<or> startswith x ''M118'')))"
    by simp
  from r shape obtain t where
    "time_to_pause exact_ops entry = Inr t"
    "?d' ! 2 = replace (?d ! 2) ''M117 1/3 | ET 3h00m''
                 (hd (split_on CHR ''|'' ''M117 1/3 | ET 3h00m'') @ ''| TP '' @ t)"
    by blast
  then have "\<exists>t. time_to_pause exact_ops ''7200.0P'' = Inr t \<and>
          '';LAYER:0\<newline>M117 1/3 | TP 2h0m\<newline>;TIME_ELAPSED:3600'' =
            replace '';LAYER:0\<newline>M117 1/3 | ET 3h00m\<newline>;TIME_ELAPSED:3600''
              ''M117 1/3 | ET 3h00m'' (''M117 1/3 '' @ ''| TP '' @ t)"
    using en by auto
  then show ?thesis using run by blast
qed

section \<open>What the display-progress branch leaves alone\<close>

lemma layer_step_frame:
  assumes "layer_step ops s env st c = Inr st'"
  shows "length (data st') = length (data st)"
    and "first_layer_index env + c < length (data st)"
    and "j \<noteq> first_layer_index env + c \<Longrightarrow> data st' ! j = data st ! j"
    and "\<not> contains (data st ! (first_layer_index env + c)) '';LAYER:'' \<Longrightarrow> st' = st"
  using assms
  by (auto simp: layer_step_def Let_def item_def split: if_splits sum.splits)

lemma layer_loop_frame:
  assumes "layer_loop ops s env cs st = Inr st'"
  shows "length (data st') = length (data st)
       \<and> (\<forall>c \<in> set cs. first_layer_index env + c < length (data st))
       \<and> (\<forall>j. j \<notin> (\<lambda>c. first_layer_index env + c) ` set cs \<or>
               \<not> contains (data st ! j) '';LAYER:'' \<longrightarrow> data st' ! j = data st ! j)"
  using assms
proof (induction cs arbitrary: st)
  case Nil
  then show ?case by simp
next
  case (Cons c rest)
  from Cons.prems obtain st1 where
    s1: "layer_step ops s env st c = Inr st1" and r: "layer_loop ops s env rest st1 = Inr st'"
    by (auto split: sum.splits)
  note f1 = layer_step_frame[OF s1]
  note ih = Cons.IH[OF r]
  have len: "length (data st') = length (data st)" using f1(1) ih by simp
  have rng: "\<forall>c' \<in> set (c # rest). first_layer_index env + c' < length (data st)"
    using f1(1,2) ih by auto
  have "data st' ! j = data st ! j"
    if j: "j \<notin> (\<lambda>c. first_layer_index env + c) ` set (c # rest) \<or>
               \<not> contains (data st ! j) '';LAYER:''" for j
  proof -
    have a: "data st1 ! j = data st ! j"
    proof (cases "j = first_layer_index env + c")
      case True
      then have "\<not> contains (data st ! (first_layer_index env + c)) '';LAYER:''"
        using j by auto
      then show ?thesis using f1(4) by simp
    next
      case False
      then show ?thesis using f1(3) by simp
    qed
    have "j \<notin> (\<lambda>c. first_layer_index env + c) ` set rest \<or>
               \<not> contains (data st1 ! j) '';LAYER:''" using j a by auto
    then have "data st' ! j = data st1 ! j" using ih by blast
    then show ?thesis using a by simp
  qed
  then show ?case using len rng by blast
qed

lemma annotate_layers_frame:
  assumes "annotate_layers ops s env d = Inr st'"
  shows "length (data st') = length d
       \<and> (2 < length d \<longrightarrow> first_layer_index env \<le> 2)
       \<and> (\<forall>j. j < first_layer_index env \<or> first_layer_index env + (length d - 2) \<le> j \<or>
               \<not> contains (d ! j) '';LAYER:'' \<longrightarrow> data st' ! j = d ! j)"
proof -
  note f = layer_loop_frame[OF assms[unfolded annotate_layers_def]]
  have len: "length (data st') = length d" using f by simp
  have first: "first_layer_index env \<le> 2" if "2 < length d"
  proof -
    have "length d - 3 \<in> set [0..<length d - 2]" using that by auto
    then have "first_layer_index env + (length d - 3) < length d" using f by fastforce
    then show ?thesis using that by linarith
  qed
  have "data st' ! j = d ! j"
    if "j < first_layer_index env \<or> first_layer_index env + (length d - 2) \<le> j \<or>
               \<not> contains (d ! j) '';LAYER:''" for j
  proof -
    have "j \<notin> (\<lambda>c. first_layer_index env + c) ` set [0..<length d - 2] \<or>
               \<not> contains (d ! j) '';LAYER:''" using that by auto
    then show ?thesis using f by auto
  qed
  then show ?thesis using len first by blast
qed

lemma relocate_frame:
  assumes "relocate_end_of_gcode d = Inr d'"
  shows "length d' = length d \<and> d \<noteq> []
       \<and> (\<forall>j. j \<noteq> length d - 1 \<longrightarrow> d' ! j = d ! j)
       \<and> d' ! (length d - 1) =
           replace (d ! (length d - 1)) '';End of Gcode\<newline>'' [] @ '';End of Gcode\<newline>''"
  using assms by (auto simp: relocate_end_of_gcode_def split: if_splits)

lemma countdown_frame:
  assumes "countdown_to_pauses ops factor d = Inr d'"
  shows "length d' = length d
       \<and> (\<forall>j. j < 2 \<or> length d - 1 \<le> j \<longrightarrow> d' ! j = d ! j)"
proof -
  let ?st0 = "\<lparr>time_list = [''0'', ''0''], this_time = float_of_int ops 0, pause_index = 1\<rparr>"
  obtain st where st: "record_times ops factor d [2..<length d - 1] ?st0 = Inr st"
    using assms unfolding countdown_to_pauses_def
    by (cases "record_times ops factor d [2..<length d - 1] ?st0") simp_all
  obtain r where r: "rewrite_layers ops (time_list st) [2..<length d - 1] (d, None) = Inr r"
    using assms st unfolding countdown_to_pauses_def
    by (cases "rewrite_layers ops (time_list st) [2..<length d - 1] (d, None)") simp_all
  obtain d2 g where dg: "r = (d2, g)" by (cases r)
  have "d2 = d'" using assms st r dg unfolding countdown_to_pauses_def by simp
  then have "rewrite_layers ops (time_list st) [2..<length d - 1] (d, None) = Inr (d', g)"
    using r dg by simp
  from rewrite_layers_frame[OF this] show ?thesis by auto
qed

lemma time_line_body_frame:
  assumes b: "time_line_body ops s line (lines, d) = Inr (lines', d')" and l: "2 \<le> length d"
  shows "length d' = length d
       \<and> (\<forall>j. 0 < j \<and> j < length d - 1 \<longrightarrow> d' ! j = d ! j)
       \<and> (\<exists>added. d' ! (length d - 1) = d ! (length d - 1) @ added)"
proof -
  from b obtain x a1 a2 where
    d': "d' = (d[0 := x])[length d - 1 := (d[0 := x]) ! (length d - 1) @ a1] \<or>
         d' = ((d[0 := x])[length d - 1 := (d[0 := x]) ! (length d - 1) @ a1])
                [length d - 1 :=
                   ((d[0 := x])[length d - 1 := (d[0 := x]) ! (length d - 1) @ a1])
                     ! (length d - 1) @ a2]"
    unfolding time_line_body_def
    by (simp add: Let_def split: sum.splits prod.splits if_splits) blast+
  have n0: "length d - 1 \<noteq> 0" "length d - 1 < length d" using l by simp_all
  from d' show ?thesis
  proof
    assume e: "d' = (d[0 := x])[length d - 1 := (d[0 := x]) ! (length d - 1) @ a1]"
    have "d' ! (length d - 1) = d ! (length d - 1) @ a1" using e n0 by simp
    then show ?thesis using e by auto
  next
    assume e: "d' = ((d[0 := x])[length d - 1 := (d[0 := x]) ! (length d - 1) @ a1])
                [length d - 1 :=
                   ((d[0 := x])[length d - 1 := (d[0 := x]) ! (length d - 1) @ a1])
                     ! (length d - 1) @ a2]"
    have "d' ! (length d - 1) = d ! (length d - 1) @ (a1 @ a2)" using e n0 by simp
    then show ?thesis using e by auto
  qed
qed


lemma time_lines_frame:
  assumes "time_lines fuel ops s k st = Some (Inr st')" "2 \<le> length (snd st)"
  shows "length (snd st') = length (snd st)
       \<and> (\<forall>j. 0 < j \<and> j < length (snd st) - 1 \<longrightarrow> snd st' ! j = snd st ! j)
       \<and> (\<exists>added. snd st' ! (length (snd st) - 1) = snd st ! (length (snd st) - 1) @ added)"
  using assms
proof (induction fuel arbitrary: k st)
  case 0
  then show ?case by simp
next
  case (Suc fuel)
  show ?case
  proof (cases "k < length (fst st)")
    case False
    then have "st' = st" using Suc.prems(1) by simp
    then show ?thesis by simp
  next
    case True
    show ?thesis
    proof (cases "startswith (fst st ! k) '';TIME:''")
      case False
      then have "time_lines fuel ops s (Suc k) st = Some (Inr st')"
        using Suc.prems(1) True by simp
      from Suc.IH[OF this Suc.prems(2)] show ?thesis .
    next
      case t: True
      then obtain st1 where
        b: "time_line_body ops s (fst st ! k) st = Inr st1"
        and r: "time_lines fuel ops s (Suc k) st1 = Some (Inr st')"
        using Suc.prems(1) True by (auto split: sum.splits)
      have b': "time_line_body ops s (fst st ! k) (fst st, snd st) = Inr (fst st1, snd st1)"
        using b by simp
      note f1 = time_line_body_frame[OF b' Suc.prems(2)]
      have l1: "2 \<le> length (snd st1)" using f1 Suc.prems(2) by simp
      note f2 = Suc.IH[OF r l1]
      have len: "length (snd st') = length (snd st)" using f1 f2 by simp
      have mid: "\<forall>j. 0 < j \<and> j < length (snd st) - 1 \<longrightarrow> snd st' ! j = snd st ! j"
        using f1 f2 by simp
      obtain a1 where a1: "snd st1 ! (length (snd st) - 1) = snd st ! (length (snd st) - 1) @ a1"
        using f1 by blast
      obtain a2 where a2: "snd st' ! (length (snd st1) - 1) = snd st1 ! (length (snd st1) - 1) @ a2"
        using f2 by blast
      have "snd st' ! (length (snd st) - 1) = snd st ! (length (snd st) - 1) @ (a1 @ a2)"
        using a1 a2 f1 by simp
      then show ?thesis using len mid by blast
    qed
  qed
qed

lemma estimate_lines_frame:
  assumes "estimate_lines fuel ops s d = Some (Inr d1)" "2 \<le> length d"
  shows "length d1 = length d
       \<and> (\<forall>j. 0 < j \<and> j < length d - 1 \<longrightarrow> d1 ! j = d ! j)
       \<and> (\<exists>added. d1 ! (length d - 1) = d ! (length d - 1) @ added)"
proof -
  from assms(1) obtain first_section lines where
    "time_lines fuel ops s 0 (split_on CHR ''\<newline>'' first_section, d) = Some (Inr (lines, d1))"
    unfolding estimate_lines_def
    by (auto split: sum.splits option.splits prod.splits)
  from time_lines_frame[OF this] assms(2) show ?thesis by simp
qed


lemma display_progress_stages:
  assumes "display_progress fuel ops s ms job d = Some (Inr d')"
  shows "\<exists>d1 d2 first layers total_time st d3.
           estimate_lines fuel ops s d = Some (Inr d1)
         \<and> relocate_end_of_gcode d1 = Inr d2
         \<and> find_first_layer d2 0 (0, 0, 0) = Inr (first, layers, total_time)
         \<and> annotate_layers ops s
              \<lparr>first_layer_index = first, number_of_layers = layers, time_total = total_time\<rparr>
              d2 = Inr st
         \<and> (if countdown_to_pause s
              then countdown_to_pauses ops (speed_factor ops s) (data st) else Inr (data st))
             = Inr d3
         \<and> d' = d3"
  using assms unfolding display_progress_def
  by (simp split: option.splits sum.splits prod.splits if_splits)

lemma display_progress_last_section:
  assumes run: "display_progress fuel ops s ms job d = Some (Inr d')" and l: "2 \<le> length d"
  shows "\<exists>d1 summary.
           estimate_lines fuel ops s d = Some (Inr d1)
         \<and> length d' = length d
         \<and> d1 ! (length d - 1) = d ! (length d - 1) @ summary
         \<and> (\<not> contains (replace (d1 ! (length d - 1)) '';End of Gcode\<newline>'' [] @
                          '';End of Gcode\<newline>'') '';LAYER:''
              \<longrightarrow> d' ! (length d - 1) =
                    replace (d1 ! (length d - 1)) '';End of Gcode\<newline>'' [] @
                    '';End of Gcode\<newline>'')"
proof -
  from display_progress_stages[OF run] obtain d1 d2 first layers total_time st d3 where
    e: "estimate_lines fuel ops s d = Some (Inr d1)"
    and r: "relocate_end_of_gcode d1 = Inr d2"
    and a: "annotate_layers ops s
              \<lparr>first_layer_index = first, number_of_layers = layers, time_total = total_time\<rparr>
              d2 = Inr st"
    and c: "(if countdown_to_pause s
              then countdown_to_pauses ops (speed_factor ops s) (data st) else Inr (data st))
             = Inr d3"
    and d': "d' = d3"
    by blast
  note fe = estimate_lines_frame[OF e l]
  note fr = relocate_frame[OF r]
  note fa = annotate_layers_frame[OF a]
  have l1: "length d1 = length d" using fe by simp
  have l2: "length d2 = length d" using fr l1 by simp
  have l3: "length (data st) = length d" using fa l2 by simp
  have fc: "length d3 = length d \<and> d3 ! (length d - 1) = data st ! (length d - 1)"
  proof (cases "countdown_to_pause s")
    case True
    then have "countdown_to_pauses ops (speed_factor ops s) (data st) = Inr d3" using c by simp
    from countdown_frame[OF this] show ?thesis using l3 by simp
  next
    case False
    then show ?thesis using c l3 by simp
  qed
  obtain summary where sm: "d1 ! (length d - 1) = d ! (length d - 1) @ summary"
    using fe by blast
  let ?e = "replace (d1 ! (length d - 1)) '';End of Gcode\<newline>'' [] @ '';End of Gcode\<newline>''"
  have e2: "d2 ! (length d - 1) = ?e" using fr l1 by simp
  have "d' ! (length d - 1) = ?e" if "\<not> contains ?e '';LAYER:''"
  proof -
    have "\<not> contains (d2 ! (length d - 1)) '';LAYER:''" using that e2 by simp
    then have "data st ! (length d - 1) = d2 ! (length d - 1)" using fa by blast
    then show ?thesis using fc d' e2 by simp
  qed
  then show ?thesis using e fc d' sm by blast
qed


text \<open>
  Claim C5, as amended. The loop over the layers visits the sections
  \<open>first_layer_index + c\<close> for \<open>c\<close> in \<open>range(len(data) - 2)\<close>. When it completes it has
  changed no section outside that range and no section without \<open>;LAYER:\<close>; so the final
  section is left alone whenever it holds no \<open>;LAYER:\<close> or the first layer section is at
  index 0 or 1. With more than two sections the loop completes only if the first layer
  section is at index 2 at most: otherwise it runs past the end of the document. In the
  branch as a whole, on a document of at least two sections whose relocated final
  section holds no \<open>;LAYER:\<close>, the final section is the old one with the summary lines
  of the estimate appended, and the end-of-gcode marker taken out and put at its end.
\<close>

theorem layer_loop_changes_only_marked_sections_in_range:
  "(annotate_layers ops s env d = Inr st \<longrightarrow>
      length (data st) = length d
    \<and> (2 < length d \<longrightarrow> first_layer_index env \<le> 2)
    \<and> (\<forall>j. j < first_layer_index env \<or> first_layer_index env + (length d - 2) \<le> j \<or>
            \<not> contains (d ! j) '';LAYER:'' \<longrightarrow> data st ! j = d ! j))
   \<and> (display_progress fuel ops s ms job d = Some (Inr d') \<and> 2 \<le> length d \<longrightarrow>
        (\<exists>d1 summary.
            estimate_lines fuel ops s d = Some (Inr d1)
          \<and> length d' = length d
          \<and> d1 ! (length d - 1) = d ! (length d - 1) @ summary
          \<and> (\<not> contains (replace (d1 ! (length d - 1)) '';End of Gcode\<newline>'' [] @
                           '';End of Gcode\<newline>'') '';LAYER:''
               \<longrightarrow> d' ! (length d - 1) =
                     replace (d1 ! (length d - 1)) '';End of Gcode\<newline>'' [] @
                     '';End of Gcode\<newline>'')))"
proof -
  have a: "annotate_layers ops s env d = Inr st \<longrightarrow>
      length (data st) = length d
    \<and> (2 < length d \<longrightarrow> first_layer_index env \<le> 2)
    \<and> (\<forall>j. j < first_layer_index env \<or> first_layer_index env + (length d - 2) \<le> j \<or>
            \<not> contains (d ! j) '';LAYER:'' \<longrightarrow> data st ! j = d ! j)"
    using annotate_layers_frame[of ops s env d st] by blast
  have b: "display_progress fuel ops s ms job d = Some (Inr d') \<and> 2 \<le> length d \<longrightarrow>
        (\<exists>d1 summary.
            estimate_lines fuel ops s d = Some (Inr d1)
          \<and> length d' = length d
          \<and> d1 ! (length d - 1) = d ! (length d - 1) @ summary
          \<and> (\<not> contains (replace (d1 ! (length d - 1)) '';End of Gcode\<newline>'' [] @
                           '';End of Gcode\<newline>'') '';LAYER:''
               \<longrightarrow> d' ! (length d - 1) =
                     replace (d1 ! (length d - 1)) '';End of Gcode\<newline>'' [] @
                     '';End of Gcode\<newline>''))"
    using display_progress_last_section[of fuel ops s ms job d d'] by blast
  from a b show ?thesis by (rule conjI)
qed

lemma exact_ops_more:
  "ffloordiv exact_ops x y = of_int \<lfloor>x / y\<rfloor>"
  "fmod exact_ops x y = x - y * of_int \<lfloor>x / y\<rfloor>"
  by (simp_all add: exact_ops_def)

lemma cex_first: "find_first_layer
     ['';FLAVOR:Marlin'', '';LAYER_COUNT:2'', '';LAYER:0\<newline>G1 X1'',
      '';LAYER:1\<newline>G1 X2\<newline>M84''] 0 (0, 0, 0) = Inr (2, 2, 0)"
  by (simp add: item_def py_int_def strip_def is_space_def unsigned_value_def digit_val_def)

lemma cex_loop: "annotate_layers exact_ops
     \<lparr>display_total_layers = True, display_remaining_time = False, add_m118_line = False,
      countdown_to_pause = False, speed_factor_setting = 100\<rparr>
     \<lparr>first_layer_index = 2, number_of_layers = 2, time_total = 0\<rparr>
     ['';FLAVOR:Marlin'', '';LAYER_COUNT:2'', '';LAYER:0\<newline>G1 X1'',
      '';LAYER:1\<newline>G1 X2\<newline>M84'']
   = Inr \<lparr>data = ['';FLAVOR:Marlin'', '';LAYER_COUNT:2'',
                  '';LAYER:0\<newline>M117 layer 1/2\<newline>G1 X1'',
                  '';LAYER:1\<newline>M117 layer 2/2\<newline>G1 X2\<newline>M84''],
          current_layer = 2, time_elapsed = 0\<rparr>"
  by (simp add: annotate_layers_def upt_rec layer_step_def item_def Let_def display_text_def
      base_display_text_def display_commands_def str_int_def digit_char_def)

lemma cex_past_end: "annotate_layers exact_ops
     \<lparr>display_total_layers = True, display_remaining_time = False, add_m118_line = False,
      countdown_to_pause = False, speed_factor_setting = 100\<rparr>
     \<lparr>first_layer_index = 3, number_of_layers = 1, time_total = 0\<rparr>
     ['';FLAVOR:Marlin'', '';LAYER_COUNT:1'', ''G28'', '';LAYER:0\<newline>G1 X1'', ''M84'']
   = Inl IndexError"
  by (simp add: annotate_layers_def upt_rec layer_step_def item_def Let_def display_text_def
      base_display_text_def display_commands_def str_int_def digit_char_def)

lemma wit_estimate: "estimate_lines 10 exact_ops
     \<lparr>display_total_layers = True, display_remaining_time = False, add_m118_line = False,
      countdown_to_pause = False, speed_factor_setting = 100\<rparr>
     ['';TIME:3600'', '';LAYER:0\<newline>G1 X1'', ''M84\<newline>;End of Gcode\<newline>;SETTING_3\<newline>'']
   = Some (Inr ['';TIME:3600\<newline>;Cura Time:  1hr 0min\<newline>M117 ET 1hr 0min'',
        '';LAYER:0\<newline>G1 X1'',
        ''M84\<newline>;End of Gcode\<newline>;SETTING_3\<newline>M117 Orig Cura Est 1hr 0min\<newline>''])"
proof -
  have n: "(10::nat) = Suc (Suc (Suc (Suc (Suc (Suc (Suc (Suc (Suc (Suc 0)))))))))" by simp
  have hm: "hours_minutes exact_ops 3600 = (1, 0)"
    by (simp add: hours_minutes_def exact_ops_simps exact_ops_more round_half_even_def)
  have si: "str_int 1 = ''1''" "str_int 0 = ''0''" by (simp_all add: str_int_def digit_char_def)
  have pi: "py_int ''3600'' = Inr 3600"
    by (simp add: py_int_def strip_def is_space_def unsigned_value_def digit_val_def)
  show ?thesis
    unfolding estimate_lines_def n
    by (simp add: item_def time_line_body_def pi speed_factor_def exact_ops_simps hm si
        insert_at_def Let_def)
qed

text \<open>
  The claim as stated fails. On the first document the first layer section is at index 2,
  the loop runs over the indices 2 and 3, and the final section, which holds a layer
  marker, gets a display line. On the second the first layer section is at index 3 and
  the loop runs past the final section.
\<close>

theorem layer_loop_reaches_final_section_counterexample:
  "find_first_layer
     ['';FLAVOR:Marlin'', '';LAYER_COUNT:2'', '';LAYER:0\<newline>G1 X1'',
      '';LAYER:1\<newline>G1 X2\<newline>M84''] 0 (0, 0, 0) = Inr (2, 2, 0)
   \<and> annotate_layers exact_ops
     \<lparr>display_total_layers = True, display_remaining_time = False, add_m118_line = False,
      countdown_to_pause = False, speed_factor_setting = 100\<rparr>
     \<lparr>first_layer_index = 2, number_of_layers = 2, time_total = 0\<rparr>
     ['';FLAVOR:Marlin'', '';LAYER_COUNT:2'', '';LAYER:0\<newline>G1 X1'',
      '';LAYER:1\<newline>G1 X2\<newline>M84'']
   = Inr \<lparr>data = ['';FLAVOR:Marlin'', '';LAYER_COUNT:2'',
                  '';LAYER:0\<newline>M117 layer 1/2\<newline>G1 X1'',
                  '';LAYER:1\<newline>M117 layer 2/2\<newline>G1 X2\<newline>M84''],
          current_layer = 2, time_elapsed = 0\<rparr>
   \<and> annotate_layers exact_ops
     \<lparr>display_total_layers = True, display_remaining_time = False, add_m118_line = False,
      countdown_to_pause = False, speed_factor_setting = 100\<rparr>
     \<lparr>first_layer_index = 3, number_of_layers = 1, time_total = 0\<rparr>
     ['';FLAVOR:Marlin'', '';LAYER_COUNT:1'', ''G28'', '';LAYER:0\<newline>G1 X1'', ''M84'']
   = Inl IndexError"
  using cex_first cex_loop cex_past_end by (intro conjI)

theorem layer_loop_changes_only_marked_sections_in_range_witness:
  "display_progress 10 exact_ops
     \<lparr>display_total_layers = True, display_remaining_time = False, add_m118_line = False,
      countdown_to_pause = False, speed_factor_setting = 100\<rparr>
     \<lparr>enable_end_message = False, print_start_time_setting = []\<rparr>
     \<lparr>current_print_time = ''01:00:00'',
      today = \<lparr>clock_year = 2024, clock_month = 1, clock_day = 1\<rparr>,
      clock = \<lparr>clock_hour = 0, clock_minute = 0, clock_second = 0\<rparr>\<rparr>
     ['';TIME:3600'', '';LAYER:0\<newline>G1 X1'', ''M84\<newline>;End of Gcode\<newline>;SETTING_3\<newline>'']
   = Some (Inr ['';TIME:3600\<newline>;Cura Time:  1hr 0min\<newline>M117 ET 1hr 0min'',
        '';LAYER:0\<newline>M117 layer 1/0\<newline>G1 X1'',
        ''M84\<newline>;SETTING_3\<newline>M117 Orig Cura Est 1hr 0min\<newline>;End of Gcode\<newline>''])
   \<and> annotate_layers exact_ops
     \<lparr>display_total_layers = True, display_remaining_time = False, add_m118_line = False,
      countdown_to_pause = False, speed_factor_setting = 100\<rparr>
     \<lparr>first_layer_index = 1, number_of_layers = 0, time_total = 3600\<rparr>
     ['';TIME:3600'', '';LAYER:0\<newline>G1 X1'', ''M84\<newline>;End of Gcode\<newline>;SETTING_3\<newline>'']
   = Inr \<lparr>data = ['';TIME:3600'', '';LAYER:0\<newline>M117 layer 1/0\<newline>G1 X1'',
                  ''M84\<newline>;End of Gcode\<newline>;SETTING_3\<newline>''],
          current_layer = 1, time_elapsed = 0\<rparr>
   \<and> (['';TIME:3600\<newline>;Cura Time:  1hr 0min\<newline>M117 ET 1hr 0min'',
        '';LAYER:0\<newline>M117 layer 1/0\<newline>G1 X1'',
        ''M84\<newline>;SETTING_3\<newline>M117 Orig Cura Est 1hr 0min\<newline>;End of Gcode\<newline>''] ! (3 - 1)
      = replace (''M84\<newline>;End of Gcode\<newline>;SETTING_3\<newline>M117 Orig Cura Est 1hr 0min\<newline>'')
          '';End of Gcode\<newline>'' [] @ '';End of Gcode\<newline>'')"
proof -
  let ?s = "\<lparr>display_total_layers = True, display_remaining_time = False, add_m118_line = False,
      countdown_to_pause = False, speed_factor_setting = (100::rat)\<rparr>"
  let ?ms = "\<lparr>enable_end_message = False, print_start_time_setting = []\<rparr>"
  let ?job = "\<lparr>current_print_time = ''01:00:00'',
      today = \<lparr>clock_year = 2024, clock_month = 1, clock_day = 1\<rparr>,
      clock = \<lparr>clock_hour = 0, clock_minute = 0, clock_second = 0\<rparr>\<rparr>"
  let ?W = "['';TIME:3600'', '';LAYER:0\<newline>G1 X1'', ''M84\<newline>;End of Gcode\<newline>;SETTING_3\<newline>'']"
  let ?W1 = "['';TIME:3600\<newline>;Cura Time:  1hr 0min\<newline>M117 ET 1hr 0min'',
        '';LAYER:0\<newline>G1 X1'',
        ''M84\<newline>;End of Gcode\<newline>;SETTING_3\<newline>M117 Orig Cura Est 1hr 0min\<newline>'']"
  let ?W2 = "['';TIME:3600\<newline>;Cura Time:  1hr 0min\<newline>M117 ET 1hr 0min'',
        '';LAYER:0\<newline>G1 X1'',
        ''M84\<newline>;SETTING_3\<newline>M117 Orig Cura Est 1hr 0min\<newline>;End of Gcode\<newline>'']"
  let ?W' = "['';TIME:3600\<newline>;Cura Time:  1hr 0min\<newline>M117 ET 1hr 0min'',
        '';LAYER:0\<newline>M117 layer 1/0\<newline>G1 X1'',
        ''M84\<newline>;SETTING_3\<newline>M117 Orig Cura Est 1hr 0min\<newline>;End of Gcode\<newline>'']"
  let ?env = "\<lparr>first_layer_index = 1, number_of_layers = 0, time_total = 3600\<rparr>"
  let ?st = "\<lparr>data = ['';TIME:3600'', '';LAYER:0\<newline>M117 layer 1/0\<newline>G1 X1'',
                  ''M84\<newline>;End of Gcode\<newline>;SETTING_3\<newline>''],
          current_layer = 1, time_elapsed = 0\<rparr>"
  have reloc: "relocate_end_of_gcode ?W1 = Inr ?W2"
    by (simp add: relocate_end_of_gcode_def)
  have first: "find_first_layer ?W2 0 (0, 0, 0) = Inr (1, 0, 3600)"
    by (simp add: item_def py_int_def strip_def is_space_def unsigned_value_def digit_val_def)
  have loop2: "annotate_layers exact_ops ?s ?env ?W2
      = Inr \<lparr>data = ?W', current_layer = 1, time_elapsed = 0\<rparr>"
    by (simp add: annotate_layers_def upt_rec layer_step_def item_def Let_def display_text_def
      base_display_text_def display_commands_def str_int_def digit_char_def)
  have loop: "annotate_layers exact_ops ?s ?env ?W = Inr ?st"
    by (simp add: annotate_layers_def upt_rec layer_step_def item_def Let_def display_text_def
      base_display_text_def display_commands_def str_int_def digit_char_def)
  have run: "display_progress 10 exact_ops ?s ?ms ?job ?W = Some (Inr ?W')"
    unfolding display_progress_def wit_estimate
    by (simp add: reloc first loop2 del: find_first_layer.simps One_nat_def)
  have len: "2 \<le> length ?W" by simp
  from layer_loop_changes_only_marked_sections_in_range
         [of exact_ops ?s ?env ?W ?st 10 ?ms ?job ?W'] loop run len
  obtain d1 summary where
    e: "estimate_lines 10 exact_ops ?s ?W = Some (Inr d1)"
    and c: "\<not> contains (replace (d1 ! (length ?W - 1)) '';End of Gcode\<newline>'' [] @
                           '';End of Gcode\<newline>'') '';LAYER:''
               \<longrightarrow> ?W' ! (length ?W - 1) =
                     replace (d1 ! (length ?W - 1)) '';End of Gcode\<newline>'' [] @
                     '';End of Gcode\<newline>''"
    by blast
  have d1: "d1 = ?W1" using e wit_estimate by simp
  have "?W' ! (3 - 1) = replace (?W1 ! 2) '';End of Gcode\<newline>'' [] @ '';End of Gcode\<newline>''"
    using c unfolding d1 by simp
  then show ?thesis using run loop by simp
qed

section \<open>Layer ordinals\<close>

lemma layer_step_marked:
  assumes "layer_step ops s env st c = Inr st'"
    and "contains (data st ! (first_layer_index env + c)) '';LAYER:''"
  shows "current_layer st' = current_layer st + 1"
    and "data st' = (data st)[first_layer_index env + c :=
           join ''\<newline>''
             (insert_display
                (display_commands s
                   (display_text ops s env (current_layer st + 1) (time_elapsed st)))
                (split_on CHR ''\<newline>'' (data st ! (first_layer_index env + c))))]"
  using assms
  by (auto simp: layer_step_def Let_def item_def split: if_splits sum.splits)

lemma layer_loop_ordinals:
  assumes "layer_loop ops s env cs st = Inr st'" "distinct cs"
  shows "\<forall>i < length cs.
           contains (data st ! (first_layer_index env + cs ! i)) '';LAYER:'' \<longrightarrow>
             (\<exists>te. data st' ! (first_layer_index env + cs ! i) =
                join ''\<newline>''
                  (insert_display
                     (display_commands s
                        (display_text ops s env
                           (current_layer st + 1 +
                            int (length (filter
                              (\<lambda>c. contains (data st ! (first_layer_index env + c)) '';LAYER:'')
                              (take i cs))))
                           te))
                     (split_on CHR ''\<newline>'' (data st ! (first_layer_index env + cs ! i)))))"
  using assms
proof (induction cs arbitrary: st)
  case Nil
  then show ?case by simp
next
  case (Cons c rest)
  let ?f = "first_layer_index env"
  from Cons.prems(1) obtain st1 where
    s1: "layer_step ops s env st c = Inr st1" and r: "layer_loop ops s env rest st1 = Inr st'"
    by (auto split: sum.splits)
  from Cons.prems(2) have dr: "distinct rest" and cn: "c \<notin> set rest" by simp_all
  note ih = Cons.IH[OF r dr]
  note fs = layer_step_frame[OF s1]
  note fl = layer_loop_frame[OF r]
  have same: "data st1 ! (?f + c') = data st ! (?f + c')" if "c' \<in> set rest" for c'
  proof -
    have "?f + c' \<noteq> ?f + c" using that cn by auto
    then show ?thesis using fs(3) by simp
  qed
  have filt: "filter (\<lambda>c'. contains (data st1 ! (?f + c')) '';LAYER:'') (take i rest)
            = filter (\<lambda>c'. contains (data st ! (?f + c')) '';LAYER:'') (take i rest)" for i
  proof (rule filter_cong[OF refl])
    fix x assume "x \<in> set (take i rest)"
    then have "x \<in> set rest" by (rule in_set_takeD)
    then show "contains (data st1 ! (?f + x)) '';LAYER:'' = contains (data st ! (?f + x)) '';LAYER:''"
      using same by simp
  qed
  show ?case
  proof (intro allI impI)
    fix i
    assume i: "i < length (c # rest)"
      and m: "contains (data st ! (?f + (c # rest) ! i)) '';LAYER:''"
    show "\<exists>te. data st' ! (?f + (c # rest) ! i) =
                join ''\<newline>''
                  (insert_display
                     (display_commands s
                        (display_text ops s env
                           (current_layer st + 1 +
                            int (length (filter
                              (\<lambda>c. contains (data st ! (?f + c)) '';LAYER:'')
                              (take i (c # rest)))))
                           te))
                     (split_on CHR ''\<newline>'' (data st ! (?f + (c # rest) ! i))))"
    proof (cases i)
      case 0
      then have mc: "contains (data st ! (?f + c)) '';LAYER:''" using m by simp
      have "?f + c \<notin> (\<lambda>c. ?f + c) ` set rest" using cn by auto
      then have "data st' ! (?f + c) = data st1 ! (?f + c)" using fl by blast
      moreover have "data st1 ! (?f + c) =
           join ''\<newline>''
             (insert_display
                (display_commands s
                   (display_text ops s env (current_layer st + 1) (time_elapsed st)))
                (split_on CHR ''\<newline>'' (data st ! (?f + c))))"
        using layer_step_marked(2)[OF s1 mc] fs(2) by simp
      ultimately show ?thesis using 0 by auto
    next
      case (Suc i')
      then have i': "i' < length rest" using i by simp
      have ri: "rest ! i' \<in> set rest" using i' by simp
      have m1: "contains (data st1 ! (?f + rest ! i')) '';LAYER:''"
        using m Suc same[OF ri] by simp
      from ih i' m1 obtain te where
        te: "data st' ! (?f + rest ! i') =
                join ''\<newline>''
                  (insert_display
                     (display_commands s
                        (display_text ops s env
                           (current_layer st1 + 1 +
                            int (length (filter
                              (\<lambda>c. contains (data st1 ! (?f + c)) '';LAYER:'')
                              (take i' rest))))
                           te))
                     (split_on CHR ''\<newline>'' (data st1 ! (?f + rest ! i'))))"
        by blast
      have cl: "current_layer st1 + 1 +
                  int (length (filter (\<lambda>c. contains (data st1 ! (?f + c)) '';LAYER:'')
                     (take i' rest)))
              = current_layer st + 1 +
                  int (length (filter (\<lambda>c. contains (data st ! (?f + c)) '';LAYER:'')
                     (take i (c # rest))))"
      proof (cases "contains (data st ! (?f + c)) '';LAYER:''")
        case True
        then have "current_layer st1 = current_layer st + 1"
          using layer_step_marked(1)[OF s1] by simp
        then show ?thesis using True Suc filt[of i'] by simp
      next
        case False
        then have "st1 = st" using fs(4) by simp
        then show ?thesis using False Suc by simp
      qed
      show ?thesis using te cl same[OF ri] Suc by auto
    qed
  qed
qed

lemma layer_line_other:
  "\<not> startswith line '';LAYER:'' \<Longrightarrow> layer_line s line st = Inr st"
  by (simp add: layer_line_def)

lemma marker_not_count:
  "startswith line '';LAYER:'' \<Longrightarrow> \<not> startswith line '';LAYER_COUNT:''"
  by (auto simp: startswith_iff)

lemma layer_count_line_keeps:
  assumes "layer_count_line s line st = Inr st1"
  shows "section_lines st1 = section_lines st" "ordinal st1 = ordinal st" "shown st1 = shown st"
  using assms by (auto simp: layer_count_line_def split: if_splits sum.splits)

lemma layer_count_line_other:
  "\<not> startswith line '';LAYER_COUNT:'' \<Longrightarrow> layer_count_line s line st = Inr st"
  by (simp add: layer_count_line_def)

lemma index_of_first:
  assumes "index_of x xs = Inr j"
  shows "j < length xs \<and> xs ! j = x \<and> (\<forall>q < j. xs ! q \<noteq> x)"
  using assms
proof (induction xs arbitrary: j)
  case Nil
  then show ?case by simp
next
  case (Cons y ys)
  show ?case
  proof (cases "y = x")
    case True
    then show ?thesis using Cons.prems by simp
  next
    case False
    then obtain i where i: "index_of x ys = Inr i" and j: "j = Suc i"
      using Cons.prems by (auto split: sum.splits)
    from Cons.IH[OF i] have "i < length ys \<and> ys ! i = x \<and> (\<forall>q < i. ys ! q \<noteq> x)" .
    then show ?thesis using j False by (auto simp: nth_Cons split: nat.splits)
  qed
qed

lemma index_of_in_set:
  "x \<in> set xs \<Longrightarrow> \<exists>j. index_of x xs = Inr j"
  by (induction xs) auto

lemma index_of_at:
  assumes "p < length xs" "\<forall>q < p. xs ! q \<noteq> xs ! p"
  shows "index_of (xs ! p) xs = Inr p"
proof -
  obtain j where j: "index_of (xs ! p) xs = Inr j"
    using index_of_in_set[of "xs ! p" xs] assms(1) by auto
  note f = index_of_first[OF j]
  have "\<not> j < p" using f assms(2) by auto
  moreover have "\<not> p < j" using f by auto
  ultimately show ?thesis using j by simp
qed

lemma split_on_nonempty: "split_on sep s \<noteq> []"
  by (induction s) (auto split: list.splits)

lemma join_split: "join [sep] (split_on sep s) = s"
proof (induction s)
  case Nil
  then show ?case by simp
next
  case (Cons c cs)
  show ?case
  proof (cases "c = sep")
    case True
    obtain w ws where w: "split_on sep cs = w # ws"
      using split_on_nonempty[of sep cs] by (cases "split_on sep cs") auto
    then show ?thesis using True Cons.IH by simp
  next
    case False
    obtain w ws where w: "split_on sep cs = w # ws"
      using split_on_nonempty[of sep cs] by (cases "split_on sep cs") auto
    then show ?thesis using False Cons.IH by (cases ws) auto
  qed
qed

lemma name_lines_no_marker:
  assumes "\<forall>j. k \<le> j \<and> j < length (section_lines st) \<longrightarrow>
             \<not> startswith (section_lines st ! j) '';LAYER:''"
    and "length (section_lines st) - k < fuel"
  shows "\<exists>r. name_lines fuel s k st = Some r
       \<and> (\<forall>st'. r = Inr st' \<longrightarrow>
             section_lines st' = section_lines st \<and> ordinal st' = ordinal st
             \<and> shown st' = shown st)"
  using assms
proof (induction fuel arbitrary: k st)
  case 0
  then show ?case by simp
next
  case (Suc fuel)
  show ?case
  proof (cases "k < length (section_lines st)")
    case False
    then show ?thesis by simp
  next
    case True
    let ?line = "section_lines st ! k"
    have nm: "\<not> startswith ?line '';LAYER:''" using Suc.prems(1) True by simp
    show ?thesis
    proof (cases "layer_count_line s ?line st")
      case (Inl e)
      then show ?thesis using True by simp
    next
      case (Inr st1)
      note k1 = layer_count_line_keeps[OF Inr]
      have step: "name_lines (Suc fuel) s k st = name_lines fuel s (Suc k) st1"
        using True Inr layer_line_other[OF nm, of s st1] by simp
      have a: "\<forall>j. Suc k \<le> j \<and> j < length (section_lines st1) \<longrightarrow>
             \<not> startswith (section_lines st1 ! j) '';LAYER:''"
        using Suc.prems(1) k1(1) by simp
      have b: "length (section_lines st1) - Suc k < fuel"
        using Suc.prems(2) True k1(1) by simp
      from Suc.IH[OF a b] show ?thesis using step k1 by simp
    qed
  qed
qed

lemma name_lines_plain:
  assumes "\<forall>j. k \<le> j \<and> j < length (section_lines st) \<longrightarrow>
             \<not> startswith (section_lines st ! j) '';LAYER:'' \<and>
             \<not> startswith (section_lines st ! j) '';LAYER_COUNT:''"
    and "length (section_lines st) - k < fuel"
  shows "name_lines fuel s k st = Some (Inr st)"
  using assms
proof (induction fuel arbitrary: k)
  case 0
  then show ?case by simp
next
  case (Suc fuel)
  show ?case
  proof (cases "k < length (section_lines st)")
    case False
    then show ?thesis by simp
  next
    case True
    have "name_lines (Suc fuel) s k st = name_lines fuel s (Suc k) st"
      using True Suc.prems(1) layer_line_other[of "section_lines st ! k" s st]
        layer_count_line_other[of "section_lines st ! k" s st] by simp
    moreover have "name_lines fuel s (Suc k) st = Some (Inr st)"
      using Suc.IH[of "Suc k"] Suc.prems True by simp
    ultimately show ?thesis by simp
  qed
qed

lemma index_of_middle:
  assumes "\<forall>l \<in> set pre. l \<noteq> x"
  shows "index_of x (pre @ x # post) = Inr (length pre)"
  using assms by (induction pre) auto

lemma insert_after_marker:
  "insert_at (Suc (length pre)) t (pre @ line # post) = pre @ line # t # post"
  "insert_at (Suc (Suc (length pre))) m (pre @ line # t # post) = pre @ line # t # m # post"
  by (simp_all add: insert_at_def)

lemma layer_line_marker:
  assumes m: "startswith line '';LAYER:''"
    and sp: "section_lines st = pre @ line # post"
    and pre: "\<forall>l \<in> set pre. \<not> startswith l '';LAYER:''"
  shows "(\<exists>e. layer_line s line st = Inl e) \<or>
         (\<exists>t. startswith t (shown st) \<and>
            layer_line s line st =
              Inr (st\<lparr>section_lines :=
                        pre @ line # t #
                        (if add_m118 s then [replace_first t ''M117'' ''M118''] else []) @ post,
                      shown := t, ordinal := ordinal st + 1\<rparr>))"
proof -
  have ne: "\<forall>l \<in> set pre. l \<noteq> line" using m pre by auto
  have ix: "index_of line (section_lines st) = Inr (length pre)"
    using index_of_middle[OF ne] sp by simp
  define shown_text where "shown_text =
     (if maxlayer s then
        (case max_layer st of
           None \<Rightarrow> Inl TypeError
         | Some m \<Rightarrow>
             Inr (if \<not> scroll s
                  then shown st @ '' of '' @ m @ '' '' @ shown_name s
                  else shown st @ '' of '' @ m))
      else
        Inr (if \<not> scroll s
             then shown st @ '' '' @ shown_name s @ ''!''
             else shown st @ ''!''))"
  show ?thesis
  proof (cases shown_text)
    case (Inl e)
    then have "layer_line s line st = Inl e"
      using m unfolding layer_line_def shown_text_def by simp
    then show ?thesis by blast
  next
    case (Inr t)
    have pf: "startswith t (shown st)"
      using Inr unfolding shown_text_def
      by (auto simp: startswith_iff split: if_splits option.splits)
    have "layer_line s line st =
              Inr (st\<lparr>section_lines :=
                        pre @ line # t #
                        (if add_m118 s then [replace_first t ''M117'' ''M118''] else []) @ post,
                      shown := t, ordinal := ordinal st + 1\<rparr>)"
      using m Inr ix sp
      unfolding layer_line_def shown_text_def[symmetric]
      by (simp add: Let_def insert_after_marker)
    then show ?thesis using pf by blast
  qed
qed

lemma startswith_trans: "startswith t a \<Longrightarrow> startswith a b \<Longrightarrow> startswith t b"
  by (auto simp: startswith_iff)

lemma m117_not_marker: "startswith t ''M117'' \<Longrightarrow> \<not> startswith t '';LAYER:''"
  by (auto simp: startswith_iff)

lemma m118_not_marker: "startswith t ''M118'' \<Longrightarrow> \<not> startswith t '';LAYER:''"
  by (auto simp: startswith_iff)

lemma replace_first_m117:
  "startswith t ''M117'' \<Longrightarrow> startswith (replace_first t ''M117'' ''M118'') ''M118''"
  by (cases t) (auto simp: startswith_iff)

lemma name_lines_one_marker:
  assumes sp: "section_lines st = pre @ line # post"
    and pre: "\<forall>l \<in> set pre. \<not> startswith l '';LAYER:''"
    and post: "\<forall>l \<in> set post. \<not> startswith l '';LAYER:''"
    and m: "startswith line '';LAYER:''"
    and sh: "startswith (shown st) ''M117''"
    and k: "k \<le> length pre"
    and fuel: "length pre - k + length post + 3 < fuel"
  shows "\<exists>r. name_lines fuel s k st = Some r
       \<and> (\<forall>st'. r = Inr st' \<longrightarrow>
             ordinal st' = ordinal st + 1
           \<and> (\<exists>t. startswith t (shown st)
                \<and> section_lines st' =
                    pre @ line # t #
                    (if add_m118 s then [replace_first t ''M117'' ''M118''] else []) @ post))"
  using sp sh k fuel
proof (induction fuel arbitrary: k st)
  case 0
  then show ?case by simp
next
  case (Suc fuel)
  have kl: "k < length (section_lines st)" using Suc.prems(1,3) by simp
  show ?case
  proof (cases "k < length pre")
    case True
    have lk: "section_lines st ! k = pre ! k" using Suc.prems(1) True by (simp add: nth_append)
    have nm: "\<not> startswith (section_lines st ! k) '';LAYER:''" using lk pre True by simp
    show ?thesis
    proof (cases "layer_count_line s (section_lines st ! k) st")
      case (Inl e)
      then show ?thesis using kl by simp
    next
      case (Inr st1)
      note k1 = layer_count_line_keeps[OF Inr]
      have step: "name_lines (Suc fuel) s k st = name_lines fuel s (Suc k) st1"
        using kl Inr layer_line_other[OF nm, of s st1] by simp
      have a: "section_lines st1 = pre @ line # post" using k1 Suc.prems(1) by simp
      have b: "startswith (shown st1) ''M117''" using k1 Suc.prems(2) by simp
      have c: "Suc k \<le> length pre" using True by simp
      have d: "length pre - Suc k + length post + 3 < fuel" using Suc.prems(4) True by simp
      from Suc.IH[OF a b c d] show ?thesis using step k1 by simp
    qed
  next
    case False
    then have ke: "k = length pre" using Suc.prems(3) by simp
    have lk: "section_lines st ! k = line" using Suc.prems(1) ke by simp
    have lc: "layer_count_line s line st = Inr st"
      using layer_count_line_other[OF marker_not_count[OF m]] .
    from layer_line_marker[OF m Suc.prems(1) pre, of s]
    show ?thesis
    proof
      assume "\<exists>e. layer_line s line st = Inl e"
      then show ?thesis using kl lk lc by auto
    next
      assume "\<exists>t. startswith t (shown st) \<and>
            layer_line s line st =
              Inr (st\<lparr>section_lines :=
                        pre @ line # t #
                        (if add_m118 s then [replace_first t ''M117'' ''M118''] else []) @ post,
                      shown := t, ordinal := ordinal st + 1\<rparr>)"
      then obtain t where t: "startswith t (shown st)"
        and ll: "layer_line s line st =
              Inr (st\<lparr>section_lines :=
                        pre @ line # t #
                        (if add_m118 s then [replace_first t ''M117'' ''M118''] else []) @ post,
                      shown := t, ordinal := ordinal st + 1\<rparr>)"
        by blast
      let ?extra = "(if add_m118 s then [replace_first t ''M117'' ''M118''] else [])"
      let ?st2 = "st\<lparr>section_lines := pre @ line # t # ?extra @ post,
                      shown := t, ordinal := ordinal st + 1\<rparr>"
      have step: "name_lines (Suc fuel) s k st = name_lines fuel s (Suc k) ?st2"
        using kl lk lc ll by simp
      have t117: "startswith t ''M117''" using startswith_trans[OF t Suc.prems(2)] .
      have tail: "\<forall>l \<in> set (t # ?extra @ post). \<not> startswith l '';LAYER:''"
        using post m117_not_marker[OF t117] m118_not_marker[OF replace_first_m117[OF t117]]
        by auto
      have a: "\<forall>j. Suc k \<le> j \<and> j < length (section_lines ?st2) \<longrightarrow>
             \<not> startswith (section_lines ?st2 ! j) '';LAYER:''"
      proof (intro allI impI)
        fix j assume j: "Suc k \<le> j \<and> j < length (section_lines ?st2)"
        define n where "n = j - Suc (length pre)"
        have jn: "j = length (pre @ [line]) + n" using j ke n_def by simp
        have eq: "section_lines ?st2 = (pre @ [line]) @ (t # ?extra @ post)" by simp
        have "section_lines ?st2 ! j = (t # ?extra @ post) ! n"
          unfolding eq jn by (rule nth_append_length_plus)
        moreover have "n < length (t # ?extra @ post)" using j ke n_def by auto
        ultimately show "\<not> startswith (section_lines ?st2 ! j) '';LAYER:''"
          using tail by (metis nth_mem)
      qed
      have b: "length (section_lines ?st2) - Suc k < fuel" using Suc.prems(4) ke by simp
      from name_lines_no_marker[OF a b, of s] obtain r where
        r: "name_lines fuel s (Suc k) ?st2 = Some r"
        and rr: "\<forall>st'. r = Inr st' \<longrightarrow>
             section_lines st' = section_lines ?st2 \<and> ordinal st' = ordinal ?st2
             \<and> shown st' = shown ?st2" by blast
      have "\<forall>st'. r = Inr st' \<longrightarrow>
             ordinal st' = ordinal st + 1
           \<and> (\<exists>t. startswith t (shown st)
                \<and> section_lines st' = pre @ line # t #
                    (if add_m118 s then [replace_first t ''M117'' ''M118''] else []) @ post)"
        using rr t by auto
      then show ?thesis using step r by simp
    qed
  qed
qed


end
